(* ===== verification/Prelude.thy ===== *)
theory Prelude
  imports Main "HOL-Library.Word"
begin

text \<open>
  Shared ground of the development: how a Go function that reads and writes state and may
  return an error is modelled, the weakest-precondition calculus that carries the proofs
  about such functions, and generic facts on lists.

  A Go function \<open>func f(x) (T, error)\<close> with effects on a state of type \<open>'s\<close> is an
  operation \<open>'s \<Rightarrow> ('e + 'a) \<times> 's\<close>: \<open>Inl e\<close> is the non-nil error, \<open>Inr v\<close> the value.
  The state is returned in both cases, since Go keeps the effects made before an error.
\<close>

named_theorems wp_rules \<open>weakest preconditions of the operations of the model\<close>
named_theorems frame_rules \<open>components of the state an operation leaves alone\<close>

section \<open>Operations with errors\<close>

type_synonym ('s, 'e, 'a) op = "'s \<Rightarrow> ('e + 'a) \<times> 's"

definition ret :: "'a \<Rightarrow> ('s, 'e, 'a) op" where
  "ret x = (\<lambda>s. (Inr x, s))"

definition fail :: "'e \<Rightarrow> ('s, 'e, 'a) op" where
  "fail e = (\<lambda>s. (Inl e, s))"

text \<open>\<open>caseE m h k\<close> is \<open>x, err := m(); if err != nil { h(err) } else { k(x) }\<close>.\<close>

definition caseE ::
  "('s, 'e, 'a) op \<Rightarrow> ('e \<Rightarrow> ('s, 'f, 'b) op) \<Rightarrow> ('a \<Rightarrow> ('s, 'f, 'b) op) \<Rightarrow> ('s, 'f, 'b) op" where
  "caseE m h k = (\<lambda>s. case m s of (Inl e, s') \<Rightarrow> h e s' | (Inr x, s') \<Rightarrow> k x s')"

text \<open>\<open>tryE m k\<close> is the common shape \<open>x, err := m(); if err != nil { return err }; k(x)\<close>.\<close>

definition tryE :: "('s, 'e, 'a) op \<Rightarrow> ('a \<Rightarrow> ('s, 'e, 'b) op) \<Rightarrow> ('s, 'e, 'b) op" where
  "tryE m k = caseE m fail k"

text \<open>\<open>ignoreE m k\<close> runs \<open>m\<close> for its effect only, as a call whose results are dropped.\<close>

definition ignoreE :: "('s, 'e, 'a) op \<Rightarrow> ('s, 'f, 'b) op \<Rightarrow> ('s, 'f, 'b) op" where
  "ignoreE m k = caseE m (\<lambda>_. k) (\<lambda>_. k)"

definition gets :: "('s \<Rightarrow> 'a) \<Rightarrow> ('s, 'e, 'a) op" where
  "gets f = (\<lambda>s. (Inr (f s), s))"

definition modify :: "('s \<Rightarrow> 's) \<Rightarrow> ('s, 'e, unit) op" where
  "modify f = (\<lambda>s. (Inr (), f s))"

text \<open>A \<open>for\<close> loop over a slice whose body may return an error.\<close>

fun forE :: "('a \<Rightarrow> ('s, 'e, unit) op) \<Rightarrow> 'a list \<Rightarrow> ('s, 'e, unit) op" where
  "forE f [] = ret ()"
| "forE f (x # xs) = tryE (f x) (\<lambda>_. forE f xs)"

section \<open>Weakest preconditions\<close>

definition wp :: "('s, 'e, 'a) op \<Rightarrow> ('e + 'a \<Rightarrow> 's \<Rightarrow> bool) \<Rightarrow> 's \<Rightarrow> bool" where
  "wp m Q s = (case m s of (r, s') \<Rightarrow> Q r s')"

lemma wp_I: "wp m Q s \<Longrightarrow> m s = (r, s') \<Longrightarrow> Q r s'"
  by (simp add: wp_def)

lemma wp_iff: "wp m Q s \<longleftrightarrow> Q (fst (m s)) (snd (m s))"
  by (simp add: wp_def split: prod.splits)

lemma wp_mono: "wp m Q s \<Longrightarrow> (\<And>r t. Q r t \<Longrightarrow> Q' r t) \<Longrightarrow> wp m Q' s"
  by (simp add: wp_iff)

lemma wp_conj: "wp m Q s \<Longrightarrow> wp m Q' s \<Longrightarrow> wp m (\<lambda>r t. Q r t \<and> Q' r t) s"
  by (simp add: wp_iff)

lemma wp_ret [wp_rules]: "wp (ret x) Q s = Q (Inr x) s"
  by (simp add: wp_def ret_def)

lemma wp_fail [wp_rules]: "wp (fail e) Q s = Q (Inl e) s"
  by (simp add: wp_def fail_def)

lemma wp_gets [wp_rules]: "wp (gets f) Q s = Q (Inr (f s)) s"
  by (simp add: wp_def gets_def)

lemma wp_modify [wp_rules]: "wp (modify f) Q s = Q (Inr ()) (f s)"
  by (simp add: wp_def modify_def)

lemma wp_caseE [wp_rules]:
  "wp (caseE m h k) Q s =
     wp m (\<lambda>r s'. (\<forall>e. r = Inl e \<longrightarrow> wp (h e) Q s') \<and> (\<forall>x. r = Inr x \<longrightarrow> wp (k x) Q s')) s"
  by (simp add: wp_def caseE_def split: prod.splits sum.splits)

lemma wp_tryE [wp_rules]:
  "wp (tryE m k) Q s =
     wp m (\<lambda>r s'. (\<forall>e. r = Inl e \<longrightarrow> Q (Inl e) s') \<and> (\<forall>x. r = Inr x \<longrightarrow> wp (k x) Q s')) s"
  by (simp add: tryE_def wp_caseE wp_fail)

lemma wp_ignoreE [wp_rules]: "wp (ignoreE m k) Q s = wp m (\<lambda>_ s'. wp k Q s') s"
  by (simp add: ignoreE_def caseE_def wp_def split: prod.splits sum.splits)

lemma wp_if [wp_rules]:
  "wp (if b then m else n) Q s = ((b \<longrightarrow> wp m Q s) \<and> (\<not> b \<longrightarrow> wp n Q s))"
  by simp

lemma wp_case_option [wp_rules]:
  "wp (case v of None \<Rightarrow> m | Some x \<Rightarrow> k x) Q s =
     ((v = None \<longrightarrow> wp m Q s) \<and> (\<forall>x. v = Some x \<longrightarrow> wp (k x) Q s))"
  by (simp split: option.splits)

lemma wp_case_sum [wp_rules]:
  "wp (case v of Inl e \<Rightarrow> m e | Inr x \<Rightarrow> k x) Q s =
     ((\<forall>e. v = Inl e \<longrightarrow> wp (m e) Q s) \<and> (\<forall>x. v = Inr x \<longrightarrow> wp (k x) Q s))"
  by (simp split: sum.splits)

lemma wp_let [wp_rules]: "wp (let x = v in m x) Q s = wp (m v) Q s"
  by simp

section \<open>Invariants of operations\<close>

definition preserves :: "('s \<Rightarrow> bool) \<Rightarrow> ('s, 'e, 'a) op \<Rightarrow> bool" where
  "preserves I m \<longleftrightarrow> (\<forall>s. I s \<longrightarrow> I (snd (m s)))"

named_theorems preserves_intros \<open>invariants kept by the building blocks of operations\<close>

lemma preservesI: "(\<And>s. I s \<Longrightarrow> wp m (\<lambda>_. I) s) \<Longrightarrow> preserves I m"
  by (simp add: preserves_def wp_iff)

lemma preservesD: "preserves I m \<Longrightarrow> I s \<Longrightarrow> I (snd (m s))"
  by (simp add: preserves_def)

lemma preserves_wp: "preserves I m \<Longrightarrow> I s \<Longrightarrow> wp m (\<lambda>_. I) s"
  by (simp add: preserves_def wp_iff)

lemma preserves_ret [preserves_intros]: "preserves I (ret x)"
  by (simp add: preserves_def ret_def)

lemma preserves_fail [preserves_intros]: "preserves I (fail e)"
  by (simp add: preserves_def fail_def)

lemma preserves_gets [preserves_intros]: "preserves I (gets f)"
  by (simp add: preserves_def gets_def)

lemma preserves_caseE [preserves_intros]:
  "preserves I m \<Longrightarrow> (\<And>e. preserves I (h e)) \<Longrightarrow> (\<And>x. preserves I (k x)) \<Longrightarrow> preserves I (caseE m h k)"
  by (force simp add: preserves_def caseE_def split: prod.splits sum.splits)

lemma preserves_tryE [preserves_intros]:
  "preserves I m \<Longrightarrow> (\<And>x. preserves I (k x)) \<Longrightarrow> preserves I (tryE m k)"
  by (auto simp add: tryE_def intro: preserves_intros)

lemma preserves_ignoreE [preserves_intros]:
  "preserves I m \<Longrightarrow> preserves I k \<Longrightarrow> preserves I (ignoreE m k)"
  by (auto simp add: ignoreE_def intro: preserves_intros)

lemma preserves_if [preserves_intros]:
  "(b \<Longrightarrow> preserves I m) \<Longrightarrow> (\<not> b \<Longrightarrow> preserves I n) \<Longrightarrow> preserves I (if b then m else n)"
  by simp

lemma preserves_case_option [preserves_intros]:
  "(v = None \<Longrightarrow> preserves I m) \<Longrightarrow> (\<And>x. v = Some x \<Longrightarrow> preserves I (k x)) \<Longrightarrow>
   preserves I (case v of None \<Rightarrow> m | Some x \<Rightarrow> k x)"
  by (simp split: option.splits)

lemma preserves_case_sum [preserves_intros]:
  "(\<And>e. v = Inl e \<Longrightarrow> preserves I (m e)) \<Longrightarrow> (\<And>x. v = Inr x \<Longrightarrow> preserves I (k x)) \<Longrightarrow>
   preserves I (case v of Inl e \<Rightarrow> m e | Inr x \<Rightarrow> k x)"
  by (simp split: sum.splits)

lemma preserves_let [preserves_intros]:
  "(\<And>x. x = v \<Longrightarrow> preserves I (m x)) \<Longrightarrow> preserves I (let x = v in m x)"
  by simp

lemma preserves_forE [preserves_intros]:
  "(\<And>x. preserves I (f x)) \<Longrightarrow> preserves I (forE f xs)"
  by (induction xs) (auto intro: preserves_intros)

lemma preserves_conj:
  "preserves I m \<Longrightarrow> preserves J m \<Longrightarrow> preserves (\<lambda>s. I s \<and> J s) m"
  by (auto simp add: preserves_def)

section \<open>Lists\<close>

lemma find_SomeD: "find P xs = Some x \<Longrightarrow> x \<in> set xs \<and> P x"
  by (induction xs) (auto split: if_splits)

lemma find_NoneD: "find P xs = None \<Longrightarrow> x \<in> set xs \<Longrightarrow> \<not> P x"
  by (simp add: find_None_iff)

lemma distinct_map_inj_on: "distinct (map f xs) \<Longrightarrow> x \<in> set xs \<Longrightarrow> y \<in> set xs \<Longrightarrow> f x = f y \<Longrightarrow> x = y"
  by (auto simp add: distinct_map dest: inj_onD)

lemma set_map_filter: "y \<in> set (List.map_filter f xs) \<longleftrightarrow> (\<exists>x \<in> set xs. f x = Some y)"
  by (induction xs) (auto simp add: map_filter_simps split: option.splits)

end
