(* ===== verification/GoStrings.thy ===== *)
theory GoStrings
  imports Prelude
begin

text \<open>
  The parts of Go's \<open>strings\<close>, \<open>strconv\<close>, \<open>unicode\<close> and \<open>unicode/utf8\<close> that the server
  uses. A Go string is a sequence of bytes, so it is a \<open>string\<close> (\<open>char list\<close>) and \<open>len(s)\<close> is
  \<open>length s\<close>. The large Unicode tables of the standard library (letters, digits and case pairs
  beyond Latin-1) are a parameter, the record \<open>unicode\<close>; what the library does with them
  (UTF-8 decoding, the Latin-1 fast path) is written out.
\<close>

section \<open>Prefixes, suffixes, search\<close>

definition HasPrefix :: "string \<Rightarrow> string \<Rightarrow> bool" where
  "HasPrefix s p \<longleftrightarrow> length p \<le> length s \<and> take (length p) s = p"

definition HasSuffix :: "string \<Rightarrow> string \<Rightarrow> bool" where
  "HasSuffix s p \<longleftrightarrow> length p \<le> length s \<and> drop (length s - length p) s = p"

fun Contains :: "string \<Rightarrow> string \<Rightarrow> bool" where
  "Contains [] sub = (sub = [])"
| "Contains (c # s) sub = (HasPrefix (c # s) sub \<or> Contains s sub)"

lemma HasPrefix_iff: "HasPrefix s p \<longleftrightarrow> (\<exists>t. s = p @ t)"
  by (auto simp add: HasPrefix_def) (metis append_take_drop_id)

lemma HasSuffix_iff: "HasSuffix s p \<longleftrightarrow> (\<exists>t. s = t @ p)"
  by (auto simp add: HasSuffix_def) (metis append_take_drop_id)

lemma HasPrefix_append [simp]: "HasPrefix (p @ t) p"
  by (auto simp add: HasPrefix_iff)

lemma HasSuffix_append [simp]: "HasSuffix (t @ p) p"
  by (auto simp add: HasSuffix_iff)

lemma Contains_iff: "Contains s sub \<longleftrightarrow> (\<exists>a b. s = a @ sub @ b)"
proof (induction s)
  case Nil
  then show ?case by simp
next
  case (Cons c s)
  show ?case
  proof
    assume "Contains (c # s) sub"
    then show "\<exists>a b. c # s = a @ sub @ b"
    proof (cases "HasPrefix (c # s) sub")
      case True
      then obtain t where "c # s = [] @ sub @ t" by (auto simp add: HasPrefix_iff)
      then show ?thesis by blast
    next
      case False
      with \<open>Contains (c # s) sub\<close> Cons.IH obtain a b where "s = a @ sub @ b" by auto
      then have "c # s = (c # a) @ sub @ b" by simp
      then show ?thesis by blast
    qed
  next
    assume "\<exists>a b. c # s = a @ sub @ b"
    then obtain a b where ab: "c # s = a @ sub @ b" by blast
    show "Contains (c # s) sub"
    proof (cases a)
      case Nil
      with ab have "HasPrefix (c # s) sub" by (auto simp add: HasPrefix_iff)
      then show ?thesis by simp
    next
      case (Cons d a')
      with ab have "s = a' @ sub @ b" by simp
      then have "Contains s sub" using Cons.IH by blast
      then show ?thesis by simp
    qed
  qed
qed

lemma Contains_single: "Contains s [c] \<longleftrightarrow> c \<in> set s"
  by (auto simp add: Contains_iff in_set_conv_decomp)

section \<open>Trimming white space\<close>

text \<open>
  The encodings of the characters that \<open>unicode.IsSpace\<close> accepts, as \<open>strings.TrimSpace\<close> sees
  them: the ASCII ones, U+0085, U+00A0, U+1680, U+2000 to U+200A, U+2028, U+2029, U+202F,
  U+205F and U+3000.
\<close>

definition space_seqs :: "string list" where
  "space_seqs =
     [[CHR 0x20], [CHR 0x09], [CHR 0x0A], [CHR 0x0B], [CHR 0x0C], [CHR 0x0D],
      [CHR 0xC2, CHR 0x85], [CHR 0xC2, CHR 0xA0], [CHR 0xE1, CHR 0x9A, CHR 0x80],
      [CHR 0xE2, CHR 0x80, CHR 0x80], [CHR 0xE2, CHR 0x80, CHR 0x81],
      [CHR 0xE2, CHR 0x80, CHR 0x82], [CHR 0xE2, CHR 0x80, CHR 0x83],
      [CHR 0xE2, CHR 0x80, CHR 0x84], [CHR 0xE2, CHR 0x80, CHR 0x85],
      [CHR 0xE2, CHR 0x80, CHR 0x86], [CHR 0xE2, CHR 0x80, CHR 0x87],
      [CHR 0xE2, CHR 0x80, CHR 0x88], [CHR 0xE2, CHR 0x80, CHR 0x89],
      [CHR 0xE2, CHR 0x80, CHR 0x8A], [CHR 0xE2, CHR 0x80, CHR 0xA8],
      [CHR 0xE2, CHR 0x80, CHR 0xA9], [CHR 0xE2, CHR 0x80, CHR 0xAF],
      [CHR 0xE2, CHR 0x81, CHR 0x9F], [CHR 0xE3, CHR 0x80, CHR 0x80]]"

lemma space_seqs_nonempty: "p \<in> set space_seqs \<Longrightarrow> p \<noteq> []"
  by (auto simp add: space_seqs_def)

function TrimLeftSpace :: "string \<Rightarrow> string" where
  "TrimLeftSpace s =
     (case find (HasPrefix s) space_seqs of
        None \<Rightarrow> s
      | Some p \<Rightarrow> TrimLeftSpace (drop (length p) s))"
  by pat_completeness auto
termination
proof (relation "measure length", simp)
  fix s p
  assume "find (HasPrefix s) space_seqs = Some p"
  then have "p \<noteq> []" "HasPrefix s p"
    by (auto dest: find_SomeD space_seqs_nonempty)
  then show "(drop (length p) s, s) \<in> measure length"
    by (cases s) (auto simp add: HasPrefix_def)
qed

function TrimRightSpace :: "string \<Rightarrow> string" where
  "TrimRightSpace s =
     (case find (HasSuffix s) space_seqs of
        None \<Rightarrow> s
      | Some p \<Rightarrow> TrimRightSpace (take (length s - length p) s))"
  by pat_completeness auto
termination
proof (relation "measure length", simp)
  fix s p
  assume "find (HasSuffix s) space_seqs = Some p"
  then have "p \<noteq> []" "HasSuffix s p"
    by (auto dest: find_SomeD space_seqs_nonempty)
  then show "(take (length s - length p) s, s) \<in> measure length"
    by (cases s) (auto simp add: HasSuffix_def)
qed

declare TrimLeftSpace.simps [simp del] TrimRightSpace.simps [simp del]

definition TrimSpace :: "string \<Rightarrow> string" where
  "TrimSpace s = TrimRightSpace (TrimLeftSpace s)"

definition space_start :: "string \<Rightarrow> bool" where
  "space_start s \<longleftrightarrow> (\<exists>p \<in> set space_seqs. HasPrefix s p)"

definition space_end :: "string \<Rightarrow> bool" where
  "space_end s \<longleftrightarrow> (\<exists>p \<in> set space_seqs. HasSuffix s p)"

lemma TrimLeftSpace_id: "\<not> space_start s \<Longrightarrow> TrimLeftSpace s = s"
proof -
  assume "\<not> space_start s"
  then have "find (HasPrefix s) space_seqs = None"
    by (auto simp add: space_start_def find_None_iff)
  then show ?thesis by (subst TrimLeftSpace.simps) simp
qed

lemma TrimRightSpace_id: "\<not> space_end s \<Longrightarrow> TrimRightSpace s = s"
proof -
  assume "\<not> space_end s"
  then have "find (HasSuffix s) space_seqs = None"
    by (auto simp add: space_end_def find_None_iff)
  then show ?thesis by (subst TrimRightSpace.simps) simp
qed

lemma TrimLeftSpace_no_start: "\<not> space_start (TrimLeftSpace s)"
proof (induction s rule: TrimLeftSpace.induct)
  case (1 s)
  show ?case
  proof (cases "find (HasPrefix s) space_seqs")
    case None
    then have "\<not> space_start s" by (auto simp add: space_start_def find_None_iff)
    then show ?thesis by (simp add: TrimLeftSpace_id)
  next
    case (Some p)
    with "1.IH" have "\<not> space_start (TrimLeftSpace (drop (length p) s))" by blast
    with Some show ?thesis by (simp add: TrimLeftSpace.simps [of s])
  qed
qed

lemma TrimRightSpace_no_end: "\<not> space_end (TrimRightSpace s)"
proof (induction s rule: TrimRightSpace.induct)
  case (1 s)
  show ?case
  proof (cases "find (HasSuffix s) space_seqs")
    case None
    then have "\<not> space_end s" by (auto simp add: space_end_def find_None_iff)
    then show ?thesis by (simp add: TrimRightSpace_id)
  next
    case (Some p)
    with "1.IH" have "\<not> space_end (TrimRightSpace (take (length s - length p) s))" by blast
    with Some show ?thesis by (simp add: TrimRightSpace.simps [of s])
  qed
qed

lemma TrimRightSpace_take: "\<exists>n. TrimRightSpace s = take n s"
proof (induction s rule: TrimRightSpace.induct)
  case (1 s)
  show ?case
  proof (cases "find (HasSuffix s) space_seqs")
    case None
    then show ?thesis by (subst TrimRightSpace.simps) (auto intro: exI [of _ "length s"])
  next
    case (Some p)
    with "1.IH" obtain n where
      "TrimRightSpace (take (length s - length p) s) = take n (take (length s - length p) s)"
      by blast
    with Some show ?thesis by (subst TrimRightSpace.simps) auto
  qed
qed

lemma TrimLeftSpace_drop: "\<exists>n. TrimLeftSpace s = drop n s"
proof (induction s rule: TrimLeftSpace.induct)
  case (1 s)
  show ?case
  proof (cases "find (HasPrefix s) space_seqs")
    case None
    then show ?thesis by (subst TrimLeftSpace.simps) (auto intro: exI [of _ 0])
  next
    case (Some p)
    with "1.IH" obtain n where
      "TrimLeftSpace (drop (length p) s) = drop n (drop (length p) s)"
      by blast
    with Some show ?thesis by (subst TrimLeftSpace.simps) auto
  qed
qed

lemma TrimSpace_no_end: "\<not> space_end (TrimSpace s)"
  by (simp add: TrimSpace_def TrimRightSpace_no_end)

lemma space_start_take: "space_start (take n s) \<Longrightarrow> space_start s"
proof -
  assume "space_start (take n s)"
  then obtain p t where p: "p \<in> set space_seqs" and "take n s = p @ t"
    by (auto simp add: space_start_def HasPrefix_iff)
  then have "s = p @ t @ drop n s" by (metis append_assoc append_take_drop_id)
  with p show ?thesis by (auto simp add: space_start_def HasPrefix_iff)
qed

lemma TrimSpace_no_start: "\<not> space_start (TrimSpace s)"
proof -
  obtain n where "TrimSpace s = take n (TrimLeftSpace s)"
    using TrimRightSpace_take by (auto simp add: TrimSpace_def)
  then show ?thesis using TrimLeftSpace_no_start space_start_take by metis
qed

lemma TrimSpace_idem [simp]: "TrimSpace (TrimSpace s) = TrimSpace s"
  using TrimSpace_no_start TrimSpace_no_end
  by (metis TrimSpace_def TrimLeftSpace_id TrimRightSpace_id)

lemma TrimSpace_id: "\<not> space_start s \<Longrightarrow> \<not> space_end s \<Longrightarrow> TrimSpace s = s"
  by (simp add: TrimSpace_def TrimLeftSpace_id TrimRightSpace_id)

lemma TrimSpace_infix: "\<exists>a b. s = a @ TrimSpace s @ b"
proof -
  obtain m n where "TrimSpace s = take n (drop m s)"
    using TrimRightSpace_take TrimLeftSpace_drop by (metis TrimSpace_def)
  then show ?thesis by (metis append_take_drop_id)
qed

lemma length_TrimSpace: "length (TrimSpace s) \<le> length s"
  using TrimSpace_infix [of s] by (metis length_append le_add1 le_add2 le_trans)

lemma set_TrimSpace: "set (TrimSpace s) \<subseteq> set s"
  using TrimSpace_infix [of s] by (metis set_append Un_upper1 Un_upper2 subset_trans)

section \<open>UTF-8\<close>

text \<open>
  \<open>DecodeRune\<close> is \<open>utf8.DecodeRuneInString\<close> on a non-empty byte sequence: the code point and
  the number of bytes it takes, (U+FFFD, 1) for a malformed one.
\<close>

definition cont_byte :: "nat \<Rightarrow> bool" where
  "cont_byte b \<longleftrightarrow> 0x80 \<le> b \<and> b \<le> 0xBF"

fun DecodeRune :: "nat list \<Rightarrow> nat \<times> nat" where
  "DecodeRune [] = (0xFFFD, 0)"
| "DecodeRune (b0 # bs) =
     (if b0 < 0x80 then (b0, 1)
      else case bs of
        [] \<Rightarrow> (0xFFFD, 1)
      | b1 # cs \<Rightarrow>
          if 0xC2 \<le> b0 \<and> b0 \<le> 0xDF then
            (if cont_byte b1 then ((b0 - 0xC0) * 64 + (b1 - 0x80), 2) else (0xFFFD, 1))
          else case cs of
            [] \<Rightarrow> (0xFFFD, 1)
          | b2 # ds \<Rightarrow>
              if 0xE0 \<le> b0 \<and> b0 \<le> 0xEF then
                (if cont_byte b1 \<and> cont_byte b2 \<and> (b0 = 0xE0 \<longrightarrow> 0xA0 \<le> b1) \<and> (b0 = 0xED \<longrightarrow> b1 \<le> 0x9F)
                 then ((b0 - 0xE0) * 4096 + (b1 - 0x80) * 64 + (b2 - 0x80), 3) else (0xFFFD, 1))
              else case ds of
                [] \<Rightarrow> (0xFFFD, 1)
              | b3 # _ \<Rightarrow>
                  if 0xF0 \<le> b0 \<and> b0 \<le> 0xF4 \<and> cont_byte b1 \<and> cont_byte b2 \<and> cont_byte b3 \<and>
                     (b0 = 0xF0 \<longrightarrow> 0x90 \<le> b1) \<and> (b0 = 0xF4 \<longrightarrow> b1 \<le> 0x8F)
                  then ((b0 - 0xF0) * 262144 + (b1 - 0x80) * 4096 + (b2 - 0x80) * 64 + (b3 - 0x80), 4)
                  else (0xFFFD, 1))"

definition str_bytes :: "string \<Rightarrow> nat list" where
  "str_bytes s = map of_char s"

fun decode_runes :: "nat list \<Rightarrow> nat list" where
  "decode_runes [] = []"
| "decode_runes (b # bs) =
     (let rn = DecodeRune (b # bs) in fst rn # decode_runes (drop (snd rn - 1) bs))"

text \<open>\<open>for _, ch := range s\<close> visits the runes of \<open>s\<close>.\<close>

definition runes :: "string \<Rightarrow> nat list" where
  "runes s = decode_runes (str_bytes s)"

definition EncodeRune :: "nat \<Rightarrow> nat list" where
  "EncodeRune r =
     (if r < 0x80 then [r]
      else if r < 0x800 then [0xC0 + r div 64, 0x80 + r mod 64]
      else if (0xD800 \<le> r \<and> r \<le> 0xDFFF) \<or> 0x10FFFF < r then [0xEF, 0xBF, 0xBD]
      else if r < 0x10000 then [0xE0 + r div 4096, 0x80 + r div 64 mod 64, 0x80 + r mod 64]
      else [0xF0 + r div 262144, 0x80 + r div 4096 mod 64, 0x80 + r div 64 mod 64, 0x80 + r mod 64])"

definition ascii_only :: "string \<Rightarrow> bool" where
  "ascii_only s \<longleftrightarrow> list_all (\<lambda>c. (of_char c :: nat) < 0x80) s"

lemma DecodeRune_size: "bs \<noteq> [] \<Longrightarrow> 1 \<le> snd (DecodeRune bs)"
  by (cases bs) (auto split: list.splits)

lemma decode_runes_ascii: "list_all (\<lambda>b. b < 0x80) bs \<Longrightarrow> decode_runes bs = bs"
  by (induction bs) (auto simp add: Let_def)

lemma runes_ascii: "ascii_only s \<Longrightarrow> runes s = map of_char s"
  by (simp add: runes_def ascii_only_def str_bytes_def decode_runes_ascii list_all_iff)

lemma length_decode_runes: "length (decode_runes bs) \<le> length bs"
proof (induction bs rule: decode_runes.induct)
  case 1
  then show ?case by simp
next
  case (2 b bs)
  then have "length (decode_runes (drop (snd (DecodeRune (b # bs)) - 1) bs)) \<le> length bs"
    by (metis diff_le_self le_trans length_drop)
  then show ?case by (simp only: decode_runes.simps Let_def list.size)
qed

text \<open>A string never has more runes than bytes, so a limit on \<open>len(s)\<close> also limits the characters.\<close>

lemma length_runes: "length (runes s) \<le> length s"
  using length_decode_runes [of "str_bytes s"] by (simp add: runes_def str_bytes_def)

section \<open>Character classes and case\<close>

record unicode =
  letter_table :: "nat \<Rightarrow> bool"
  digit_table :: "nat \<Rightarrow> bool"
  lower_table :: "nat \<Rightarrow> nat"

definition ascii_letter :: "nat \<Rightarrow> bool" where
  "ascii_letter r \<longleftrightarrow> (0x41 \<le> r \<and> r \<le> 0x5A) \<or> (0x61 \<le> r \<and> r \<le> 0x7A)"

definition ascii_digit :: "nat \<Rightarrow> bool" where
  "ascii_digit r \<longleftrightarrow> 0x30 \<le> r \<and> r \<le> 0x39"

definition IsLetter :: "unicode \<Rightarrow> nat \<Rightarrow> bool" where
  "IsLetter u r =
     (if r \<le> 0xFF then
        ascii_letter r \<or> r = 0xAA \<or> r = 0xB5 \<or> r = 0xBA \<or>
        (0xC0 \<le> r \<and> r \<noteq> 0xD7 \<and> r \<noteq> 0xF7)
      else letter_table u r)"

definition IsDigit :: "unicode \<Rightarrow> nat \<Rightarrow> bool" where
  "IsDigit u r = (if r \<le> 0xFF then ascii_digit r else digit_table u r)"

definition lower_ascii :: "nat \<Rightarrow> nat" where
  "lower_ascii r = (if 0x41 \<le> r \<and> r \<le> 0x5A then r + 0x20 else r)"

definition lower_rune :: "unicode \<Rightarrow> nat \<Rightarrow> nat" where
  "lower_rune u r = (if r < 0x80 then lower_ascii r else lower_table u r)"

definition ToLower :: "unicode \<Rightarrow> string \<Rightarrow> string" where
  "ToLower u s =
     (if ascii_only s then map (\<lambda>c. char_of (lower_ascii (of_char c))) s
      else map char_of (concat (map (\<lambda>r. EncodeRune (lower_rune u r)) (runes s))))"

section \<open>Splitting, joining and numbers\<close>

text \<open>\<open>strings.Split(s, sep)\<close> for a separator of one byte, and \<open>strings.SplitN(s, sep, 2)\<close>.\<close>

fun SplitByte :: "char \<Rightarrow> string \<Rightarrow> string list" where
  "SplitByte c [] = [[]]"
| "SplitByte c (x # xs) =
     (if x = c then [] # SplitByte c xs
      else case SplitByte c xs of [] \<Rightarrow> [[x]] | w # ws \<Rightarrow> (x # w) # ws)"

fun SplitN2 :: "char \<Rightarrow> string \<Rightarrow> string list" where
  "SplitN2 c s =
     (if c \<in> set s then [takeWhile (\<lambda>x. x \<noteq> c) s, tl (dropWhile (\<lambda>x. x \<noteq> c) s)] else [s])"

fun Join :: "string list \<Rightarrow> string \<Rightarrow> string" where
  "Join [] sep = []"
| "Join [w] sep = w"
| "Join (w # v # ws) sep = w @ sep @ Join (v # ws) sep"

lemma SplitByte_nonempty: "SplitByte c s \<noteq> []"
  by (induction s) (auto split: list.splits)

lemma Join_SplitByte: "Join (SplitByte c s) [c] = s"
proof (induction s)
  case Nil
  then show ?case by simp
next
  case (Cons x s)
  obtain w ws where ws: "SplitByte c s = w # ws"
    using SplitByte_nonempty by (metis list.exhaust)
  with Cons.IH show ?case by (cases ws) auto
qed

lemma SplitByte_no_sep: "w \<in> set (SplitByte c s) \<Longrightarrow> c \<notin> set w"
  by (induction s arbitrary: w) (auto split: list.splits if_splits)

lemma SplitByte_Join:
  "ws \<noteq> [] \<Longrightarrow> \<forall>w \<in> set ws. c \<notin> set w \<Longrightarrow> SplitByte c (Join ws [c]) = ws"
proof (induction ws "[c]" rule: Join.induct)
  case 1
  then show ?case by simp
next
  case (2 w)
  then show ?case by (induction w) auto
next
  case (3 w v ws)
  then have IH: "SplitByte c (Join (v # ws) [c]) = v # ws" by simp
  have "c \<notin> set w" using 3 by simp
  then have "SplitByte c (w @ c # Join (v # ws) [c]) = w # v # ws"
    by (induction w) (auto simp add: IH)
  then show ?case by simp
qed

definition digit_char :: "nat \<Rightarrow> char" where
  "digit_char d = char_of (48 + d)"

text \<open>\<open>strconv.Itoa\<close> and the \<open>%d\<close> verb.\<close>

fun decimal :: "nat \<Rightarrow> string" where
  "decimal n = (if n < 10 then [digit_char n] else decimal (n div 10) @ [digit_char (n mod 10)])"

declare decimal.simps [simp del]

definition Itoa :: "int \<Rightarrow> string" where
  "Itoa i = (if i < 0 then CHR ''-'' # decimal (nat (- i)) else decimal (nat i))"

definition digit_val :: "char \<Rightarrow> nat" where
  "digit_val c = of_char c - 48"

definition is_digit_char :: "char \<Rightarrow> bool" where
  "is_digit_char c \<longleftrightarrow> ascii_digit (of_char c)"

definition digits_val :: "string \<Rightarrow> nat" where
  "digits_val ds = foldl (\<lambda>n c. n * 10 + digit_val c) 0 ds"

lemma is_digit_digit_char [simp]: "d < 10 \<Longrightarrow> is_digit_char (digit_char d)"
  by (simp add: is_digit_char_def digit_char_def ascii_digit_def)

lemma digit_val_digit_char [simp]: "d < 10 \<Longrightarrow> digit_val (digit_char d) = d"
  by (simp add: digit_val_def digit_char_def)

lemma decimal_nonempty [simp]: "decimal n \<noteq> []"
  by (subst decimal.simps) simp

lemma decimal_digits: "list_all is_digit_char (decimal n)"
  by (induction n rule: decimal.induct) (subst decimal.simps, simp)

lemma digits_val_decimal [simp]: "digits_val (decimal n) = n"
proof (induction n rule: decimal.induct)
  case (1 n)
  then show ?case by (subst decimal.simps) (simp add: digits_val_def)
qed

lemma decimal_inj [simp]: "decimal m = decimal n \<longleftrightarrow> m = n"
  by (metis digits_val_decimal)

lemma decimal_no_char: "\<not> is_digit_char c \<Longrightarrow> c \<notin> set (decimal n)"
  using decimal_digits [of n] by (auto simp add: list_all_iff)

text \<open>
  \<open>strconv.Atoi\<close> on a 64-bit platform: the value and whether the error is nil. On a number out
  of range the value is the nearest bound, on a syntax error it is 0, and callers that drop the
  error go on with that value.
\<close>

definition max_int :: int where "max_int = 9223372036854775807"
definition min_int :: int where "min_int = - 9223372036854775808"

definition Atoi :: "string \<Rightarrow> int \<times> bool" where
  "Atoi s =
     (let neg = (s \<noteq> [] \<and> hd s = CHR ''-'');
          ds = (if s \<noteq> [] \<and> (hd s = CHR ''-'' \<or> hd s = CHR ''+'') then tl s else s)
      in if ds = [] \<or> \<not> list_all is_digit_char ds then (0, False)
         else let v = (if neg then - int (digits_val ds) else int (digits_val ds))
              in if v > max_int then (max_int, False)
                 else if v < min_int then (min_int, False)
                 else (v, True))"

text \<open>Arithmetic of Go's 64-bit \<open>int\<close> wraps around.\<close>

definition wrap_int :: "int \<Rightarrow> int" where
  "wrap_int x = (x + 2 ^ 63) mod 2 ^ 64 - 2 ^ 63"

lemma wrap_int_id: "min_int \<le> x \<Longrightarrow> x \<le> max_int \<Longrightarrow> wrap_int x = x"
  by (simp add: wrap_int_def min_int_def max_int_def)

lemma Atoi_range: "min_int \<le> fst (Atoi s) \<and> fst (Atoi s) \<le> max_int"
  by (simp add: Atoi_def Let_def min_int_def max_int_def)

lemma Atoi_decimal: "int n \<le> max_int \<Longrightarrow> Atoi (decimal n) = (int n, True)"
proof -
  assume n: "int n \<le> max_int"
  obtain c cs where c: "decimal n = c # cs" using decimal_nonempty by (metis list.exhaust)
  then have "is_digit_char c" using decimal_digits [of n] by simp
  then have "c \<noteq> CHR ''-''" "c \<noteq> CHR ''+''"
    by (auto simp add: is_digit_char_def ascii_digit_def)
  with c n decimal_digits [of n] digits_val_decimal [of n] show ?thesis
    by (simp add: Atoi_def Let_def min_int_def)
qed

text \<open>\<open>strconv.ParseBool\<close>.\<close>

definition ParseBool :: "string \<Rightarrow> bool option" where
  "ParseBool s =
     (if s \<in> {''1'', ''t'', ''T'', ''true'', ''TRUE'', ''True''} then Some True
      else if s \<in> {''0'', ''f'', ''F'', ''false'', ''FALSE'', ''False''} then Some False
      else None)"

text \<open>\<open>net.JoinHostPort\<close>: a host with a colon is put in brackets.\<close>

definition JoinHostPort :: "string \<Rightarrow> string \<Rightarrow> string" where
  "JoinHostPort host port =
     (if CHR '':'' \<in> set host then ''['' @ host @ '']:'' @ port else host @ '':'' @ port)"

end
