(* ===== verification/NetIP.thy ===== *)
theory NetIP
  imports GoStrings
begin

unbundle bit_operations_syntax

text \<open>
  Go's \<open>net.IP\<close>, \<open>net.IPNet\<close>, \<open>net.ParseIP\<close> and \<open>net.ParseCIDR\<close> as the address management
  uses them. An IPv4 address is a 32-bit word and an IPv4-mapped IPv6 address is the IPv4
  address it maps (Go's \<open>To4\<close> identifies them). The textual form of IPv6 addresses is a
  parameter, the record \<open>ip6_text\<close>; the IPv4 parser and printer are written out.
\<close>

datatype goip = IP4 "32 word" | IP6 "128 word"

record ip6_text =
  parse_ipv6 :: "string \<Rightarrow> 128 word option"
  ipv6_string :: "128 word \<Rightarrow> string"

section \<open>IPv4 text\<close>

definition octet :: "nat \<Rightarrow> 32 word \<Rightarrow> 8 word" where
  "octet i w = ucast (drop_bit (8 * i) w)"

text \<open>\<open>net.IP.String\<close> on four bytes.\<close>

definition ip4_string :: "32 word \<Rightarrow> string" where
  "ip4_string w =
     decimal (unat (octet 3 w)) @ ''.'' @ decimal (unat (octet 2 w)) @ ''.'' @
     decimal (unat (octet 1 w)) @ ''.'' @ decimal (unat (octet 0 w))"

text \<open>One decimal field: no empty field, no leading zero, at most 255.\<close>

definition parse_octet :: "string \<Rightarrow> nat option" where
  "parse_octet f =
     (if f = [] \<or> \<not> list_all is_digit_char f then None
      else if hd f = CHR ''0'' \<and> tl f \<noteq> [] then None
      else if 255 < digits_val f then None
      else Some (digits_val f))"

definition ip4_of_octets :: "nat \<Rightarrow> nat \<Rightarrow> nat \<Rightarrow> nat \<Rightarrow> 32 word" where
  "ip4_of_octets a b c d = of_nat (((a * 256 + b) * 256 + c) * 256 + d)"

lemma ip4_of_octets_code [code]:
  "ip4_of_octets a b c d = ((of_nat a * 256 + of_nat b) * 256 + of_nat c) * 256 + of_nat d"
  by (simp add: ip4_of_octets_def)

definition parse_ip4 :: "string \<Rightarrow> 32 word option" where
  "parse_ip4 s =
     (case map parse_octet (SplitByte CHR ''.'' s) of
        [Some a, Some b, Some c, Some d] \<Rightarrow> Some (ip4_of_octets a b c d)
      | _ \<Rightarrow> None)"

definition goip_of16 :: "128 word \<Rightarrow> goip" where
  "goip_of16 w = (if drop_bit 32 w = 0xFFFF then IP4 (ucast w) else IP6 w)"

text \<open>
  \<open>netip.ParseAddr\<close> decides by the first of the bytes \<open>'.'\<close>, \<open>':'\<close> and \<open>'%'\<close>. The raw result
  keeps the width of the text, which \<open>ParseCIDR\<close> needs for the mask.
\<close>

definition parse_addr :: "ip6_text \<Rightarrow> string \<Rightarrow> (32 word + 128 word) option" where
  "parse_addr t s =
     (case find (\<lambda>c. c = CHR ''.'' \<or> c = CHR '':'' \<or> c = CHR ''%'') s of
        None \<Rightarrow> None
      | Some c \<Rightarrow>
          if c = CHR ''.'' then map_option Inl (parse_ip4 s)
          else if c = CHR '':'' then map_option Inr (parse_ipv6 t s)
          else None)"

definition goip_of_addr :: "32 word + 128 word \<Rightarrow> goip" where
  "goip_of_addr a = (case a of Inl w \<Rightarrow> IP4 w | Inr w \<Rightarrow> goip_of16 w)"

definition ParseIP :: "ip6_text \<Rightarrow> string \<Rightarrow> goip option" where
  "ParseIP t s = map_option goip_of_addr (parse_addr t s)"

definition To4 :: "goip \<Rightarrow> 32 word option" where
  "To4 ip = (case ip of IP4 w \<Rightarrow> Some w | IP6 _ \<Rightarrow> None)"

definition ip_string :: "ip6_text \<Rightarrow> goip \<Rightarrow> string" where
  "ip_string t ip = (case ip of IP4 w \<Rightarrow> ip4_string w | IP6 w \<Rightarrow> ipv6_string t w)"

lemma unat_drop_bit: "unat (drop_bit k w) = unat w div 2 ^ k"
  by (subst unat_drop_bit_eq) (rule drop_bit_eq_div)

lemma unat_octet: "unat (octet i w) = unat w div 2 ^ (8 * i) mod 256"
  unfolding octet_def unsigned_ucast_eq unat_drop_bit by (simp add: take_bit_eq_mod)

lemma unat_octet_lt: "unat (octet i w) < 256"
  by (simp add: unat_octet)

lemma bytes_of_nat:
  fixes n :: nat
  assumes "n < 2 ^ 32"
  shows "((n div 16777216 mod 256 * 256 + n div 65536 mod 256) * 256 + n div 256 mod 256) * 256
           + n mod 256 = n"
proof -
  have "n div 16777216 < 256" using assms by (simp add: div_less_iff_less_mult)
  moreover have "n div 65536 div 256 = n div 16777216" "n div 256 div 256 = n div 65536"
    by (simp_all flip: div_mult2_eq)
  moreover have "n = n div 256 * 256 + n mod 256"
    "n div 256 = n div 256 div 256 * 256 + n div 256 mod 256"
    "n div 65536 = n div 65536 div 256 * 256 + n div 65536 mod 256"
    by simp_all
  ultimately show ?thesis by simp
qed

lemma ip4_of_octets_octets:
  "ip4_of_octets (unat (octet 3 w)) (unat (octet 2 w)) (unat (octet 1 w)) (unat (octet 0 w)) = w"
proof -
  have "unat w < 2 ^ 32" using unsigned_less [of w] by simp
  have e: "unat (octet 3 w) = unat w div 16777216 mod 256" "unat (octet 2 w) = unat w div 65536 mod 256"
    "unat (octet 1 w) = unat w div 256 mod 256" "unat (octet 0 w) = unat w mod 256"
    by (simp_all add: unat_octet)
  from bytes_of_nat [OF \<open>unat w < 2 ^ 32\<close>]
  have "((unat (octet 3 w) * 256 + unat (octet 2 w)) * 256 + unat (octet 1 w)) * 256
      + unat (octet 0 w) = unat w"
    by (simp only: e)
  then show ?thesis by (simp only: ip4_of_octets_def) simp
qed

lemma digit_char_0_iff: "d < 10 \<Longrightarrow> digit_char d = CHR ''0'' \<longleftrightarrow> d = 0"
proof -
  assume d: "d < 10"
  have "(of_char (digit_char d) :: nat) = 48 + d" using d by (simp add: digit_char_def)
  moreover have "(of_char CHR ''0'' :: nat) = 48" by simp
  ultimately show ?thesis by (metis add_cancel_left_right of_char_eq_iff)
qed

lemma decimal_no_leading_zero: "0 < n \<Longrightarrow> hd (decimal n) \<noteq> CHR ''0''"
proof (induction n rule: decimal.induct)
  case (1 n)
  show ?case
  proof (cases "n < 10")
    case True
    with "1.prems" show ?thesis by (subst decimal.simps) (simp add: digit_char_0_iff)
  next
    case False
    with "1.IH" have "hd (decimal (n div 10)) \<noteq> CHR ''0''" by simp
    with False show ?thesis by (subst decimal.simps) simp
  qed
qed

lemma decimal_0: "decimal 0 = ''0''"
  by (subst decimal.simps) (simp add: digit_char_0_iff)

lemma parse_octet_decimal: "n < 256 \<Longrightarrow> parse_octet (decimal n) = Some n"
  using decimal_digits [of n] decimal_no_leading_zero [of n] digits_val_decimal [of n]
  by (cases "n = 0") (auto simp add: parse_octet_def decimal_0)

lemma dot_not_in_decimal [simp]: "CHR ''.'' \<notin> set (decimal n)"
  by (rule decimal_no_char) (simp add: is_digit_char_def ascii_digit_def)

lemma split_ip4_string:
  "SplitByte CHR ''.'' (ip4_string w) =
     [decimal (unat (octet 3 w)), decimal (unat (octet 2 w)), decimal (unat (octet 1 w)),
      decimal (unat (octet 0 w))]"
proof -
  let ?ws = "[decimal (unat (octet 3 w)), decimal (unat (octet 2 w)), decimal (unat (octet 1 w)),
    decimal (unat (octet 0 w))]"
  have "SplitByte CHR ''.'' (Join ?ws ''.'') = ?ws"
    by (rule SplitByte_Join) auto
  then show ?thesis by (simp add: ip4_string_def)
qed

lemma parse_ip4_string: "parse_ip4 (ip4_string w) = Some w"
  using ip4_of_octets_octets [of w]
  by (simp add: parse_ip4_def split_ip4_string parse_octet_decimal unat_octet_lt)

lemma ip4_string_inj [simp]: "ip4_string v = ip4_string w \<longleftrightarrow> v = w"
  by (metis option.inject parse_ip4_string)

lemma find_first: "(\<forall>x \<in> set xs. \<not> P x) \<Longrightarrow> P c \<Longrightarrow> find P (xs @ c # ys) = Some c"
  by (induction xs) auto

lemma ParseIP_ip4_string [simp]: "ParseIP t (ip4_string w) = Some (IP4 w)"
proof -
  let ?P = "\<lambda>c. c = CHR ''.'' \<or> c = CHR '':'' \<or> c = CHR ''%''"
  have "\<forall>c \<in> set (decimal (unat (octet 3 w))). \<not> ?P c"
    using decimal_digits [of "unat (octet 3 w)"]
    by (auto simp add: list_all_iff is_digit_char_def ascii_digit_def)
  then have "find ?P (ip4_string w) = Some CHR ''.''"
    by (simp add: ip4_string_def find_first)
  then show ?thesis
    by (simp add: ParseIP_def parse_addr_def parse_ip4_string goip_of_addr_def)
qed

section \<open>Networks\<close>

text \<open>
  \<open>net.IPNet\<close> as \<open>ParseCIDR\<close> builds it: the masked address, the number of leading ones of the
  mask and the width of the mask (\<open>Mask.Size()\<close>).
\<close>

record ipnet =
  net_ip :: goip
  mask_ones :: nat
  mask_bits :: nat

definition mask4 :: "nat \<Rightarrow> 32 word" where
  "mask4 n = push_bit (32 - n) (- 1)"

definition mask16 :: "nat \<Rightarrow> 128 word" where
  "mask16 n = push_bit (128 - n) (- 1)"

text \<open>\<open>dtoi\<close>: digits only, below \<open>0xFFFFFF\<close>.\<close>

definition dtoi :: "string \<Rightarrow> nat option" where
  "dtoi s = (if s = [] \<or> \<not> list_all is_digit_char s \<or> 0xFFFFFF \<le> digits_val s then None
             else Some (digits_val s))"

lemma dtoi_code [code]:
  "dtoi s = (if s = [] \<or> \<not> list_all is_digit_char s \<or> (0xFFFFFF :: int) \<le> int (digits_val s) then None
             else Some (digits_val s))"
  by (auto simp add: dtoi_def)

definition ParseCIDR :: "ip6_text \<Rightarrow> string \<Rightarrow> (goip \<times> ipnet) option" where
  "ParseCIDR t s =
     (case SplitN2 CHR ''/'' s of
        [addr, m] \<Rightarrow>
          (case (parse_addr t addr, dtoi m) of
             (Some (Inl w), Some n) \<Rightarrow>
               if n \<le> 32
               then Some (IP4 w, \<lparr>net_ip = IP4 (w AND mask4 n), mask_ones = n, mask_bits = 32\<rparr>)
               else None
           | (Some (Inr w), Some n) \<Rightarrow>
               if n \<le> 128
               then Some (goip_of16 w,
                 \<lparr>net_ip = goip_of16 (w AND mask16 n), mask_ones = n, mask_bits = 128\<rparr>)
               else None
           | _ \<Rightarrow> None)
      | _ \<Rightarrow> None)"

text \<open>\<open>IPNet.Contains\<close>; a 16-byte mask over an IPv4 address is cut to its last four bytes.\<close>

definition net_mask4 :: "ipnet \<Rightarrow> 32 word" where
  "net_mask4 n = (if mask_bits n = 32 then mask4 (mask_ones n) else mask4 (mask_ones n - 96))"

definition net_contains :: "ipnet \<Rightarrow> goip \<Rightarrow> bool" where
  "net_contains n ip =
     (case (net_ip n, ip) of
        (IP4 a, IP4 b) \<Rightarrow> a AND net_mask4 n = b AND net_mask4 n
      | (IP6 a, IP6 b) \<Rightarrow> mask_bits n = 128 \<and> a AND mask16 (mask_ones n) = b AND mask16 (mask_ones n)
      | _ \<Rightarrow> False)"

definition net_string :: "ip6_text \<Rightarrow> ipnet \<Rightarrow> string" where
  "net_string t n =
     ip_string t (net_ip n) @ ''/'' @
     decimal (if mask_bits n = 128 \<and> To4 (net_ip n) \<noteq> None then mask_ones n - 96 else mask_ones n)"

text \<open>The well-formed IPv4 networks: what \<open>ParseCIDR\<close> returns on IPv4 text.\<close>

definition net4 :: "ipnet \<Rightarrow> bool" where
  "net4 n \<longleftrightarrow> mask_bits n = 32 \<and> mask_ones n \<le> 32 \<and>
     (\<exists>a. net_ip n = IP4 a \<and> a AND mask4 (mask_ones n) = a)"

lemma unat_and_mask4:
  assumes "n \<le> 32"
  shows "unat (w AND mask4 n) = unat w div 2 ^ (32 - n) * 2 ^ (32 - n)"
proof -
  have "w AND push_bit k (- 1) = push_bit k (drop_bit k w)" for k
    by (rule bit_word_eqI) (auto simp add: bit_simps)
  then have "unat (w AND mask4 n) = unat (push_bit (32 - n) (drop_bit (32 - n) w))"
    by (simp add: mask4_def)
  also have "\<dots> = (unat w div 2 ^ (32 - n) * 2 ^ (32 - n)) mod 2 ^ 32"
    unfolding unsigned_push_bit_eq unat_drop_bit by (simp add: push_bit_eq_mult take_bit_eq_mod)
  also have "\<dots> = unat w div 2 ^ (32 - n) * 2 ^ (32 - n)"
  proof (rule mod_less)
    have "unat w < 2 ^ 32" using unsigned_less [of w] by simp
    then show "unat w div 2 ^ (32 - n) * 2 ^ (32 - n) < 2 ^ 32"
      by (metis div_times_less_eq_dividend le_less_trans)
  qed
  finally show ?thesis .
qed

end
