(* ===== verification/Errors.thy ===== *)
theory Errors
  imports Main
begin

text \<open>
  The error values of the program. The sentinel errors of the packages are constructors with
  their source names (with the package in front where two packages use one name); errors of
  libraries are one constructor each; \<open>Wrapped\<close> is \<open>fmt.Errorf("...: %w", err)\<close> and
  \<open>errors_is\<close> is \<open>errors.Is\<close>, which looks through the wrapping.
\<close>

datatype goerr =
    PgUnique | PgError | ErrUUID | ErrParseKey | ErrWG | ErrBcrypt | ErrSign | ErrTokenInvalid
  | ErrRand | InvalidIP string | OutsideSubnet string | ErrCIDR | Panic string
  | Wrapped string goerr
  \<comment> \<open>internal/peer\<close>
  | ErrNoIPAvailable | ErrTooManyPeers | ErrPeerExists | ErrPeerRevoked | ErrNoActivePeer
  | PeerErrAccountInactive
  \<comment> \<open>internal/store\<close>
  | StoreErrStudentIDTaken | ErrInviteUnavailable | ErrBootstrapClosed
  \<comment> \<open>internal/auth\<close>
  | ErrInvalidCredentials | AuthErrStudentIDTaken | ErrInvalidInvite | ErrTokenExpired
  | AuthErrAccountInactive
  | ErrPasswordTooShort | ErrPasswordTooLong | ErrPasswordMissingLetter | ErrPasswordMissingDigit
  \<comment> \<open>internal/account\<close>
  | AccountErrUserNotFound | ErrInvalidPassword | ErrPasswordTooWeak | ErrPasswordReuse
  | ErrInvalidEmail | ErrInvalidPhone | ErrInvalidWechat | ErrInvalidTelegram
  | ErrDisplayNameTooLong
  \<comment> \<open>internal/admin\<close>
  | AdminErrUserNotFound | ErrPeerNotFound | ErrInviteNotFound | ErrNotAdmin | ErrInvalidStatus
  | ErrInvalidMaxPeers | ErrInvalidMaxUses | ErrInvalidExpiry | ErrInviteUsed
  \<comment> \<open>errors built in place with \<open>errors.New\<close> or \<open>fmt.Errorf\<close>\<close>
  | ErrorString string

fun errors_is :: "goerr \<Rightarrow> goerr \<Rightarrow> bool" where
  "errors_is (Wrapped m e) t = (Wrapped m e = t \<or> errors_is e t)"
| "errors_is e t = (e = t)"

lemma errors_is_refl [simp]: "errors_is e e"
  by (cases e) auto

end
