(* ===== verification/IPAM.thy ===== *)
theory IPAM
  imports NetIP Errors
begin

text \<open>
  \<open>internal/peer/ipam.go\<close>: the allocator of tunnel addresses. Its state is the subnet and the
  set of addresses in use (the Go map only ever holds \<open>true\<close>). The mutex makes each operation
  atomic, so each is one function of the state.
\<close>

section \<open>State and operations\<close>

record ipam =
  subnet :: ipnet
  used :: "string set"

definition NewIPAM :: "ip6_text \<Rightarrow> string \<Rightarrow> goerr + ipam" where
  "NewIPAM t subnetCIDR =
     (case ParseCIDR t subnetCIDR of
        None \<Rightarrow> Inl ErrCIDR
      | Some (_, ipNet) \<Rightarrow> Inr \<lparr>subnet = ipNet, used = {}\<rparr>)"

text \<open>The search loop of \<open>Allocate\<close>: \<open>for idx := 1; idx < totalHosts-1; idx++\<close>.\<close>

function alloc_loop :: "32 word \<Rightarrow> string set \<Rightarrow> nat \<Rightarrow> nat \<Rightarrow> string option" where
  "alloc_loop networkNum us totalHosts idx =
     (if idx < totalHosts - 1 then
        (let ip = ip4_string (networkNum + of_nat idx)
         in if ip \<notin> us then Some ip else alloc_loop networkNum us totalHosts (idx + 1))
      else None)"
  by pat_completeness auto
termination
  by (relation "measure (\<lambda>(n, us, totalHosts, idx). totalHosts - idx)") simp_all

declare alloc_loop.simps [simp del]

definition Allocate :: "(ipam, goerr, string) op" where
  "Allocate i =
     (let hostBits = 32 - int (mask_ones (subnet i))
      in case To4 (net_ip (subnet i)) of
           None \<Rightarrow> (Inl ErrNoIPAvailable, i)
         | Some networkNum \<Rightarrow>
             if hostBits < 0 then (Inl (Panic ''negative shift amount''), i)
             else (case alloc_loop networkNum (used i) (2 ^ nat hostBits) 1 of
                     Some ip \<Rightarrow> (Inr ip, i\<lparr>used := insert ip (used i)\<rparr>)
                   | None \<Rightarrow> (Inl ErrNoIPAvailable, i)))"

definition Release :: "string \<Rightarrow> (ipam, goerr, unit) op" where
  "Release ip = modify (\<lambda>i. i\<lparr>used := used i - {ip}\<rparr>)"

definition Reserve :: "ip6_text \<Rightarrow> string \<Rightarrow> (ipam, goerr, unit) op" where
  "Reserve t ip i =
     (case ParseIP t ip of
        None \<Rightarrow> (Inl (InvalidIP ip), i)
      | Some parsed \<Rightarrow>
          if \<not> net_contains (subnet i) parsed then (Inl (OutsideSubnet ip), i)
          else (Inr (), i\<lparr>used := insert (ip_string t parsed) (used i)\<rparr>))"

section \<open>The search loop\<close>

lemma alloc_loop_Some:
  "alloc_loop n us th idx = Some ip \<Longrightarrow>
   \<exists>k. idx \<le> k \<and> k < th - 1 \<and> ip = ip4_string (n + of_nat k) \<and> ip \<notin> us \<and>
       (\<forall>j. idx \<le> j \<longrightarrow> j < k \<longrightarrow> ip4_string (n + of_nat j) \<in> us)"
proof (induction n us th idx rule: alloc_loop.induct)
  case (1 n us th idx)
  let ?ip = "ip4_string (n + of_nat idx)"
  have step: "alloc_loop n us th idx =
      (if idx < th - 1 then (if ?ip \<notin> us then Some ?ip else alloc_loop n us th (idx + 1)) else None)"
    by (subst alloc_loop.simps) (simp add: Let_def)
  show ?case
  proof (cases "idx < th - 1 \<and> ?ip \<in> us")
    case True
    with "1.prems" step have "alloc_loop n us th (idx + 1) = Some ip" by simp
    with "1.IH" True obtain k where k: "idx + 1 \<le> k" "k < th - 1" "ip = ip4_string (n + of_nat k)"
        "ip \<notin> us" "\<forall>j. idx + 1 \<le> j \<longrightarrow> j < k \<longrightarrow> ip4_string (n + of_nat j) \<in> us"
      by blast
    have "ip4_string (n + of_nat j) \<in> us" if "idx \<le> j" "j < k" for j
      using that k(5) True by (cases "j = idx") auto
    with k show ?thesis by (intro exI [of _ k]) auto
  next
    case False
    with "1.prems" step show ?thesis by (intro exI [of _ idx]) (auto split: if_splits)
  qed
qed

lemma alloc_loop_None:
  "alloc_loop n us th idx = None \<Longrightarrow> idx \<le> k \<Longrightarrow> k < th - 1 \<Longrightarrow>
   ip4_string (n + of_nat k) \<in> us"
proof (induction n us th idx rule: alloc_loop.induct)
  case (1 n us th idx)
  let ?ip = "ip4_string (n + of_nat idx)"
  have lt: "idx < th - 1" using "1.prems" by simp
  with "1.prems"(1) have used: "?ip \<in> us" and rest: "alloc_loop n us th (idx + 1) = None"
    by (subst (asm) alloc_loop.simps, simp add: Let_def split: if_splits)+
  show ?case
  proof (cases "k = idx")
    case True
    with used show ?thesis by simp
  next
    case False
    with "1.prems"(2) have "idx + 1 \<le> k" by simp
    with "1.IH" [OF lt refl] used rest "1.prems"(3) show ?thesis by blast
  qed
qed

section \<open>The addresses of a network\<close>

text \<open>
  The addresses \<open>Allocate\<close> may hand out: every address of the network but the first (the
  network itself) and the last (broadcast).
\<close>

definition host_words :: "ipnet \<Rightarrow> 32 word set" where
  "host_words n =
     {w. \<exists>a. net_ip n = IP4 a \<and> w AND mask4 (mask_ones n) = a \<and> w \<noteq> a \<and>
          w \<noteq> a + of_nat (2 ^ (32 - mask_ones n) - 1)}"

definition host_ips :: "ipnet \<Rightarrow> string set" where
  "host_ips n = ip4_string ` host_words n"

lemma net4_aligned:
  assumes "net4 n" "net_ip n = IP4 a"
  shows "unat a = unat a div 2 ^ (32 - mask_ones n) * 2 ^ (32 - mask_ones n)"
  using assms unat_and_mask4 [of "mask_ones n" a] by (auto simp add: net4_def)

lemma aligned_add:
  fixes a :: "32 word"
  assumes al: "unat a = unat a div 2 ^ h * 2 ^ h" and h: "h \<le> 32" and k: "k < 2 ^ h"
  shows "unat (a + of_nat k) = unat a + k"
proof -
  have "unat a < 2 ^ 32" using unsigned_less [of a] by simp
  then have "unat a div 2 ^ h < 2 ^ (32 - h)"
    using h by (simp add: div_less_iff_less_mult flip: power_add)
  then have "(unat a div 2 ^ h + 1) * 2 ^ h \<le> 2 ^ (32 - h) * 2 ^ h"
    by (intro mult_right_mono) auto
  then have "unat a + 2 ^ h \<le> 2 ^ 32"
    using al h by (simp add: add_mult_distrib flip: power_add)
  with k have lt: "unat a + k < 2 ^ 32" by simp
  then have "unat (of_nat k :: 32 word) = k"
    by (simp add: unat_of_nat take_bit_eq_mod)
  with lt show ?thesis by (simp add: unat_word_ariths)
qed

lemma net4_member_offset:
  assumes n: "net4 n" "net_ip n = IP4 a" and h: "h = 32 - mask_ones n"
  shows "w AND mask4 (mask_ones n) = a \<longleftrightarrow> (\<exists>k < 2 ^ h. w = a + of_nat k)"
proof
  have ones: "mask_ones n \<le> 32" using n by (simp add: net4_def)
  have al: "unat a = unat a div 2 ^ h * 2 ^ h" using net4_aligned [OF n] h by simp
  {
    assume "w AND mask4 (mask_ones n) = a"
    then have ua: "unat a = unat w div 2 ^ h * 2 ^ h"
      using unat_and_mask4 [OF ones, of w] h by simp
    define k where "k = unat w mod 2 ^ h"
    have k: "k < 2 ^ h" by (simp add: k_def)
    have "unat w = unat a + k" by (metis k_def ua div_mult_mod_eq)
    also have "\<dots> = unat (a + of_nat k)"
      using aligned_add [OF al _ k] h by simp
    finally show "\<exists>k < 2 ^ h. w = a + of_nat k" using k by (metis word_unat_eq_iff)
  next
    assume "\<exists>k < 2 ^ h. w = a + of_nat k"
    then obtain k where k: "k < 2 ^ h" "w = a + of_nat k" by blast
    have "unat w = unat a + k" using aligned_add [OF al _ k(1)] h k(2) by simp
    moreover have "(k + unat a div 2 ^ h * 2 ^ h) div 2 ^ h = unat a div 2 ^ h + k div 2 ^ h"
      by (rule div_mult_self1) simp
    ultimately have "unat w div 2 ^ h = unat a div 2 ^ h"
      using al k(1) by (metis add.commute add.right_neutral div_less)
    with al have "unat w div 2 ^ h * 2 ^ h = unat a" by simp
    then have "unat (w AND mask4 (mask_ones n)) = unat a"
      using unat_and_mask4 [OF ones, of w] h by simp
    then show "w AND mask4 (mask_ones n) = a" by (simp add: word_unat_eq_iff)
  }
qed

lemma host_words_offset:
  assumes n: "net4 n" "net_ip n = IP4 a" and h: "h = 32 - mask_ones n"
  shows "w \<in> host_words n \<longleftrightarrow> (\<exists>k. 1 \<le> k \<and> k < 2 ^ h - 1 \<and> w = a + of_nat k)"
proof -
  have al: "unat a = unat a div 2 ^ h * 2 ^ h" using net4_aligned [OF n] h by simp
  have inj: "a + of_nat j = a + of_nat k \<longleftrightarrow> j = k" if "j < 2 ^ h" "k < 2 ^ h" for j k
    using aligned_add [OF al _ that(1)] aligned_add [OF al _ that(2)] h
    by (metis add_left_cancel diff_le_self)
  have "w \<in> host_words n \<longleftrightarrow> (\<exists>k < 2 ^ h. w = a + of_nat k) \<and> w \<noteq> a \<and> w \<noteq> a + of_nat (2 ^ h - 1)"
    using net4_member_offset [OF n h, of w] n h by (simp add: host_words_def)
  also have "\<dots> \<longleftrightarrow> (\<exists>k. 1 \<le> k \<and> k < 2 ^ h - 1 \<and> w = a + of_nat k)"
  proof
    assume "(\<exists>k < 2 ^ h. w = a + of_nat k) \<and> w \<noteq> a \<and> w \<noteq> a + of_nat (2 ^ h - 1)"
    then obtain k where k: "k < 2 ^ h" "w = a + of_nat k" "w \<noteq> a" "w \<noteq> a + of_nat (2 ^ h - 1)" by blast
    have "k \<noteq> 0" using k(2,3) by (cases "k = 0") auto
    moreover have "k \<noteq> 2 ^ h - 1" using k(2,4) by metis
    ultimately show "\<exists>k. 1 \<le> k \<and> k < 2 ^ h - 1 \<and> w = a + of_nat k"
      using k(1,2) by (intro exI [of _ k]) auto
  next
    assume "\<exists>k. 1 \<le> k \<and> k < 2 ^ h - 1 \<and> w = a + of_nat k"
    then obtain k where k: "1 \<le> k" "k < 2 ^ h - 1" "w = a + of_nat k" by blast
    have lt: "k < 2 ^ h" "2 ^ h - 1 < (2 ^ h :: nat)" "(0::nat) < 2 ^ h" using k(2) by auto
    have "w \<noteq> a" using inj [OF lt(1) lt(3)] k by simp
    moreover have "w \<noteq> a + of_nat (2 ^ h - 1)" using inj [OF lt(1) lt(2)] k by simp
    ultimately show "(\<exists>k < 2 ^ h. w = a + of_nat k) \<and> w \<noteq> a \<and> w \<noteq> a + of_nat (2 ^ h - 1)"
      using k(3) lt(1) by blast
  qed
  finally show ?thesis .
qed

section \<open>What the operations promise\<close>

lemma Allocate_net4:
  assumes n: "net4 (subnet i)" "net_ip (subnet i) = IP4 a"
  shows "Allocate i =
     (case alloc_loop a (used i) (2 ^ (32 - mask_ones (subnet i))) 1 of
        Some ip \<Rightarrow> (Inr ip, i\<lparr>used := insert ip (used i)\<rparr>)
      | None \<Rightarrow> (Inl ErrNoIPAvailable, i))"
proof -
  have "nat (32 - int (mask_ones (subnet i))) = 32 - mask_ones (subnet i)"
    using n by (simp add: net4_def nat_diff_distrib')
  moreover have "\<not> 32 - int (mask_ones (subnet i)) < 0" using n by (simp add: net4_def)
  ultimately show ?thesis using n(2) by (simp add: Allocate_def Let_def To4_def)
qed

lemma Allocate_Inr:
  assumes n: "net4 (subnet i)" and al: "Allocate i = (Inr ip, i')"
  shows "ip \<in> host_ips (subnet i)" "ip \<notin> used i" "i' = i\<lparr>used := insert ip (used i)\<rparr>"
proof -
  obtain a where a: "net_ip (subnet i) = IP4 a" using n by (auto simp add: net4_def)
  let ?h = "32 - mask_ones (subnet i)"
  from al Allocate_net4 [OF n a] have lp: "alloc_loop a (used i) (2 ^ ?h) 1 = Some ip"
    and i': "i' = i\<lparr>used := insert ip (used i)\<rparr>"
    by (auto split: option.splits)
  from alloc_loop_Some [OF lp] obtain k where k: "1 \<le> k" "k < 2 ^ ?h - 1"
      "ip = ip4_string (a + of_nat k)" and nu: "ip \<notin> used i" by blast
  then have "a + of_nat k \<in> host_words (subnet i)"
    using host_words_offset [OF n a refl, of "a + of_nat k"] by blast
  with k(3) show "ip \<in> host_ips (subnet i)" by (auto simp add: host_ips_def)
  from nu show "ip \<notin> used i" .
  from i' show "i' = i\<lparr>used := insert ip (used i)\<rparr>" .
qed

lemma Allocate_Inl: "Allocate i = (Inl e, i') \<Longrightarrow> i' = i"
  by (auto simp add: Allocate_def Let_def split: option.splits if_splits)

lemma Allocate_subnet [simp]: "subnet (snd (Allocate i)) = subnet i"
  by (auto simp add: Allocate_def Let_def split: option.splits)

lemma Allocate_exhausted:
  assumes n: "net4 (subnet i)"
  shows "fst (Allocate i) = Inl ErrNoIPAvailable \<longleftrightarrow> host_ips (subnet i) \<subseteq> used i"
proof -
  obtain a where a: "net_ip (subnet i) = IP4 a" using n by (auto simp add: net4_def)
  let ?h = "32 - mask_ones (subnet i)"
  have hosts: "ip \<in> host_ips (subnet i) \<longleftrightarrow>
      (\<exists>k. 1 \<le> k \<and> k < 2 ^ ?h - 1 \<and> ip = ip4_string (a + of_nat k))" for ip
    using host_words_offset [OF n a refl] by (auto simp add: host_ips_def)
  show ?thesis
  proof (cases "alloc_loop a (used i) (2 ^ ?h) 1")
    case None
    have "host_ips (subnet i) \<subseteq> used i"
    proof
      fix ip
      assume "ip \<in> host_ips (subnet i)"
      from hosts [THEN iffD1, OF this] obtain k where k: "1 \<le> k" "k < 2 ^ ?h - 1"
        "ip = ip4_string (a + of_nat k)" by (elim exE conjE)
      with alloc_loop_None [OF None k(1,2)] show "ip \<in> used i" by (simp only: k(3))
    qed
    with None Allocate_net4 [OF n a] show ?thesis by simp
  next
    case (Some ip)
    from alloc_loop_Some [OF this] obtain k where k: "1 \<le> k" "k < 2 ^ ?h - 1"
        "ip = ip4_string (a + of_nat k)" and nu: "ip \<notin> used i" by (elim exE conjE)
    from k have "ip \<in> host_ips (subnet i)" by (intro hosts [THEN iffD2] exI [of _ k] conjI)
    with nu have "\<not> host_ips (subnet i) \<subseteq> used i" by (auto simp only: subset_iff)
    moreover have "fst (Allocate i) = Inr ip" using Some Allocate_net4 [OF n a] by simp
    ultimately show ?thesis by (simp only: sum.simps)
  qed
qed

lemma Allocate_result:
  "net4 (subnet i) \<Longrightarrow> fst (Allocate i) = Inl e \<Longrightarrow> e = ErrNoIPAvailable"
  by (auto simp add: net4_def Allocate_net4 [of _ "THE a. net_ip (subnet i) = IP4 a"] split: option.splits)

lemma Reserve_Inr:
  "Reserve t ip i = (Inr (), i') \<Longrightarrow>
   \<exists>p. ParseIP t ip = Some p \<and> net_contains (subnet i) p \<and>
       i' = i\<lparr>used := insert (ip_string t p) (used i)\<rparr>"
  by (auto simp add: Reserve_def split: option.splits if_splits)

lemma Reserve_Inl: "Reserve t ip i = (Inl e, i') \<Longrightarrow> i' = i"
  by (auto simp add: Reserve_def split: option.splits if_splits)

lemma Reserve_subnet [simp]: "subnet (snd (Reserve t ip i)) = subnet i"
  by (auto simp add: Reserve_def split: option.splits)

lemma Reserve_used_mono: "used i \<subseteq> used (snd (Reserve t ip i))"
  by (auto simp add: Reserve_def split: option.splits)

lemma Release_eq: "Release ip i = (Inr (), i\<lparr>used := used i - {ip}\<rparr>)"
  by (simp add: Release_def modify_def)

lemma host_in_net:
  "net4 n \<Longrightarrow> ip \<in> host_ips n \<Longrightarrow> \<exists>w. ip = ip4_string w \<and> net_contains n (IP4 w)"
  by (auto simp add: host_ips_def host_words_def net4_def net_contains_def net_mask4_def)

text \<open>An address \<open>Allocate\<close> handed out can always be reserved again, under the same string.\<close>

lemma Reserve_host:
  assumes "net4 (subnet i)" "ip \<in> host_ips (subnet i)"
  shows "Reserve t ip i = (Inr (), i\<lparr>used := insert ip (used i)\<rparr>)"
  using host_in_net [OF assms] by (auto simp add: Reserve_def ip_string_def)

lemma finite_host_words: "finite (host_words n)"
  by (rule finite)

end
