(* ===== verification/Model.thy ===== *)
theory Model
  imports GoStrings
begin

text \<open>
  The data of \<open>internal/model\<close>: users, peers and invite codes with the source's fields, and the
  derived predicates on them. Times are nanoseconds on an integer time line.
\<close>

type_synonym uuid = "128 word"
type_synonym time = int

section \<open>User\<close>

record user =
  u_id :: uuid
  u_student_id :: string
  u_password :: string
  u_role :: string
  u_invite_id :: uuid
  u_display_name :: "string option"
  u_email :: "string option"
  u_phone :: "string option"
  u_wechat :: "string option"
  u_telegram :: "string option"
  u_max_peers :: int
  u_status :: string
  u_created_at :: time
  u_updated_at :: time

definition IsActive :: "user \<Rightarrow> bool" where
  "IsActive u \<longleftrightarrow> u_status u = ''active''"

definition IsAdmin :: "user \<Rightarrow> bool" where
  "IsAdmin u \<longleftrightarrow> u_role u = ''admin''"

definition ValidRoles :: "string set" where
  "ValidRoles = {''user'', ''admin''}"

definition ValidStatuses :: "string set" where
  "ValidStatuses = {''active'', ''suspended'', ''deleted''}"

section \<open>Peer\<close>

record peer =
  p_id :: uuid
  p_user_id :: uuid
  p_public_key :: string
  p_assigned_ip :: string
  p_status :: string
  p_last_seen :: "time option"
  p_created_at :: time
  p_updated_at :: time

definition ValidPeerStatuses :: "string set" where
  "ValidPeerStatuses = {''active'', ''disconnected'', ''revoked''}"

section \<open>Invite code\<close>

record invite =
  i_id :: uuid
  i_code :: string
  i_created_by :: uuid
  i_used_by :: "uuid option"
  i_max_uses :: int
  i_use_count :: int
  i_expires_at :: "time option"
  i_created_at :: time

text \<open>\<open>t.After(u)\<close> is \<open>u < t\<close>; the current time \<open>time.Now()\<close> is an argument.\<close>

definition IsAvailable :: "invite \<Rightarrow> time \<Rightarrow> bool" where
  "IsAvailable i now =
     (if i_use_count i \<ge> i_max_uses i then False
      else case i_expires_at i of
             None \<Rightarrow> True
           | Some t \<Rightarrow> if now > t then False else True)"

definition invite_State :: "invite \<Rightarrow> time \<Rightarrow> string" where
  "invite_State i now =
     (if i_use_count i \<ge> i_max_uses i then ''used_up''
      else case i_expires_at i of
             None \<Rightarrow> ''available''
           | Some t \<Rightarrow> if now > t then ''expired'' else ''available'')"

lemma invite_State_available: "invite_State i now = ''available'' \<longleftrightarrow> IsAvailable i now"
  by (auto simp add: invite_State_def IsAvailable_def split: option.splits)

lemma invite_State_cases:
  "invite_State i now \<in> {''available'', ''used_up'', ''expired''}"
  by (auto simp add: invite_State_def split: option.splits)

end
