(* ===== verification/RateLimit.thy ===== *)
theory RateLimit
  imports Model
begin

text \<open>
  \<open>internal/api/ratelimit.go\<close>: buckets of time stamps, one per key, and the decision whether a
  request may pass. The two mutexes make \<open>getOrCreate\<close> and \<open>allow\<close> atomic.
\<close>

section \<open>Buckets\<close>

record rateLimitBucket =
  rb_timestamps :: "time list"
  rb_limit :: int
  rb_window :: int

text \<open>The loop keeps the time stamps after the cutoff, in place.\<close>

definition bucket_allow :: "time \<Rightarrow> rateLimitBucket \<Rightarrow> bool \<times> rateLimitBucket" where
  "bucket_allow now b =
     (let cutoff = now - rb_window b;
          valid = filter (\<lambda>ts. ts > cutoff) (rb_timestamps b)
      in if int (length valid) \<ge> rb_limit b then (False, b\<lparr>rb_timestamps := valid\<rparr>)
         else (True, b\<lparr>rb_timestamps := valid @ [now]\<rparr>))"

type_synonym rateLimiter = "string \<rightharpoonup> rateLimitBucket"

definition getOrCreate :: "string \<Rightarrow> int \<Rightarrow> int \<Rightarrow> rateLimiter \<Rightarrow> rateLimitBucket \<times> rateLimiter" where
  "getOrCreate key lim window rl =
     (case rl key of
        Some b \<Rightarrow> (b, rl)
      | None \<Rightarrow>
          let b = \<lparr>rb_timestamps = [], rb_limit = lim, rb_window = window\<rparr> in (b, rl(key \<mapsto> b)))"

definition limiter_allow :: "string \<Rightarrow> int \<Rightarrow> int \<Rightarrow> time \<Rightarrow> rateLimiter \<Rightarrow> bool \<times> rateLimiter" where
  "limiter_allow key lim window now rl =
     (case getOrCreate key lim window rl of (b, rl') \<Rightarrow>
        case bucket_allow now b of (passed, b') \<Rightarrow> (passed, rl'(key \<mapsto> b')))"

section \<open>A bucket never forgets too much\<close>

text \<open>
  A run of a bucket over the times of its calls, and the same run on a bucket that keeps every
  accepted time stamp: the reference a sliding window is measured against.
\<close>

fun bucket_run :: "time list \<Rightarrow> rateLimitBucket \<Rightarrow> bool list" where
  "bucket_run [] b = []"
| "bucket_run (now # ts) b = (case bucket_allow now b of (r, b') \<Rightarrow> r # bucket_run ts b')"

fun window_run :: "int \<Rightarrow> int \<Rightarrow> time list \<Rightarrow> time list \<Rightarrow> bool list" where
  "window_run lim window hist [] = []"
| "window_run lim window hist (now # ts) =
     (if int (length (filter (\<lambda>s. s > now - window) hist)) < lim
      then True # window_run lim window (hist @ [now]) ts
      else False # window_run lim window hist ts)"

lemma bucket_run_window:
  assumes "sorted (t # ts)"
    and "filter (\<lambda>s. s > t - rb_window b) (rb_timestamps b) = filter (\<lambda>s. s > t - rb_window b) hist"
  shows "bucket_run (t # ts) b = window_run (rb_limit b) (rb_window b) hist (t # ts)"
  using assms
proof (induction ts arbitrary: t b hist)
  case Nil
  then show ?case by (auto simp add: bucket_allow_def Let_def)
next
  case (Cons u ts)
  let ?w = "rb_window b"
  let ?valid = "filter (\<lambda>s. s > t - ?w) (rb_timestamps b)"
  have tu: "t \<le> u" using Cons.prems(1) by simp
  have later: "filter (\<lambda>s. s > u - ?w) (filter (\<lambda>s. s > t - ?w) xs) = filter (\<lambda>s. s > u - ?w) xs" for xs
    using tu by (auto intro: filter_cong)
  have keep: "filter (\<lambda>s. s > u - ?w) ?valid = filter (\<lambda>s. s > u - ?w) hist"
    using Cons.prems(2) later by metis
  note head = bucket_run.simps(2) [of t "u # ts" b] window_run.simps(2) [of "rb_limit b" ?w hist t "u # ts"]
  show ?case
  proof (cases "int (length ?valid) \<ge> rb_limit b")
    case True
    with Cons.IH [of u "b\<lparr>rb_timestamps := ?valid\<rparr>" hist] Cons.prems keep
    show ?thesis unfolding head by (simp add: bucket_allow_def del: bucket_run.simps window_run.simps)
  next
    case False
    have "filter (\<lambda>s. s > u - ?w) (?valid @ [t]) = filter (\<lambda>s. s > u - ?w) (hist @ [t])"
      using keep by simp
    with Cons.IH [of u "b\<lparr>rb_timestamps := ?valid @ [t]\<rparr>" "hist @ [t]"] Cons.prems False
    show ?thesis unfolding head by (simp add: bucket_allow_def del: bucket_run.simps window_run.simps)
  qed
qed

text \<open>The times of the calls that passed.\<close>

definition passed :: "time list \<Rightarrow> bool list \<Rightarrow> time list" where
  "passed ts rs = map fst (filter snd (zip ts rs))"

lemma passed_simps [simp]:
  "passed [] rs = []" "passed (t # ts) (True # rs) = t # passed ts rs"
  "passed (t # ts) (False # rs) = passed ts rs"
  by (simp_all add: passed_def)

lemma set_passed: "set (passed ts rs) \<subseteq> set ts"
  by (auto simp add: passed_def dest: set_zip_leftD)

lemma window_run_bound:
  assumes "sorted ts" and lim: "0 \<le> lim"
    and "\<And>t. int (length (filter (\<lambda>s. t - window < s \<and> s \<le> t) hist)) \<le> lim"
    and "\<forall>s \<in> set hist. \<forall>t \<in> set ts. s \<le> t"
  shows "int (length (filter (\<lambda>s. t - window < s \<and> s \<le> t) (hist @ passed ts (window_run lim window hist ts)))) \<le> lim"
  using assms(1,3,4)
proof (induction ts arbitrary: hist)
  case Nil
  then show ?case by simp
next
  case (Cons now ts)
  show ?case
  proof (cases "int (length (filter (\<lambda>s. s > now - window) hist)) < lim")
    case True
    have "int (length (filter (\<lambda>s. t - window < s \<and> s \<le> t) (hist @ [now]))) \<le> lim" for t
    proof (cases "t - window < now \<and> now \<le> t")
      case in_window: True
      have "length (filter (\<lambda>s. t - window < s \<and> s \<le> t) hist) \<le> length (filter (\<lambda>s. s > now - window) hist)"
      proof -
        have "filter (\<lambda>s. t - window < s \<and> s \<le> t) (filter (\<lambda>s. s > now - window) hist) =
            filter (\<lambda>s. t - window < s \<and> s \<le> t) hist"
          using in_window by (auto intro: filter_cong)
        then show ?thesis by (metis length_filter_le)
      qed
      with in_window \<open>int (length (filter (\<lambda>s. s > now - window) hist)) < lim\<close> show ?thesis by simp
    next
      case False
      with Cons.prems(2) [of t] show ?thesis by auto
    qed
    moreover have "\<forall>s \<in> set (hist @ [now]). \<forall>t \<in> set ts. s \<le> t" using Cons.prems by auto
    ultimately have "int (length (filter (\<lambda>s. t - window < s \<and> s \<le> t)
        ((hist @ [now]) @ passed ts (window_run lim window (hist @ [now]) ts)))) \<le> lim"
      using Cons.prems(1) by (intro Cons.IH) auto
    with True show ?thesis by simp
  next
    case False
    with Cons show ?thesis by auto
  qed
qed

text \<open>
  C34: on calls in the order of time a bucket decides exactly as one that remembered every accepted
  call: a call passes if and only if fewer than the limit passed within the window before it. So
  in no window of that length do more calls pass than the limit.
\<close>

theorem bucket_sliding_window:
  assumes "sorted ts" and "rb_timestamps b = []" and "0 \<le> rb_limit b"
  shows "bucket_run ts b = window_run (rb_limit b) (rb_window b) [] ts \<and>
     (\<forall>t. int (length (filter (\<lambda>s. t - rb_window b < s \<and> s \<le> t) (passed ts (bucket_run ts b)))) \<le> rb_limit b)"
proof -
  have "bucket_run ts b = window_run (rb_limit b) (rb_window b) [] ts"
    using assms bucket_run_window [of _ _ b "[]"] by (cases ts) auto
  moreover have "int (length (filter (\<lambda>s. t - rb_window b < s \<and> s \<le> t)
      ([] @ passed ts (window_run (rb_limit b) (rb_window b) [] ts)))) \<le> rb_limit b" for t
    by (rule window_run_bound) (simp_all add: assms)
  ultimately show ?thesis by simp
qed

theorem bucket_sliding_window_witness:
  "bucket_run [0, 1, 2, 60, 61] \<lparr>rb_timestamps = [], rb_limit = 2, rb_window = 60\<rparr> = [True, True, False, True, True] \<and>
   (\<forall>t. int (length (filter (\<lambda>s. t - 60 < s \<and> s \<le> t) [0, 1, 60, 61 :: int])) \<le> 2)"
proof -
  let ?b = "\<lparr>rb_timestamps = [], rb_limit = 2, rb_window = 60\<rparr>"
  have run: "bucket_run [0, 1, 2, 60, 61] ?b = [True, True, False, True, True]"
    by (simp add: bucket_allow_def)
  have sort: "sorted [0, 1, 2, 60, 61 :: int]" by simp
  from bucket_sliding_window [of "[0, 1, 2, 60, 61]" ?b] sort run show ?thesis by simp
qed

end
