(* ===== verification/World.thy ===== *)
theory World
  imports IPAM RateLimit
begin

text \<open>
  The state of the server and the libraries it calls.

  \<open>libs\<close> holds the functions of third-party packages (google/uuid, wgctrl, bcrypt, jwt) and of
  the standard library's IPv6 and Unicode tables; they are parameters, and what the code relies
  on is stated by the predicates below as documented behaviour.

  \<open>world\<close> is everything an operation reads or writes: the three tables of the database
  (\<open>migrations/001_init.sql\<close>), the address allocator, the WireGuard device, the server key, the
  clock and the source of random identifiers. Calls that leave the process (a query, a device
  request) may fail: the schedule \<open>sched\<close> fixes the outcome of the n-th such call and \<open>elapsed\<close>
  the time it takes, and every theorem holds for all schedules unless it says otherwise.
\<close>

section \<open>WireGuard\<close>

type_synonym wgkey = "256 word"

record wg_peer =
  wp_key :: wgkey
  wp_ips :: "(goip \<times> nat) list"
  wp_handshake :: "time option"  \<comment> \<open>\<open>None\<close> is the zero time\<close>

record wg_device =
  dev_key :: wgkey
  dev_port :: int
  dev_peers :: "wg_peer list"

record peer_config =
  pc_key :: wgkey
  pc_remove :: bool
  pc_replace_ips :: bool
  pc_ips :: "(goip option \<times> nat) list"  \<comment> \<open>\<open>None\<close> is the nil \<open>net.IP\<close>\<close>

record wg_config =
  cfg_private_key :: "wgkey option"
  cfg_listen_port :: "int option"
  cfg_replace_peers :: bool
  cfg_peers :: "peer_config list"

section \<open>Tokens\<close>

record claims =
  cl_subject :: string
  cl_issued_at :: time
  cl_expires_at :: time
  cl_student_id :: string
  cl_role :: string

datatype jwt_result = JwtOk claims | JwtExpired | JwtInvalid

section \<open>Libraries\<close>

record libs =
  uuid_parse :: "string \<Rightarrow> uuid option"
  uuid_string :: "uuid \<Rightarrow> string"
  ParseKey :: "string \<Rightarrow> wgkey option"
  key_string :: "wgkey \<Rightarrow> string"
  PublicKey :: "wgkey \<Rightarrow> wgkey"
  wg_apply :: "wg_config \<Rightarrow> wg_device \<Rightarrow> wg_device"
  bcrypt_hash :: "uuid \<Rightarrow> string \<Rightarrow> string option"  \<comment> \<open>the first argument is the random salt\<close>
  bcrypt_check :: "string \<Rightarrow> string \<Rightarrow> bool"
  jwt_sign :: "string \<Rightarrow> claims \<Rightarrow> string option"
  jwt_parse :: "string \<Rightarrow> time \<Rightarrow> string \<Rightarrow> jwt_result"
  ip6 :: ip6_text
  uni :: unicode
  collate_le :: "string \<Rightarrow> string \<Rightarrow> bool"  \<comment> \<open>the collation of the database\<close>
  inet_le :: "string \<Rightarrow> string \<Rightarrow> bool"  \<comment> \<open>its order on \<open>INET\<close> values\<close>
  map_order :: "nat \<Rightarrow> string list \<Rightarrow> string list"
    \<comment> \<open>the order in which \<open>range\<close> visits the keys of a map, another one at every moment\<close>

text \<open>Documented behaviour of google/uuid: \<open>Parse\<close> inverts \<open>String\<close>.\<close>

definition uuid_lib :: "libs \<Rightarrow> bool" where
  "uuid_lib L \<longleftrightarrow> (\<forall>u. uuid_parse L (uuid_string L u) = Some u)"

text \<open>Documented behaviour of wgtypes: \<open>ParseKey\<close> inverts \<open>Key.String\<close> (base64).\<close>

definition key_lib :: "libs \<Rightarrow> bool" where
  "key_lib L \<longleftrightarrow> (\<forall>k. ParseKey L (key_string L k) = Some k)"

text \<open>
  Documented behaviour of \<open>wgctrl.ConfigureDevice\<close> on the set of peers of the device: the peers
  of the configuration are processed in order, after all peers were dropped if \<open>ReplacePeers\<close>
  is set; a peer with \<open>Remove\<close> set is removed, any other one is present afterwards. A device
  has one entry per key.
\<close>

definition dev_keys :: "wg_device \<Rightarrow> wgkey set" where
  "dev_keys d = wp_key ` set (dev_peers d)"

fun apply_key :: "peer_config \<Rightarrow> wgkey set \<Rightarrow> wgkey set" where
  "apply_key c ks = (if pc_remove c then ks - {pc_key c} else insert (pc_key c) ks)"

definition cfg_keys :: "wg_config \<Rightarrow> wgkey set \<Rightarrow> wgkey set" where
  "cfg_keys c ks = fold apply_key (cfg_peers c) (if cfg_replace_peers c then {} else ks)"

definition wg_lib :: "libs \<Rightarrow> bool" where
  "wg_lib L \<longleftrightarrow>
     (\<forall>c d. dev_keys (wg_apply L c d) = cfg_keys c (dev_keys d) \<and>
            dev_key (wg_apply L c d) = (case cfg_private_key c of Some k \<Rightarrow> k | None \<Rightarrow> dev_key d) \<and>
            dev_port (wg_apply L c d) = (case cfg_listen_port c of Some p \<Rightarrow> p | None \<Rightarrow> dev_port d))"

text \<open>A \<open>range\<close> over a map visits every key once, in an unspecified order.\<close>

definition map_order_lib :: "libs \<Rightarrow> bool" where
  "map_order_lib L \<longleftrightarrow>
     (\<forall>n ks. distinct ks \<longrightarrow> set (map_order L n ks) = set ks \<and> distinct (map_order L n ks))"

section \<open>The world\<close>

datatype outcome = Done | Failed | Cut nat

record world =
  users :: "user list"
  invites :: "invite list"
  peers :: "peer list"
  pool :: ipam
  device :: wg_device
  server_key :: wgkey
  listen_port :: int
  endpoint :: string
  clock :: time
  sched :: "nat \<Rightarrow> outcome"
  elapsed :: "nat \<Rightarrow> nat"
  ncalls :: nat
  rnd :: "nat \<Rightarrow> uuid"
  nrnd :: nat
  limits :: rateLimiter

type_synonym 'a wop = "(world, goerr, 'a) op"

text \<open>One call out of the process: it takes its time and its turn in the schedule.\<close>

definition tick :: "world \<Rightarrow> world" where
  "tick w = w\<lparr>ncalls := ncalls w + 1, clock := clock w + int (elapsed w (ncalls w))\<rparr>"

definition next_outcome :: "world \<Rightarrow> outcome" where
  "next_outcome w = sched w (ncalls w)"

text \<open>
  \<open>ext_call e m\<close> performs \<open>m\<close> on the other side, or fails with \<open>e\<close> and changes nothing there.
  \<open>ext_rows e q k\<close> is a query for several rows: \<open>rows.Next()\<close> also stops when the connection
  breaks while rows are read, and the stores do not ask \<open>rows.Err()\<close>, so with outcome \<open>Cut n\<close>
  the caller goes on with the first \<open>n\<close> rows.
\<close>

definition ext_call :: "goerr \<Rightarrow> 'a wop \<Rightarrow> 'a wop" where
  "ext_call e m = (\<lambda>w. if next_outcome w = Failed then (Inl e, tick w) else m (tick w))"

definition cut_rows :: "outcome \<Rightarrow> 'r list \<Rightarrow> 'r list" where
  "cut_rows oc xs = (case oc of Cut n \<Rightarrow> take n xs | _ \<Rightarrow> xs)"

definition ext_rows :: "goerr \<Rightarrow> (world \<Rightarrow> 'r list) \<Rightarrow> 'r list wop" where
  "ext_rows e q =
     (\<lambda>w. if next_outcome w = Failed then (Inl e, tick w)
          else (Inr (cut_rows (next_outcome w) (q (tick w))), tick w))"

text \<open>\<open>time.Now()\<close>, and \<open>uuid.New()\<close> or \<open>gen_random_uuid()\<close>.\<close>

definition time_now :: "time wop" where
  "time_now = gets clock"

definition fresh_uuid :: "uuid wop" where
  "fresh_uuid = (\<lambda>w. (Inr (rnd w (nrnd w)), w\<lparr>nrnd := nrnd w + 1\<rparr>))"

text \<open>An operation of the address allocator, under its mutex.\<close>

definition on_pool :: "(ipam, goerr, 'a) op \<Rightarrow> 'a wop" where
  "on_pool m = (\<lambda>w. case m (pool w) of (r, i) \<Rightarrow> (r, w\<lparr>pool := i\<rparr>))"

section \<open>Rules\<close>

lemma tick_simps [simp]:
  "users (tick w) = users w" "invites (tick w) = invites w" "peers (tick w) = peers w"
  "pool (tick w) = pool w" "device (tick w) = device w" "server_key (tick w) = server_key w"
  "listen_port (tick w) = listen_port w" "endpoint (tick w) = endpoint w"
  "sched (tick w) = sched w" "elapsed (tick w) = elapsed w" "ncalls (tick w) = ncalls w + 1"
  "rnd (tick w) = rnd w" "nrnd (tick w) = nrnd w" "limits (tick w) = limits w"
  by (simp_all add: tick_def)

lemma clock_tick: "clock w \<le> clock (tick w)"
  by (simp add: tick_def)

lemma tick_updates [simp]:
  "tick (w\<lparr>users := us\<rparr>) = (tick w)\<lparr>users := us\<rparr>"
  "tick (w\<lparr>invites := is\<rparr>) = (tick w)\<lparr>invites := is\<rparr>"
  "tick (w\<lparr>peers := ps\<rparr>) = (tick w)\<lparr>peers := ps\<rparr>"
  "tick (w\<lparr>pool := i\<rparr>) = (tick w)\<lparr>pool := i\<rparr>"
  "tick (w\<lparr>device := d\<rparr>) = (tick w)\<lparr>device := d\<rparr>"
  "tick (w\<lparr>server_key := k\<rparr>) = (tick w)\<lparr>server_key := k\<rparr>"
  "tick (w\<lparr>nrnd := n\<rparr>) = (tick w)\<lparr>nrnd := n\<rparr>"
  "tick (w\<lparr>limits := l\<rparr>) = (tick w)\<lparr>limits := l\<rparr>"
  by (simp_all add: tick_def)

lemma tick_same [simp]:
  "(tick w)\<lparr>users := users w\<rparr> = tick w" "(tick w)\<lparr>invites := invites w\<rparr> = tick w"
  "(tick w)\<lparr>peers := peers w\<rparr> = tick w" "(tick w)\<lparr>pool := pool w\<rparr> = tick w"
  "(tick w)\<lparr>device := device w\<rparr> = tick w"
  by (cases w, simp add: tick_def)+

lemma next_outcome_updates [simp]:
  "next_outcome (w\<lparr>users := us\<rparr>) = next_outcome w"
  "next_outcome (w\<lparr>invites := is\<rparr>) = next_outcome w"
  "next_outcome (w\<lparr>peers := ps\<rparr>) = next_outcome w"
  "next_outcome (w\<lparr>pool := i\<rparr>) = next_outcome w"
  "next_outcome (w\<lparr>device := d\<rparr>) = next_outcome w"
  "next_outcome (w\<lparr>server_key := k\<rparr>) = next_outcome w"
  "next_outcome (w\<lparr>nrnd := n\<rparr>) = next_outcome w"
  "next_outcome (w\<lparr>limits := l\<rparr>) = next_outcome w"
  by (simp_all add: next_outcome_def)

lemma wp_ext_call [wp_rules]:
  "wp (ext_call e m) Q w =
     ((next_outcome w = Failed \<longrightarrow> Q (Inl e) (tick w)) \<and>
      (next_outcome w \<noteq> Failed \<longrightarrow> wp m Q (tick w)))"
  by (simp add: wp_def ext_call_def)

lemma wp_ext_rows [wp_rules]:
  "wp (ext_rows e q) Q w =
     ((next_outcome w = Failed \<longrightarrow> Q (Inl e) (tick w)) \<and>
      (next_outcome w \<noteq> Failed \<longrightarrow> Q (Inr (cut_rows (next_outcome w) (q (tick w)))) (tick w)))"
  by (simp add: wp_def ext_rows_def)

lemma wp_time_now [wp_rules]: "wp time_now Q w = Q (Inr (clock w)) w"
  by (simp add: time_now_def wp_gets)

lemma wp_fresh_uuid [wp_rules]:
  "wp fresh_uuid Q w = Q (Inr (rnd w (nrnd w))) (w\<lparr>nrnd := nrnd w + 1\<rparr>)"
  by (simp add: wp_def fresh_uuid_def)

lemma wp_on_pool [wp_rules]:
  "wp (on_pool m) Q w = wp m (\<lambda>r i. Q r (w\<lparr>pool := i\<rparr>)) (pool w)"
  by (simp add: wp_def on_pool_def split: prod.splits)

lemma set_cut_rows: "set (cut_rows oc xs) \<subseteq> set xs"
  by (auto simp add: cut_rows_def split: outcome.splits dest: in_set_takeD)

lemma cut_rows_Done [simp]: "cut_rows Done xs = xs" "cut_rows Failed xs = xs"
  by (simp_all add: cut_rows_def)

lemma cut_rows_in: "x \<in> set (cut_rows oc xs) \<Longrightarrow> x \<in> set xs"
  using set_cut_rows by (rule subsetD)

lemma distinct_cut_rows: "distinct (map f xs) \<Longrightarrow> distinct (map f (cut_rows oc xs))"
  by (auto simp add: cut_rows_def split: outcome.splits simp flip: take_map intro: distinct_take)

lemma preserves_ext_call [preserves_intros]:
  "(\<And>w. I w \<Longrightarrow> I (tick w)) \<Longrightarrow> preserves I m \<Longrightarrow> preserves I (ext_call e m)"
  by (simp add: preserves_def ext_call_def)

lemma preserves_ext_rows [preserves_intros]:
  "(\<And>w. I w \<Longrightarrow> I (tick w)) \<Longrightarrow> preserves I (ext_rows e q)"
  by (simp add: preserves_def ext_rows_def)

lemma preserves_time_now [preserves_intros]: "preserves I time_now"
  by (simp add: time_now_def preserves_gets)

lemma preserves_fresh_uuid [preserves_intros]:
  "(\<And>w n. I w \<Longrightarrow> I (w\<lparr>nrnd := n\<rparr>)) \<Longrightarrow> preserves I fresh_uuid"
  by (simp add: preserves_def fresh_uuid_def)

section \<open>Runs without failures\<close>

text \<open>A run without failures: the hypothesis of the properties that promise a result.\<close>

definition no_faults :: "world \<Rightarrow> bool" where
  "no_faults w \<longleftrightarrow> (\<forall>n. sched w n = Done)"

lemma no_faults_next: "no_faults w \<Longrightarrow> next_outcome w = Done"
  by (simp add: no_faults_def next_outcome_def)

lemma no_faults_simps [simp]:
  "no_faults (tick w) = no_faults w"
  "no_faults (w\<lparr>users := us\<rparr>) = no_faults w"
  "no_faults (w\<lparr>invites := is\<rparr>) = no_faults w"
  "no_faults (w\<lparr>peers := ps\<rparr>) = no_faults w"
  "no_faults (w\<lparr>pool := i\<rparr>) = no_faults w"
  "no_faults (w\<lparr>device := d\<rparr>) = no_faults w"
  "no_faults (w\<lparr>server_key := k\<rparr>) = no_faults w"
  "no_faults (w\<lparr>nrnd := n\<rparr>) = no_faults w"
  "no_faults (w\<lparr>limits := l\<rparr>) = no_faults w"
  by (simp_all add: no_faults_def)

section \<open>Operations that only read\<close>

text \<open>
  What an operation that sends queries and changes nothing does to the world: time passes and
  calls are counted.
\<close>

definition stutters :: "world \<Rightarrow> world \<Rightarrow> bool" where
  "stutters w w' \<longleftrightarrow>
     w' = w\<lparr>clock := clock w', ncalls := ncalls w'\<rparr> \<and> clock w \<le> clock w' \<and> ncalls w \<le> ncalls w'"

definition readonly :: "'a wop \<Rightarrow> bool" where
  "readonly m \<longleftrightarrow> (\<forall>w. stutters w (snd (m w)))"

named_theorems readonly_intros \<open>operations that only read\<close>

lemma stutters_refl [simp, intro]: "stutters w w"
  by (simp add: stutters_def)

lemma stutters_tick [simp, intro]: "stutters w (tick w)"
  by (simp add: stutters_def tick_def)

lemma stutters_trans: "stutters w w' \<Longrightarrow> stutters w' w'' \<Longrightarrow> stutters w w''"
  by (cases w; cases w'; cases w'') (simp add: stutters_def)

lemma stutters_same:
  assumes "stutters w w'"
  shows "users w' = users w" "invites w' = invites w" "peers w' = peers w" "pool w' = pool w"
    "device w' = device w" "server_key w' = server_key w" "listen_port w' = listen_port w"
    "endpoint w' = endpoint w" "sched w' = sched w" "elapsed w' = elapsed w" "rnd w' = rnd w"
    "nrnd w' = nrnd w" "limits w' = limits w" "no_faults w' = no_faults w" "clock w \<le> clock w'"
proof -
  have e: "w' = w\<lparr>clock := clock w', ncalls := ncalls w'\<rparr>" using assms by (simp add: stutters_def)
  show "users w' = users w" "invites w' = invites w" "peers w' = peers w" "pool w' = pool w"
    "device w' = device w" "server_key w' = server_key w" "listen_port w' = listen_port w"
    "endpoint w' = endpoint w" "sched w' = sched w" "elapsed w' = elapsed w" "rnd w' = rnd w"
    "nrnd w' = nrnd w" "limits w' = limits w"
    by (subst e, simp)+
  then show "no_faults w' = no_faults w" by (simp add: no_faults_def)
  show "clock w \<le> clock w'" using assms by (simp add: stutters_def)
qed

lemma readonlyD: "readonly m \<Longrightarrow> m w = (r, w') \<Longrightarrow> stutters w w'"
  by (metis readonly_def snd_conv)

lemma readonly_ret [readonly_intros]: "readonly (ret x)"
  by (simp add: readonly_def ret_def)

lemma readonly_fail [readonly_intros]: "readonly (fail e)"
  by (simp add: readonly_def fail_def)

lemma readonly_gets [readonly_intros]: "readonly (gets f)"
  by (simp add: readonly_def gets_def)

lemma readonly_time_now [readonly_intros]: "readonly time_now"
  by (simp add: time_now_def readonly_gets)

lemma readonly_caseE [readonly_intros]:
  assumes "readonly m" and "\<And>e. readonly (h e)" and "\<And>x. readonly (k x)"
  shows "readonly (caseE m h k)"
  unfolding readonly_def
proof
  fix w
  obtain r v where m: "m w = (r, v)" by force
  then have v: "stutters w v" using assms(1) by (auto dest: readonlyD)
  show "stutters w (snd (caseE m h k w))"
    using m v assms(2,3) by (cases r) (auto simp add: caseE_def readonly_def intro: stutters_trans)
qed

lemma readonly_tryE [readonly_intros]:
  "readonly m \<Longrightarrow> (\<And>x. readonly (k x)) \<Longrightarrow> readonly (tryE m k)"
  unfolding tryE_def by (intro readonly_caseE readonly_fail)

lemma readonly_ext_call [readonly_intros]: "readonly m \<Longrightarrow> readonly (ext_call e m)"
  by (auto simp add: readonly_def ext_call_def intro: stutters_trans)

lemma readonly_ext_rows [readonly_intros]: "readonly (ext_rows e q)"
  by (simp add: readonly_def ext_rows_def)

lemma readonly_if [readonly_intros]:
  "(b \<Longrightarrow> readonly m) \<Longrightarrow> (\<not> b \<Longrightarrow> readonly n) \<Longrightarrow> readonly (if b then m else n)"
  by simp

lemma readonly_case_option [readonly_intros]:
  "(v = None \<Longrightarrow> readonly m) \<Longrightarrow> (\<And>x. v = Some x \<Longrightarrow> readonly (k x)) \<Longrightarrow>
   readonly (case v of None \<Rightarrow> m | Some x \<Rightarrow> k x)"
  by (simp split: option.splits)

text \<open>Whatever does not look at the clock is kept by an operation that only reads.\<close>

lemma readonly_preserves:
  assumes "readonly m" and "\<And>w w'. I w \<Longrightarrow> stutters w w' \<Longrightarrow> I w'"
  shows "preserves I m"
  using assms by (auto simp add: preserves_def readonly_def)

end
