(* ===== verification/Database.thy ===== *)
theory Database
  imports World "HOL-Library.Multiset"
begin

text \<open>
  The SQL the stores send, as data, and what PostgreSQL does with it. The stores build the
  \<open>SET\<close> and \<open>WHERE\<close> parts of a statement as a list of clauses with numbered placeholders and a
  list of arguments; a clause here keeps its placeholder number, and running a statement looks
  the argument up by that number, so that an error in the numbering would show.
\<close>

section \<open>Values, columns, clauses\<close>

datatype sqlval = SText string | SInt int | SUuid uuid | STime time

datatype set_clause = SetNull string | SetArg string nat | SetNow string

datatype cond =
    CondEq string nat            \<comment> \<open>\<open>column = $n\<close>\<close>
  | CondLike string nat          \<comment> \<open>\<open>column LIKE $n\<close>\<close>
  | CondAvailable | CondUsedUp | CondExpired  \<comment> \<open>the three fixed conditions on invites\<close>

definition sql_arg :: "sqlval list \<Rightarrow> nat \<Rightarrow> sqlval option" where
  "sql_arg args n = (if 1 \<le> n \<and> n \<le> length args then Some (args ! (n - 1)) else None)"

lemma sql_arg_snoc [simp]: "sql_arg (args @ [v]) (Suc (length args)) = Some v"
  by (simp add: sql_arg_def nth_append)

lemma sql_arg_append: "sql_arg args n = Some v \<Longrightarrow> sql_arg (args @ bs) n = Some v"
  by (auto simp add: sql_arg_def nth_append split: if_splits)

section \<open>LIKE\<close>

text \<open>
  The matching of \<open>LIKE\<close>: \<open>%\<close> matches any sequence of characters, \<open>_\<close> any one character, a
  backslash takes the next character literally.
\<close>

fun like_match :: "nat list \<Rightarrow> nat list \<Rightarrow> bool" where
  "like_match [] s = (s = [])"
| "like_match (p # ps) s =
     (if p = 0x25 then like_match ps s \<or> (case s of [] \<Rightarrow> False | _ # t \<Rightarrow> like_match (p # ps) t)
      else if p = 0x5F then (case s of [] \<Rightarrow> False | _ # t \<Rightarrow> like_match ps t)
      else if p = 0x5C then (case ps of [] \<Rightarrow> False | q # qs \<Rightarrow>
                               (case s of [] \<Rightarrow> False | c # t \<Rightarrow> c = q \<and> like_match qs t))
      else (case s of [] \<Rightarrow> False | c # t \<Rightarrow> c = p \<and> like_match ps t))"

definition sql_like :: "string \<Rightarrow> string \<Rightarrow> bool" where
  "sql_like s pat = like_match (runes pat) (runes s)"

section \<open>Rows\<close>

definition update_rows :: "('r \<Rightarrow> bool) \<Rightarrow> ('r \<Rightarrow> 'r) \<Rightarrow> 'r list \<Rightarrow> 'r list" where
  "update_rows P f rs = map (\<lambda>r. if P r then f r else r) rs"

text \<open>The number of characters of a \<open>VARCHAR(n)\<close> value is limited.\<close>

definition varchar_ok :: "nat \<Rightarrow> string \<Rightarrow> bool" where
  "varchar_ok n s \<longleftrightarrow> length (runes s) \<le> n"

definition varchar_opt_ok :: "nat \<Rightarrow> string option \<Rightarrow> bool" where
  "varchar_opt_ok n v \<longleftrightarrow> (case v of None \<Rightarrow> True | Some s \<Rightarrow> varchar_ok n s)"

text \<open>\<open>ORDER BY\<close>: insertion into a list sorted by \<open>le\<close>.\<close>

fun insert_by :: "('r \<Rightarrow> 'r \<Rightarrow> bool) \<Rightarrow> 'r \<Rightarrow> 'r list \<Rightarrow> 'r list" where
  "insert_by le x [] = [x]"
| "insert_by le x (y # ys) = (if le x y then x # y # ys else y # insert_by le x ys)"

definition order_by :: "('r \<Rightarrow> 'r \<Rightarrow> bool) \<Rightarrow> 'r list \<Rightarrow> 'r list" where
  "order_by le rs = foldr (insert_by le) rs []"

text \<open>\<open>LIMIT l OFFSET o\<close>: PostgreSQL refuses a negative one.\<close>

definition page_rows :: "int \<Rightarrow> int \<Rightarrow> 'r list \<Rightarrow> 'r list option" where
  "page_rows lim offs rs =
     (if lim < 0 \<or> offs < 0 then None else Some (take (nat lim) (drop (nat offs) rs)))"

lemma mset_insert_by [simp]: "mset (insert_by le x ys) = add_mset x (mset ys)"
  by (induction ys) auto

lemma mset_order_by [simp]: "mset (order_by le rs) = mset rs"
  by (induction rs) (auto simp add: order_by_def)

lemma set_order_by [simp]: "set (order_by le rs) = set rs"
  by (metis mset_order_by set_mset_mset)

lemma length_order_by [simp]: "length (order_by le rs) = length rs"
  by (metis mset_order_by size_mset)

lemma sorted_insert_by:
  assumes tot: "\<And>x y. le x y \<or> le y x" and tr: "\<And>x y z. le x y \<Longrightarrow> le y z \<Longrightarrow> le x z"
  shows "sorted_wrt le ys \<Longrightarrow> sorted_wrt le (insert_by le x ys)"
proof (induction ys)
  case Nil
  then show ?case by simp
next
  case (Cons y ys)
  show ?case
  proof (cases "le x y")
    case True
    with Cons.prems show ?thesis by (auto intro: tr)
  next
    case False
    then have "le y x" using tot by blast
    moreover have "set (insert_by le x ys) = insert x (set ys)"
      by (metis mset_insert_by set_mset_add_mset_insert set_mset_mset)
    ultimately show ?thesis using Cons False by auto
  qed
qed

lemma sorted_order_by:
  assumes "\<And>x y. le x y \<or> le y x" and "\<And>x y z. le x y \<Longrightarrow> le y z \<Longrightarrow> le x z"
  shows "sorted_wrt le (order_by le rs)"
proof (induction rs)
  case Nil
  then show ?case by (simp add: order_by_def)
next
  case (Cons r rs)
  then show ?case using sorted_insert_by [OF assms] by (simp add: order_by_def)
qed

lemma set_update_rows: "set (update_rows P f rs) = (\<lambda>r. if P r then f r else r) ` set rs"
  by (simp add: update_rows_def)

lemma in_update_rows:
  "r \<in> set (update_rows P f rs) \<longleftrightarrow> (\<exists>q \<in> set rs. r = (if P q then f q else q))"
  by (auto simp add: update_rows_def)

lemma map_update_rows_same:
  "(\<And>r. g (f r) = g r) \<Longrightarrow> map g (update_rows P f rs) = map g rs"
  by (simp add: update_rows_def)

lemma length_update_rows [simp]: "length (update_rows P f rs) = length rs"
  by (simp add: update_rows_def)

lemma find_update_rows:
  "(\<And>r. Q (f r) = Q r) \<Longrightarrow>
   find Q (update_rows P f rs) = map_option (\<lambda>r. if P r then f r else r) (find Q rs)"
  by (induction rs) (auto simp add: update_rows_def)

section \<open>A table with a key\<close>

text \<open>
  What the stores rely on of a table: a column (or a composed key) without duplicates, rows
  found by it, rows updated without touching it. The clients' reasoning is done once here and
  used for the three tables.
\<close>

locale keyed_table =
  fixes key :: "'r \<Rightarrow> 'k"
    and same_key :: "('r \<Rightarrow> 'r) \<Rightarrow> bool"
  assumes same_key: "same_key f \<Longrightarrow> key (f r) = key r"
begin

lemma update_distinct:
  "same_key f \<Longrightarrow> distinct (map key rs) \<Longrightarrow> distinct (map key (update_rows P f rs))"
  by (simp add: map_update_rows_same same_key)

lemma append_distinct:
  "distinct (map key rs) \<Longrightarrow> (\<forall>q \<in> set rs. key q \<noteq> key r) \<Longrightarrow> distinct (map key (rs @ [r]))"
  by auto

lemma find_key: "find (\<lambda>r. key r = k) rs = Some r \<Longrightarrow> r \<in> set rs \<and> key r = k"
  by (rule find_SomeD)

lemma find_unique:
  "distinct (map key rs) \<Longrightarrow> r \<in> set rs \<Longrightarrow> find (\<lambda>q. key q = key r) rs = Some r"
  by (induction rs) (auto simp add: rev_image_eqI)

lemma find_after_update:
  "same_key f \<Longrightarrow>
   find (\<lambda>r. key r = k) (update_rows (\<lambda>r. key r = k) f rs) =
     map_option f (find (\<lambda>r. key r = k) rs)"
  by (induction rs) (auto simp add: update_rows_def same_key)

lemma find_after_update_other:
  "same_key f \<Longrightarrow> k' \<noteq> k \<Longrightarrow>
   find (\<lambda>r. key r = k') (update_rows (\<lambda>r. key r = k) f rs) = find (\<lambda>r. key r = k') rs"
  by (induction rs) (auto simp add: update_rows_def same_key)

lemma update_unique:
  assumes "distinct (map key rs)" "r \<in> set rs"
  shows "set (update_rows (\<lambda>q. key q = key r) f rs) = insert (f r) (set rs - {r})"
proof -
  have uniq: "q = r" if "q \<in> set rs" "key q = key r" for q
    using assms that by (auto dest: distinct_map_inj_on)
  show ?thesis
  proof (intro set_eqI iffI)
    fix x
    assume "x \<in> set (update_rows (\<lambda>q. key q = key r) f rs)"
    then obtain q where "q \<in> set rs" "x = (if key q = key r then f q else q)"
      by (auto simp add: in_update_rows)
    then show "x \<in> insert (f r) (set rs - {r})"
    proof (cases "key q = key r")
      case True
      with \<open>q \<in> set rs\<close> uniq have "q = r" by blast
      with True \<open>x = (if key q = key r then f q else q)\<close> show ?thesis by simp
    qed auto
  next
    fix x
    assume "x \<in> insert (f r) (set rs - {r})"
    then consider "x = f r" | "x \<in> set rs" "x \<noteq> r" by blast
    then show "x \<in> set (update_rows (\<lambda>q. key q = key r) f rs)"
    proof cases
      case 1
      with assms(2) show ?thesis by (auto simp add: in_update_rows intro!: bexI [of _ r])
    next
      case 2
      with uniq show ?thesis by (auto simp add: in_update_rows intro!: bexI [of _ x])
    qed
  qed
qed

end

interpretation users_by_id: keyed_table u_id "\<lambda>f. \<forall>u. u_id (f u) = u_id u"
  by unfold_locales simp

interpretation users_by_student: keyed_table u_student_id "\<lambda>f. \<forall>u. u_student_id (f u) = u_student_id u"
  by unfold_locales simp

interpretation peers_by_id: keyed_table p_id "\<lambda>f. \<forall>p. p_id (f p) = p_id p"
  by unfold_locales simp

interpretation peers_by_key: keyed_table p_public_key "\<lambda>f. \<forall>p. p_public_key (f p) = p_public_key p"
  by unfold_locales simp

interpretation invites_by_id: keyed_table i_id "\<lambda>f. \<forall>i. i_id (f i) = i_id i"
  by unfold_locales simp

interpretation invites_by_code: keyed_table i_code "\<lambda>f. \<forall>i. i_code (f i) = i_code i"
  by unfold_locales simp

section \<open>Transactions\<close>

text \<open>
  \<open>tx.Begin\<close>, the statements, \<open>tx.Commit\<close>; the deferred \<open>Rollback\<close> restores the tables when the
  function returns an error.
\<close>

definition in_tx :: "'a wop \<Rightarrow> 'a wop" where
  "in_tx body =
     (\<lambda>w. case body w of
            (Inl e, w') \<Rightarrow> (Inl e, w'\<lparr>users := users w, invites := invites w, peers := peers w\<rparr>)
          | (Inr x, w') \<Rightarrow> (Inr x, w'))"

lemma wp_in_tx [wp_rules]:
  "wp (in_tx body) Q w =
     wp body (\<lambda>r w'. (\<forall>e. r = Inl e \<longrightarrow>
         Q (Inl e) (w'\<lparr>users := users w, invites := invites w, peers := peers w\<rparr>)) \<and>
       (\<forall>x. r = Inr x \<longrightarrow> Q (Inr x) w')) w"
  by (simp add: wp_def in_tx_def split: prod.splits sum.splits)

text \<open>Building a list of conditions with numbered placeholders.\<close>

type_synonym where_part = "cond list \<times> sqlval list \<times> nat"

definition add_cond :: "bool \<Rightarrow> (nat \<Rightarrow> cond) \<Rightarrow> sqlval \<Rightarrow> where_part \<Rightarrow> where_part" where
  "add_cond b mk v = (\<lambda>(cs, args, n). if b then (cs @ [mk n], args @ [v], n + 1) else (cs, args, n))"

text \<open>
  A condition on a row: its columns by name; a row whose placeholder has no argument makes the
  query fail, and so does a column of another type.
\<close>

definition eval_cond :: "(string \<Rightarrow> sqlval option) \<Rightarrow> sqlval list \<Rightarrow> cond \<Rightarrow> bool option" where
  "eval_cond col args c =
     (case c of
        CondEq name n \<Rightarrow>
          (case (col name, sql_arg args n) of
             (Some v, Some a) \<Rightarrow> Some (v = a) | _ \<Rightarrow> None)
      | CondLike name n \<Rightarrow>
          (case (col name, sql_arg args n) of
             (Some (SText v), Some (SText a)) \<Rightarrow> Some (sql_like v a) | _ \<Rightarrow> None)
      | _ \<Rightarrow> None)"

definition eval_where :: "(string \<Rightarrow> sqlval option) \<Rightarrow> sqlval list \<Rightarrow> cond list \<Rightarrow> bool" where
  "eval_where col args cs \<longleftrightarrow> list_all (\<lambda>c. eval_cond col args c = Some True) cs"

section \<open>Listing and counting\<close>

text \<open>
  The shape the three \<open>List\<close> functions share: a \<open>COUNT\<close> query and a page query over the same
  condition. The offset is computed in Go's 64-bit \<open>int\<close>.
\<close>

definition ext_page :: "goerr \<Rightarrow> (world \<Rightarrow> 'r list option) \<Rightarrow> 'r list wop" where
  "ext_page e q =
     (\<lambda>w. if next_outcome w = Failed then (Inl e, tick w)
          else case q (tick w) of
                 None \<Rightarrow> (Inl e, tick w)
               | Some rs \<Rightarrow> (Inr (cut_rows (next_outcome w) rs), tick w))"

definition page_offset :: "int \<Rightarrow> int \<Rightarrow> int" where
  "page_offset page pageSize = wrap_int (wrap_int (page - 1) * pageSize)"

definition list_op ::
  "string \<Rightarrow> string \<Rightarrow> (world \<Rightarrow> 'r list) \<Rightarrow> ('r \<Rightarrow> 'r \<Rightarrow> bool) \<Rightarrow> int \<Rightarrow> int \<Rightarrow> ('r list \<times> int) wop" where
  "list_op countErr listErr rows le page pageSize =
     tryE (ext_call (Wrapped countErr PgError) (gets (\<lambda>w. int (length (rows w))))) (\<lambda>total.
     tryE (ext_page (Wrapped listErr PgError)
            (\<lambda>w. page_rows pageSize (page_offset page pageSize) (order_by le (rows w)))) (\<lambda>items.
     ret (items, total)))"

text \<open>\<open>SELECT g, COUNT(*) ... GROUP BY g\<close>, and the loop that adds the missing keys with 0.\<close>

definition group_count :: "('r \<Rightarrow> string) \<Rightarrow> 'r list \<Rightarrow> (string \<times> int) list" where
  "group_count g rs = map (\<lambda>k. (k, int (length (filter (\<lambda>r. g r = k) rs)))) (remdups (map g rs))"

definition fill_zero :: "string list \<Rightarrow> (string \<rightharpoonup> int) \<Rightarrow> (string \<rightharpoonup> int)" where
  "fill_zero keys m = foldl (\<lambda>m k. if m k = None then m(k \<mapsto> 0) else m) m keys"

text \<open>Reading a missing key of a Go map gives the zero value.\<close>

definition map_get :: "(string \<rightharpoonup> int) \<Rightarrow> string \<Rightarrow> int" where
  "map_get m k = (case m k of None \<Rightarrow> 0 | Some v \<Rightarrow> v)"

lemma wp_ext_page [wp_rules]:
  "wp (ext_page e q) Q w =
     ((next_outcome w = Failed \<or> q (tick w) = None \<longrightarrow> Q (Inl e) (tick w)) \<and>
      (\<forall>rs. next_outcome w \<noteq> Failed \<longrightarrow> q (tick w) = Some rs \<longrightarrow>
         Q (Inr (cut_rows (next_outcome w) rs)) (tick w)))"
  by (auto simp add: wp_def ext_page_def split: option.splits)

lemma preserves_ext_page [preserves_intros]:
  "(\<And>w. I w \<Longrightarrow> I (tick w)) \<Longrightarrow> preserves I (ext_page e q)"
  by (auto simp add: preserves_def ext_page_def split: option.splits)

lemma readonly_ext_page [readonly_intros]: "readonly (ext_page e q)"
  by (auto simp add: readonly_def ext_page_def split: option.splits)

lemma readonly_list_op [readonly_intros]: "readonly (list_op cerr lerr rows le pg psize)"
  unfolding list_op_def by (intro readonly_intros)

lemma preserves_list_op [preserves_intros]:
  "(\<And>w. I w \<Longrightarrow> I (tick w)) \<Longrightarrow> preserves I (list_op cerr lerr rows le pg psize)"
  unfolding list_op_def by (intro preserves_intros)

lemma preserves_in_tx [preserves_intros]:
  assumes "preserves I body"
    and "\<And>w w'. I w \<Longrightarrow> I w' \<Longrightarrow> I (w'\<lparr>users := users w, invites := invites w, peers := peers w\<rparr>)"
  shows "preserves I (in_tx body)"
  using assms by (fastforce simp add: preserves_def in_tx_def split: prod.splits sum.splits)

lemma map_of_group_count:
  "map_of (group_count g rs) k =
     (if k \<in> g ` set rs then Some (int (length (filter (\<lambda>r. g r = k) rs))) else None)"
proof -
  have "map_of (map (\<lambda>k. (k, h k)) ks) k = (if k \<in> set ks then Some (h k) else None)" for h :: "string \<Rightarrow> int" and ks
    by (induction ks) auto
  then show ?thesis by (simp add: group_count_def)
qed

lemma fill_zero_get: "map_get (fill_zero keys m) k = map_get m k"
proof (induction keys arbitrary: m)
  case Nil
  then show ?case by (simp add: fill_zero_def)
next
  case (Cons j keys)
  have "fill_zero (j # keys) m = fill_zero keys (if m j = None then m(j \<mapsto> 0) else m)"
    by (simp add: fill_zero_def)
  then have "map_get (fill_zero (j # keys) m) k = map_get (if m j = None then m(j \<mapsto> 0) else m) k"
    by (simp only: Cons.IH)
  also have "\<dots> = map_get m k" by (simp add: map_get_def)
  finally show ?case .
qed

lemma fill_zero_dom: "dom (fill_zero keys m) = dom m \<union> set keys"
proof (induction keys arbitrary: m)
  case Nil
  then show ?case by (simp add: fill_zero_def)
next
  case (Cons j keys)
  have "fill_zero (j # keys) m = fill_zero keys (if m j = None then m(j \<mapsto> 0) else m)"
    by (simp add: fill_zero_def)
  then show ?case by (auto simp add: Cons.IH)
qed

lemma map_get_group_count:
  "map_get (map_of (group_count g rs)) k = int (length (filter (\<lambda>r. g r = k) rs))"
proof (cases "k \<in> g ` set rs")
  case True
  then show ?thesis by (simp add: map_get_def map_of_group_count)
next
  case False
  then have "filter (\<lambda>r. g r = k) rs = []" by (auto simp add: filter_empty_conv)
  with False show ?thesis by (simp add: map_get_def map_of_group_count)
qed

end
