(* ===== verification/InviteStore.thy ===== *)
theory InviteStore
  imports Database
begin

text \<open>
  \<open>internal/store/invite_store.go\<close>: the queries on the table \<open>invite_codes\<close>.
\<close>

section \<open>Inserting and finding\<close>

definition int4_ok :: "int \<Rightarrow> bool" where
  "int4_ok n \<longleftrightarrow> - 2147483648 \<le> n \<and> n \<le> 2147483647"

text \<open>\<open>use_count\<close> and \<open>used_by\<close> are not in the column list: they take their defaults.\<close>

definition invites_Create :: "invite \<Rightarrow> invite wop" where
  "invites_Create iv =
     ext_call (Wrapped ''create invite'' PgError) (tryE fresh_uuid (\<lambda>i w.
       if \<not> varchar_ok 32 (i_code iv) \<or> \<not> int4_ok (i_max_uses iv)
       then (Inl (Wrapped ''create invite'' PgError), w)
       else if \<exists>j \<in> set (invites w). i_code j = i_code iv \<or> i_id j = i
       then (Inl (Wrapped ''create invite'' PgUnique), w)
       else (Inr (iv\<lparr>i_id := i, i_created_at := clock w\<rparr>),
             w\<lparr>invites := invites w @
               [iv\<lparr>i_id := i, i_used_by := None, i_use_count := 0, i_created_at := clock w\<rparr>]\<rparr>)))"

definition invites_FindByCode :: "string \<Rightarrow> invite option wop" where
  "invites_FindByCode code =
     ext_call (Wrapped ''find invite by code'' PgError)
       (gets (\<lambda>w. find (\<lambda>i. i_code i = code) (invites w)))"

definition invites_FindByID :: "uuid \<Rightarrow> invite option wop" where
  "invites_FindByID iid =
     ext_call (Wrapped ''find invite by id'' PgError)
       (gets (\<lambda>w. find (\<lambda>i. i_id i = iid) (invites w)))"

section \<open>Updating and deleting\<close>

definition invites_MarkUsed :: "uuid \<Rightarrow> uuid \<Rightarrow> unit wop" where
  "invites_MarkUsed inviteID usedBy =
     ext_call (Wrapped ''mark invite used'' PgError)
       (modify (\<lambda>w. w\<lparr>invites := update_rows (\<lambda>i. i_id i = inviteID)
          (\<lambda>i. i\<lparr>i_use_count := i_use_count i + 1, i_used_by := Some usedBy\<rparr>) (invites w)\<rparr>))"

record InviteUpdateFields =
  f_max_uses :: "int option"
  f_expires_at :: "time option"
  f_clear_expires_at :: bool

definition build_invite_update :: "InviteUpdateFields \<Rightarrow> set_clause list \<times> sqlval list \<times> nat" where
  "build_invite_update f =
     (let p0 = ([], [], 1);
          p1 = (case f_max_uses f of
                  None \<Rightarrow> p0
                | Some n \<Rightarrow> (case p0 of (sets, args, argIdx) \<Rightarrow>
                    (sets @ [SetArg ''max_uses'' argIdx], args @ [SInt n], argIdx + 1)))
      in case p1 of (sets, args, argIdx) \<Rightarrow>
           if f_clear_expires_at f then (sets @ [SetNull ''expires_at''], args, argIdx)
           else (case f_expires_at f of
                   None \<Rightarrow> (sets, args, argIdx)
                 | Some t \<Rightarrow> (sets @ [SetArg ''expires_at'' argIdx], args @ [STime t], argIdx + 1)))"

definition set_invite_col :: "string \<Rightarrow> sqlval option \<Rightarrow> invite \<Rightarrow> invite option" where
  "set_invite_col col v i =
     (if col = ''max_uses'' then (case v of
          Some (SInt n) \<Rightarrow> if int4_ok n then Some (i\<lparr>i_max_uses := n\<rparr>) else None | _ \<Rightarrow> None)
      else if col = ''expires_at'' then (case v of
          None \<Rightarrow> Some (i\<lparr>i_expires_at := None\<rparr>)
        | Some (STime t) \<Rightarrow> Some (i\<lparr>i_expires_at := Some t\<rparr>) | _ \<Rightarrow> None)
      else None)"

fun run_invite_sets :: "set_clause list \<Rightarrow> sqlval list \<Rightarrow> invite \<Rightarrow> invite option" where
  "run_invite_sets [] args i = Some i"
| "run_invite_sets (SetNull c # cs) args i =
     Option.bind (set_invite_col c None i) (run_invite_sets cs args)"
| "run_invite_sets (SetArg c n # cs) args i =
     (case sql_arg args n of
        None \<Rightarrow> None
      | Some v \<Rightarrow> Option.bind (set_invite_col c (Some v) i) (run_invite_sets cs args))"
| "run_invite_sets (SetNow c # cs) args i = None"

definition invites_Update :: "uuid \<Rightarrow> InviteUpdateFields \<Rightarrow> unit wop" where
  "invites_Update inviteID flds =
     (case build_invite_update flds of (sets, args, argIdx) \<Rightarrow>
        if sets = [] then ret ()
        else
          let args' = args @ [SUuid inviteID] in
          ext_call (Wrapped ''update invite'' PgError) (\<lambda>w.
            case sql_arg args' argIdx of
              Some (SUuid k) \<Rightarrow>
                if \<exists>i \<in> set (invites w). i_id i = k \<and> run_invite_sets sets args' i = None
                then (Inl (Wrapped ''update invite'' PgError), w)
                else (Inr (), w\<lparr>invites := update_rows (\<lambda>i. i_id i = k)
                        (\<lambda>i. the (run_invite_sets sets args' i)) (invites w)\<rparr>)
            | _ \<Rightarrow> (Inl (Wrapped ''update invite'' PgError), w)))"

definition invites_Delete :: "uuid \<Rightarrow> unit wop" where
  "invites_Delete inviteID =
     ext_call (Wrapped ''delete invite'' PgError)
       (modify (\<lambda>w. w\<lparr>invites := filter (\<lambda>i. i_id i \<noteq> inviteID) (invites w)\<rparr>))"

section \<open>Listing and counting\<close>

record InviteListParams =
  il_page :: int
  il_page_size :: int
  il_code :: string
  il_state :: string

definition build_invite_where :: "InviteListParams \<Rightarrow> where_part" where
  "build_invite_where p =
     (case add_cond (il_code p \<noteq> '''') (CondLike ''code'') (SText (''%'' @ il_code p @ ''%''))
             ([], [], 1) of
        (conditions, args, argIdx) \<Rightarrow>
          if il_state p = ''available'' then (conditions @ [CondAvailable], args, argIdx)
          else if il_state p = ''used_up'' then (conditions @ [CondUsedUp], args, argIdx)
          else if il_state p = ''expired'' then (conditions @ [CondExpired], args, argIdx)
          else (conditions, args, argIdx))"

definition expired_at :: "invite \<Rightarrow> time \<Rightarrow> bool" where
  "expired_at i now \<longleftrightarrow> (case i_expires_at i of None \<Rightarrow> False | Some t \<Rightarrow> t \<le> now)"

definition invite_col :: "invite \<Rightarrow> string \<Rightarrow> sqlval option" where
  "invite_col i c = (if c = ''code'' then Some (SText (i_code i)) else None)"

definition eval_invite_cond :: "time \<Rightarrow> sqlval list \<Rightarrow> invite \<Rightarrow> cond \<Rightarrow> bool" where
  "eval_invite_cond now args i c =
     (case c of
        CondAvailable \<Rightarrow> i_max_uses i > i_use_count i \<and> \<not> expired_at i now
      | CondUsedUp \<Rightarrow> i_max_uses i \<le> i_use_count i
      | CondExpired \<Rightarrow> expired_at i now \<and> i_max_uses i > i_use_count i
      | _ \<Rightarrow> eval_cond (invite_col i) args c = Some True)"

definition invite_rows :: "InviteListParams \<Rightarrow> world \<Rightarrow> invite list" where
  "invite_rows p w =
     (case build_invite_where p of (conditions, args, _) \<Rightarrow>
        filter (\<lambda>i. list_all (eval_invite_cond (clock w) args i) conditions) (invites w))"

definition invites_List :: "InviteListParams \<Rightarrow> (invite list \<times> int) wop" where
  "invites_List params =
     list_op ''count invites'' ''list invites'' (invite_rows params)
       (\<lambda>i j. i_created_at j \<le> i_created_at i) (il_page params) (il_page_size params)"

text \<open>The \<open>CASE\<close> expression of \<open>CountByState\<close>.\<close>

definition sql_invite_state :: "time \<Rightarrow> invite \<Rightarrow> string" where
  "sql_invite_state now i =
     (if i_max_uses i \<le> i_use_count i then ''used_up''
      else if expired_at i now \<and> i_max_uses i > i_use_count i then ''expired''
      else ''available'')"

definition invites_CountByState :: "(string \<rightharpoonup> int) wop" where
  "invites_CountByState =
     tryE (ext_rows (Wrapped ''count by state'' PgError)
            (\<lambda>w. group_count (sql_invite_state (clock w)) (invites w))) (\<lambda>rows.
     ret (fill_zero [''available'', ''used_up'', ''expired''] (map_of rows)))"

section \<open>What the statements do\<close>

text \<open>The effect of \<open>InviteUpdateFields\<close> on a row, without clauses and placeholders.\<close>

definition apply_invite_fields :: "InviteUpdateFields \<Rightarrow> invite \<Rightarrow> invite" where
  "apply_invite_fields f i =
     i\<lparr>i_max_uses := (case f_max_uses f of None \<Rightarrow> i_max_uses i | Some n \<Rightarrow> n),
       i_expires_at := (if f_clear_expires_at f then None
                        else case f_expires_at f of None \<Rightarrow> i_expires_at i | Some t \<Rightarrow> Some t)\<rparr>"

lemma invites_Update_effect:
  assumes "\<forall>n. f_max_uses f = Some n \<longrightarrow> int4_ok n"
  shows "invites_Update k f =
     (if f_max_uses f = None \<and> \<not> f_clear_expires_at f \<and> f_expires_at f = None then ret ()
      else ext_call (Wrapped ''update invite'' PgError)
        (modify (\<lambda>w. w\<lparr>invites := update_rows (\<lambda>i. i_id i = k) (apply_invite_fields f) (invites w)\<rparr>)))"
proof -
  have effects: "apply_invite_fields f = (\<lambda>i. i\<lparr>i_max_uses := n, i_expires_at := x\<rparr>)"
    if "f_max_uses f = Some n" "x = (if f_clear_expires_at f then None else f_expires_at f)"
       "f_clear_expires_at f \<or> f_expires_at f \<noteq> None" for n x
    using that by (auto simp add: apply_invite_fields_def fun_eq_iff)
  have max_only: "apply_invite_fields f = (\<lambda>i. i\<lparr>i_max_uses := n\<rparr>)"
    if "f_max_uses f = Some n" "\<not> f_clear_expires_at f" "f_expires_at f = None" for n
    using that by (simp add: apply_invite_fields_def fun_eq_iff)
  have exp_only: "apply_invite_fields f = (\<lambda>i. i\<lparr>i_expires_at := x\<rparr>)"
    if "f_max_uses f = None" "x = (if f_clear_expires_at f then None else f_expires_at f)"
       "f_clear_expires_at f \<or> f_expires_at f \<noteq> None" for x
    using that by (auto simp add: apply_invite_fields_def fun_eq_iff)
  show ?thesis
    using assms
    by (cases "f_max_uses f"; cases "f_expires_at f"; cases "f_clear_expires_at f")
       (simp_all add: invites_Update_def build_invite_update_def sql_arg_def set_invite_col_def
         effects max_only exp_only modify_def)
qed

lemma sql_state_agrees:
  "i_expires_at i \<noteq> Some now \<Longrightarrow> sql_invite_state now i = invite_State i now"
  by (auto simp add: sql_invite_state_def invite_State_def expired_at_def split: option.splits)

text \<open>The keys of the table stay keys.\<close>

definition invites_wf :: "invite list \<Rightarrow> bool" where
  "invites_wf is \<longleftrightarrow> distinct (map i_id is) \<and> distinct (map i_code is)"

lemma invites_wf_update:
  "invites_wf is \<Longrightarrow> (\<And>i. i_id (f i) = i_id i) \<Longrightarrow> (\<And>i. i_code (f i) = i_code i) \<Longrightarrow>
   invites_wf (update_rows P f is)"
  by (auto simp add: invites_wf_def intro: invites_by_id.update_distinct invites_by_code.update_distinct)

lemma update_rows_none: "\<not> (\<exists>r \<in> set rs. P r) \<Longrightarrow> update_rows P f rs = rs"
  by (auto simp add: update_rows_def intro: map_idI)

text \<open>Whatever the fields are, the statement fails, does nothing, or applies them to the row.\<close>

lemma invites_Update_wp:
  assumes err: "Q (Inl (Wrapped ''update invite'' PgError)) (tick w)"
    and noop: "f_max_uses f = None \<Longrightarrow> \<not> f_clear_expires_at f \<Longrightarrow> f_expires_at f = None \<Longrightarrow> Q (Inr ()) w"
    and upd: "Q (Inr ()) ((tick w)\<lparr>invites :=
        update_rows (\<lambda>i. i_id i = k) (apply_invite_fields f) (invites w)\<rparr>)"
  shows "wp (invites_Update k f) Q w"
proof (cases "\<forall>n. f_max_uses f = Some n \<longrightarrow> int4_ok n")
  case True
  show ?thesis
    unfolding invites_Update_effect [OF True] using assms by (simp add: wp_rules)
next
  case False
  then obtain n where n: "f_max_uses f = Some n" "\<not> int4_ok n" by blast
  have bad: "set_invite_col ''max_uses'' (Some (SInt n)) i = None" for i
    using n(2) by (simp add: set_invite_col_def)
  have "\<exists>cs as ai. build_invite_update f = (SetArg ''max_uses'' 1 # cs, SInt n # as, ai) \<and>
      sql_arg ((SInt n # as) @ [SUuid k]) ai = Some (SUuid k)"
    using n(1)
    by (cases "f_clear_expires_at f"; cases "f_expires_at f")
       (simp_all add: build_invite_update_def sql_arg_def)
  then obtain cs as ai where b: "build_invite_update f = (SetArg ''max_uses'' 1 # cs, SInt n # as, ai)"
      "sql_arg ((SInt n # as) @ [SUuid k]) ai = Some (SUuid k)" by blast
  have none: "run_invite_sets (SetArg ''max_uses'' 1 # cs) (SInt n # as @ [SUuid k]) i = None" for i
    by (simp add: sql_arg_def bad)
  show ?thesis
  proof (cases "\<exists>i \<in> set (invites w). i_id i = k")
    case True
    then show ?thesis using err b none
      by (auto simp add: invites_Update_def wp_ext_call) (auto simp add: wp_def)
  next
    case False
    with upd have "Q (Inr ()) (tick w)" using update_rows_none [OF False] by simp
    then show ?thesis using err b none False
      by (auto simp add: invites_Update_def wp_ext_call) (auto simp add: wp_def update_rows_none)
  qed
qed

text \<open>The queries only read.\<close>

lemma readonly_invites_FindByCode [readonly_intros]: "readonly (invites_FindByCode c)"
  unfolding invites_FindByCode_def by (intro readonly_intros)

lemma readonly_invites_FindByID [readonly_intros]: "readonly (invites_FindByID i)"
  unfolding invites_FindByID_def by (intro readonly_intros)

lemma readonly_invites_List [readonly_intros]: "readonly (invites_List ps)"
  unfolding invites_List_def by (intro readonly_intros)

lemma readonly_invites_CountByState [readonly_intros]: "readonly (invites_CountByState)"
  unfolding invites_CountByState_def by (intro readonly_intros)

end
