(* ===== verification/UserStore.thy ===== *)
theory UserStore
  imports Database
begin

text \<open>
  \<open>internal/store/user_store.go\<close>: the queries on the table \<open>users\<close>. The statements are
  translated from their SQL text; the columns' constraints are those of
  \<open>migrations/001_init.sql\<close>.
\<close>

section \<open>Inserting and finding\<close>

definition user_cols_ok :: "user \<Rightarrow> bool" where
  "user_cols_ok u \<longleftrightarrow>
     varchar_ok 20 (u_student_id u) \<and> varchar_ok 255 (u_password u) \<and> varchar_ok 8 (u_role u) \<and>
     varchar_opt_ok 64 (u_display_name u) \<and> varchar_opt_ok 255 (u_email u) \<and>
     varchar_opt_ok 32 (u_phone u) \<and> varchar_opt_ok 64 (u_wechat u) \<and>
     varchar_opt_ok 64 (u_telegram u) \<and> varchar_ok 16 (u_status u)"

text \<open>
  \<open>INSERT INTO users ... RETURNING id, created_at, updated_at\<close>: a row that repeats a student id
  (or, by chance, an id) is a unique violation, error code 23505.
\<close>

definition insert_user :: "user \<Rightarrow> user wop" where
  "insert_user u =
     ext_call PgError (tryE fresh_uuid (\<lambda>i w.
       if \<not> user_cols_ok u then (Inl PgError, w)
       else if \<exists>v \<in> set (users w). u_student_id v = u_student_id u \<or> u_id v = i then (Inl PgUnique, w)
       else let u' = u\<lparr>u_id := i, u_created_at := clock w, u_updated_at := clock w\<rparr>
            in (Inr u', w\<lparr>users := users w @ [u']\<rparr>)))"

definition isUniqueViolation :: "goerr \<Rightarrow> bool" where
  "isUniqueViolation err \<longleftrightarrow> errors_is err PgUnique"

definition users_Create :: "user \<Rightarrow> user wop" where
  "users_Create user =
     caseE (insert_user user)
       (\<lambda>err. if isUniqueViolation err then fail StoreErrStudentIDTaken
              else fail (Wrapped ''create user'' err))
       ret"

definition users_RegisterBootstrapAdmin :: "user \<Rightarrow> user wop" where
  "users_RegisterBootstrapAdmin user =
     tryE (ext_call (Wrapped ''begin bootstrap registration transaction'' PgError) (ret ())) (\<lambda>_.
     in_tx (
       tryE (ext_call (Wrapped ''lock users table'' PgError) (ret ())) (\<lambda>_.
       tryE (ext_call (Wrapped ''count users'' PgError) (gets (\<lambda>w. int (length (users w))))) (\<lambda>count.
       if count \<noteq> 0 then fail ErrBootstrapClosed
       else
         caseE (insert_user user)
           (\<lambda>scanErr. if isUniqueViolation scanErr then fail StoreErrStudentIDTaken
                      else fail (Wrapped ''create bootstrap admin'' scanErr))
           (\<lambda>user'.
         tryE (ext_call (Wrapped ''commit bootstrap registration transaction'' PgError) (ret ())) (\<lambda>_.
         ret user'))))))"

text \<open>
  The invite is read with \<open>FOR UPDATE\<close>, the user inserted, the use counted, in one transaction.
\<close>

definition users_RegisterWithInvite :: "user \<Rightarrow> string \<Rightarrow> user wop" where
  "users_RegisterWithInvite user inviteCode =
     tryE (ext_call (Wrapped ''begin registration transaction'' PgError) (ret ())) (\<lambda>_.
     in_tx (
       tryE (ext_call (Wrapped ''find invite by code'' PgError)
              (gets (\<lambda>w. find (\<lambda>i. i_code i = inviteCode) (invites w)))) (\<lambda>row.
       case row of
         None \<Rightarrow> fail ErrInviteUnavailable
       | Some iv \<Rightarrow>
         tryE time_now (\<lambda>now.
         if i_use_count iv \<ge> i_max_uses iv \<or>
            (case i_expires_at iv of None \<Rightarrow> False | Some t \<Rightarrow> \<not> t > now)
         then fail ErrInviteUnavailable
         else
           caseE (insert_user (user\<lparr>u_invite_id := i_id iv\<rparr>))
             (\<lambda>scanErr. if isUniqueViolation scanErr then fail StoreErrStudentIDTaken
                        else fail (Wrapped ''create user'' scanErr))
             (\<lambda>user'.
           tryE (ext_call (Wrapped ''mark invite used'' PgError)
                  (\<lambda>w. (Inr (length (filter (\<lambda>i. i_id i = i_id iv) (invites w))),
                        w\<lparr>invites := update_rows (\<lambda>i. i_id i = i_id iv)
                             (\<lambda>i. i\<lparr>i_use_count := i_use_count i + 1, i_used_by := Some (u_id user')\<rparr>)
                             (invites w)\<rparr>))) (\<lambda>rowsAffected.
           if rowsAffected \<noteq> 1 then fail ErrInviteUnavailable
           else
             tryE (ext_call (Wrapped ''commit registration transaction'' PgError) (ret ())) (\<lambda>_.
             ret user')))))))"

definition users_FindByStudentID :: "string \<Rightarrow> user option wop" where
  "users_FindByStudentID studentID =
     ext_call (Wrapped ''find user by student_id'' PgError)
       (gets (\<lambda>w. find (\<lambda>u. u_student_id u = studentID) (users w)))"

definition users_FindByID :: "uuid \<Rightarrow> user option wop" where
  "users_FindByID uid =
     ext_call (Wrapped ''find user by id'' PgError) (gets (\<lambda>w. find (\<lambda>u. u_id u = uid) (users w)))"

section \<open>Updating\<close>

definition users_UpdatePassword :: "uuid \<Rightarrow> string \<Rightarrow> unit wop" where
  "users_UpdatePassword userID passwordHash =
     ext_call (Wrapped ''update password'' PgError) (\<lambda>w.
       if \<not> varchar_ok 255 passwordHash \<and> (\<exists>u \<in> set (users w). u_id u = userID)
       then (Inl (Wrapped ''update password'' PgError), w)
       else (Inr (), w\<lparr>users := update_rows (\<lambda>u. u_id u = userID)
                         (\<lambda>u. u\<lparr>u_password := passwordHash, u_updated_at := clock w\<rparr>) (users w)\<rparr>))"

record OptionalStringUpdate =
  upd_set :: bool
  upd_value :: "string option"

record UserUpdateFields =
  f_display_name :: OptionalStringUpdate
  f_email :: OptionalStringUpdate
  f_phone :: OptionalStringUpdate
  f_wechat :: OptionalStringUpdate
  f_telegram :: OptionalStringUpdate
  f_max_peers :: "int option"
  f_status :: "string option"

definition no_update :: OptionalStringUpdate where
  "no_update = \<lparr>upd_set = False, upd_value = None\<rparr>"

definition empty_fields :: UserUpdateFields where
  "empty_fields = \<lparr>f_display_name = no_update, f_email = no_update, f_phone = no_update,
     f_wechat = no_update, f_telegram = no_update, f_max_peers = None, f_status = None\<rparr>"

type_synonym set_part = "set_clause list \<times> sqlval list \<times> nat"

fun appendOptionalStringUpdate :: "set_part \<Rightarrow> string \<Rightarrow> OptionalStringUpdate \<Rightarrow> set_part" where
  "appendOptionalStringUpdate (setClauses, args, argIdx) column field =
     (if \<not> upd_set field then (setClauses, args, argIdx)
      else case upd_value field of
             None \<Rightarrow> (setClauses @ [SetNull column], args, argIdx)
           | Some v \<Rightarrow> (setClauses @ [SetArg column argIdx], args @ [SText v], argIdx + 1))"

fun append_value :: "set_part \<Rightarrow> string \<Rightarrow> sqlval option \<Rightarrow> set_part" where
  "append_value (setClauses, args, argIdx) column None = (setClauses, args, argIdx)"
| "append_value (setClauses, args, argIdx) column (Some v) =
     (setClauses @ [SetArg column argIdx], args @ [v], argIdx + 1)"

definition build_user_update :: "UserUpdateFields \<Rightarrow> set_part" where
  "build_user_update f =
     (let p0 = ([], [], 1);
          p1 = appendOptionalStringUpdate p0 ''display_name'' (f_display_name f);
          p2 = appendOptionalStringUpdate p1 ''email'' (f_email f);
          p3 = appendOptionalStringUpdate p2 ''phone'' (f_phone f);
          p4 = appendOptionalStringUpdate p3 ''wechat'' (f_wechat f);
          p5 = appendOptionalStringUpdate p4 ''telegram'' (f_telegram f);
          p6 = append_value p5 ''max_peers'' (map_option SInt (f_max_peers f))
      in append_value p6 ''status'' (map_option SText (f_status f)))"

text \<open>What PostgreSQL does with one assignment: \<open>None\<close> is a refused statement.\<close>

definition set_user_col :: "string \<Rightarrow> sqlval option \<Rightarrow> user \<Rightarrow> user option" where
  "set_user_col col v u =
     (if col = ''display_name'' then (case v of None \<Rightarrow> Some (u\<lparr>u_display_name := None\<rparr>)
        | Some (SText s) \<Rightarrow> if varchar_ok 64 s then Some (u\<lparr>u_display_name := Some s\<rparr>) else None | _ \<Rightarrow> None)
      else if col = ''email'' then (case v of None \<Rightarrow> Some (u\<lparr>u_email := None\<rparr>)
        | Some (SText s) \<Rightarrow> if varchar_ok 255 s then Some (u\<lparr>u_email := Some s\<rparr>) else None | _ \<Rightarrow> None)
      else if col = ''phone'' then (case v of None \<Rightarrow> Some (u\<lparr>u_phone := None\<rparr>)
        | Some (SText s) \<Rightarrow> if varchar_ok 32 s then Some (u\<lparr>u_phone := Some s\<rparr>) else None | _ \<Rightarrow> None)
      else if col = ''wechat'' then (case v of None \<Rightarrow> Some (u\<lparr>u_wechat := None\<rparr>)
        | Some (SText s) \<Rightarrow> if varchar_ok 64 s then Some (u\<lparr>u_wechat := Some s\<rparr>) else None | _ \<Rightarrow> None)
      else if col = ''telegram'' then (case v of None \<Rightarrow> Some (u\<lparr>u_telegram := None\<rparr>)
        | Some (SText s) \<Rightarrow> if varchar_ok 64 s then Some (u\<lparr>u_telegram := Some s\<rparr>) else None | _ \<Rightarrow> None)
      else if col = ''max_peers'' then (case v of
          Some (SInt n) \<Rightarrow> if - 2147483648 \<le> n \<and> n \<le> 2147483647 then Some (u\<lparr>u_max_peers := n\<rparr>) else None
        | _ \<Rightarrow> None)
      else if col = ''status'' then (case v of
          Some (SText s) \<Rightarrow> if varchar_ok 16 s then Some (u\<lparr>u_status := s\<rparr>) else None | _ \<Rightarrow> None)
      else None)"

fun run_user_sets :: "set_clause list \<Rightarrow> sqlval list \<Rightarrow> time \<Rightarrow> user \<Rightarrow> user option" where
  "run_user_sets [] args now u = Some u"
| "run_user_sets (SetNull c # cs) args now u =
     Option.bind (set_user_col c None u) (run_user_sets cs args now)"
| "run_user_sets (SetArg c n # cs) args now u =
     (case sql_arg args n of
        None \<Rightarrow> None
      | Some v \<Rightarrow> Option.bind (set_user_col c (Some v) u) (run_user_sets cs args now))"
| "run_user_sets (SetNow c # cs) args now u =
     (if c = ''updated_at'' then run_user_sets cs args now (u\<lparr>u_updated_at := now\<rparr>) else None)"

definition users_Update :: "uuid \<Rightarrow> UserUpdateFields \<Rightarrow> unit wop" where
  "users_Update userID flds =
     (case build_user_update flds of (setClauses, args, argIdx) \<Rightarrow>
        if setClauses = [] then ret ()
        else
          let setClauses' = setClauses @ [SetNow ''updated_at'']; args' = args @ [SUuid userID] in
          ext_call (Wrapped ''update user'' PgError) (\<lambda>w.
            case sql_arg args' argIdx of
              Some (SUuid i) \<Rightarrow>
                if \<exists>u \<in> set (users w). u_id u = i \<and> run_user_sets setClauses' args' (clock w) u = None
                then (Inl (Wrapped ''update user'' PgError), w)
                else (Inr (), w\<lparr>users := update_rows (\<lambda>u. u_id u = i)
                        (\<lambda>u. the (run_user_sets setClauses' args' (clock w) u)) (users w)\<rparr>)
            | _ \<Rightarrow> (Inl (Wrapped ''update user'' PgError), w)))"

definition users_UpdateStatus :: "uuid \<Rightarrow> string \<Rightarrow> unit wop" where
  "users_UpdateStatus userID status =
     ext_call (Wrapped ''update status'' PgError) (\<lambda>w.
       if \<not> varchar_ok 16 status \<and> (\<exists>u \<in> set (users w). u_id u = userID)
       then (Inl (Wrapped ''update status'' PgError), w)
       else (Inr (), w\<lparr>users := update_rows (\<lambda>u. u_id u = userID)
                         (\<lambda>u. u\<lparr>u_status := status, u_updated_at := clock w\<rparr>) (users w)\<rparr>))"

section \<open>Listing and counting\<close>

record UserListParams =
  ul_page :: int
  ul_page_size :: int
  ul_student_id :: string
  ul_status :: string
  ul_role :: string
  ul_sort_by :: string
  ul_sort_order :: string

definition user_col :: "user \<Rightarrow> string \<Rightarrow> sqlval option" where
  "user_col u c =
     (if c = ''student_id'' then Some (SText (u_student_id u))
      else if c = ''status'' then Some (SText (u_status u))
      else if c = ''role'' then Some (SText (u_role u))
      else None)"

definition build_user_where :: "UserListParams \<Rightarrow> where_part" where
  "build_user_where p =
     add_cond (ul_role p \<noteq> '''') (CondEq ''role'') (SText (ul_role p))
     (add_cond (ul_status p \<noteq> '''') (CondEq ''status'') (SText (ul_status p))
     (add_cond (ul_student_id p \<noteq> '''') (CondLike ''student_id'') (SText (''%'' @ ul_student_id p @ ''%''))
      ([], [], 1)))"

text \<open>NULL sorts after every value, as PostgreSQL's ascending order has it.\<close>

definition text_opt_le :: "libs \<Rightarrow> string option \<Rightarrow> string option \<Rightarrow> bool" where
  "text_opt_le L a b = (case (a, b) of (_, None) \<Rightarrow> True | (None, Some _) \<Rightarrow> False
                        | (Some x, Some y) \<Rightarrow> collate_le L x y)"

definition user_sort_by :: "string \<Rightarrow> string" where
  "user_sort_by s =
     (if s = ''student_id'' \<or> s = ''status'' \<or> s = ''role'' \<or> s = ''display_name''
      then s else ''created_at'')"

definition sort_order :: "string \<Rightarrow> string" where
  "sort_order s = (if s = ''ASC'' then ''ASC'' else ''DESC'')"

definition user_asc_le :: "libs \<Rightarrow> string \<Rightarrow> user \<Rightarrow> user \<Rightarrow> bool" where
  "user_asc_le L col u v =
     (if col = ''student_id'' then collate_le L (u_student_id u) (u_student_id v)
      else if col = ''status'' then collate_le L (u_status u) (u_status v)
      else if col = ''role'' then collate_le L (u_role u) (u_role v)
      else if col = ''display_name'' then text_opt_le L (u_display_name u) (u_display_name v)
      else u_created_at u \<le> u_created_at v)"

definition user_le :: "libs \<Rightarrow> UserListParams \<Rightarrow> user \<Rightarrow> user \<Rightarrow> bool" where
  "user_le L p u v =
     (if sort_order (ul_sort_order p) = ''ASC''
      then user_asc_le L (user_sort_by (ul_sort_by p)) u v
      else user_asc_le L (user_sort_by (ul_sort_by p)) v u)"

definition user_rows :: "UserListParams \<Rightarrow> world \<Rightarrow> user list" where
  "user_rows p w =
     (case build_user_where p of (conditions, args, _) \<Rightarrow>
        filter (\<lambda>u. eval_where (user_col u) args conditions) (users w))"

definition users_List :: "libs \<Rightarrow> UserListParams \<Rightarrow> (user list \<times> int) wop" where
  "users_List L params =
     list_op ''count users'' ''list users'' (user_rows params) (user_le L params)
       (ul_page params) (ul_page_size params)"

definition users_Count :: "int wop" where
  "users_Count = ext_call (Wrapped ''count users'' PgError) (gets (\<lambda>w. int (length (users w))))"

definition users_CountByStatus :: "(string \<rightharpoonup> int) wop" where
  "users_CountByStatus =
     tryE (ext_rows (Wrapped ''count by status'' PgError) (\<lambda>w. group_count u_status (users w))) (\<lambda>rows.
     ret (fill_zero [''active'', ''suspended'', ''deleted''] (map_of rows)))"

section \<open>The update statement does what the fields say\<close>

text \<open>The intended effect of \<open>UserUpdateFields\<close> on a row, without clauses and placeholders.\<close>

definition opt_field :: "OptionalStringUpdate \<Rightarrow> string option \<Rightarrow> string option" where
  "opt_field f old = (if upd_set f then upd_value f else old)"

definition opt_val :: "'v option \<Rightarrow> 'v \<Rightarrow> 'v" where
  "opt_val v old = (case v of None \<Rightarrow> old | Some n \<Rightarrow> n)"

definition apply_user_fields :: "UserUpdateFields \<Rightarrow> time \<Rightarrow> user \<Rightarrow> user" where
  "apply_user_fields f now u =
     u\<lparr>u_display_name := opt_field (f_display_name f) (u_display_name u),
       u_email := opt_field (f_email f) (u_email u),
       u_phone := opt_field (f_phone f) (u_phone u),
       u_wechat := opt_field (f_wechat f) (u_wechat u),
       u_telegram := opt_field (f_telegram f) (u_telegram u),
       u_max_peers := opt_val (f_max_peers f) (u_max_peers u),
       u_status := opt_val (f_status f) (u_status u),
       u_updated_at := now\<rparr>"

definition opt_field_ok :: "nat \<Rightarrow> OptionalStringUpdate \<Rightarrow> bool" where
  "opt_field_ok n f \<longleftrightarrow> (upd_set f \<longrightarrow> varchar_opt_ok n (upd_value f))"

definition user_fields_ok :: "UserUpdateFields \<Rightarrow> bool" where
  "user_fields_ok f \<longleftrightarrow>
     opt_field_ok 64 (f_display_name f) \<and> opt_field_ok 255 (f_email f) \<and>
     opt_field_ok 32 (f_phone f) \<and> opt_field_ok 64 (f_wechat f) \<and>
     opt_field_ok 64 (f_telegram f) \<and>
     (\<forall>n. f_max_peers f = Some n \<longrightarrow> - 2147483648 \<le> n \<and> n \<le> 2147483647) \<and>
     (\<forall>s. f_status f = Some s \<longrightarrow> varchar_ok 16 s)"

definition no_fields :: "UserUpdateFields \<Rightarrow> bool" where
  "no_fields f \<longleftrightarrow>
     \<not> upd_set (f_display_name f) \<and> \<not> upd_set (f_email f) \<and> \<not> upd_set (f_phone f) \<and>
     \<not> upd_set (f_wechat f) \<and> \<not> upd_set (f_telegram f) \<and> f_max_peers f = None \<and> f_status f = None"

text \<open>Running more arguments than were there when a clause was built changes nothing.\<close>

fun arg_below :: "nat \<Rightarrow> set_clause \<Rightarrow> bool" where
  "arg_below n (SetArg c i) = (0 < i \<and> i \<le> n)"
| "arg_below n (SetNull c) = True"
| "arg_below n (SetNow c) = True"

lemma arg_below_Suc: "arg_below n c \<Longrightarrow> arg_below (Suc n) c"
  by (cases c) auto

definition numbered :: "set_part \<Rightarrow> bool" where
  "numbered p \<longleftrightarrow> (case p of (cs, args, n) \<Rightarrow>
     n = length args + 1 \<and> list_all (arg_below (length args)) cs)"

lemma run_user_sets_append:
  "run_user_sets (cs @ ds) args now u =
     Option.bind (run_user_sets cs args now u) (run_user_sets ds args now)"
  by (induction cs args now u rule: run_user_sets.induct)
     (auto split: option.splits Option.bind_splits)

lemma run_user_sets_more_args:
  "list_all (arg_below (length args)) cs \<Longrightarrow>
   run_user_sets cs (args @ bs) now u = run_user_sets cs args now u"
  by (induction cs args now u rule: run_user_sets.induct)
     (auto simp add: sql_arg_def nth_append split: option.splits Option.bind_splits
       intro!: arg_cong2 [where f = Option.bind])

text \<open>
  \<open>builds p f\<close>: the statement built so far, run with any further arguments, has effect \<open>f\<close>.
\<close>

definition builds :: "set_part \<Rightarrow> (time \<Rightarrow> user \<Rightarrow> user option) \<Rightarrow> bool" where
  "builds p f \<longleftrightarrow> numbered p \<and> (\<forall>now u. run_user_sets (fst p) (fst (snd p)) now u = f now u)"

lemma builds_start: "builds ([], [], 1) (\<lambda>now u. Some u)"
  by (simp add: builds_def numbered_def)

lemma builds_null:
  "builds (cs, args, n) f \<Longrightarrow>
   builds (cs @ [SetNull c], args, n) (\<lambda>now u. Option.bind (f now u) (set_user_col c None))"
  by (auto simp add: builds_def numbered_def run_user_sets_append split: Option.bind_splits)

lemma builds_arg:
  assumes "builds (cs, args, n) f"
  shows "builds (cs @ [SetArg c n], args @ [v], n + 1)
           (\<lambda>now u. Option.bind (f now u) (set_user_col c (Some v)))"
proof -
  from assms have n: "n = length args + 1"
    and cs: "list_all (arg_below (length args)) cs"
    and f: "\<And>now u. run_user_sets cs args now u = f now u"
    by (auto simp add: builds_def numbered_def)
  have "list_all (arg_below (Suc (length args))) cs"
    using cs by (auto simp add: list_all_iff intro: arg_below_Suc)
  then show ?thesis
    using run_user_sets_more_args [OF cs] f
    by (auto simp add: builds_def numbered_def n run_user_sets_append split: Option.bind_splits)
qed

lemma builds_opt:
  assumes "builds p f"
  shows "builds (appendOptionalStringUpdate p c fld)
     (\<lambda>now u. if upd_set fld
              then Option.bind (f now u) (set_user_col c (map_option SText (upd_value fld)))
              else f now u)"
  using assms by (cases p) (auto intro: builds_null builds_arg [simplified] split: option.splits)

lemma builds_value:
  assumes "builds p f"
  shows "builds (append_value p c v)
     (\<lambda>now u. if v = None then f now u else Option.bind (f now u) (set_user_col c v))"
  using assms by (cases p; cases v) (auto intro: builds_arg [simplified])

definition effect :: "set_part \<Rightarrow> (user \<Rightarrow> user) \<Rightarrow> bool" where
  "effect p h \<longleftrightarrow> builds p (\<lambda>now u. Some (h u))"

lemma effect_start: "effect ([], [], 1) (\<lambda>u. u)"
  using builds_start by (simp add: effect_def)

lemma effect_opt:
  assumes "effect p h"
    and "\<And>u. upd_set fld \<Longrightarrow> set_user_col c (map_option SText (upd_value fld)) u = Some (s u)"
    and "\<And>u. \<not> upd_set fld \<Longrightarrow> s u = u"
  shows "effect (appendOptionalStringUpdate p c fld) (\<lambda>u. s (h u))"
proof -
  have "(\<lambda>now u. if upd_set fld
              then Option.bind (Some (h u)) (set_user_col c (map_option SText (upd_value fld)))
              else Some (h u)) = (\<lambda>(now :: time) u. Some (s (h u)))"
    using assms(2,3) by (auto simp add: fun_eq_iff)
  with builds_opt [of p "\<lambda>now u. Some (h u)" c fld] assms(1) show ?thesis
    by (simp only: effect_def)
qed

lemma effect_value:
  assumes "effect p h"
    and "\<And>u. v \<noteq> None \<Longrightarrow> set_user_col c v u = Some (s u)"
    and "\<And>u. v = None \<Longrightarrow> s u = u"
  shows "effect (append_value p c v) (\<lambda>u. s (h u))"
proof -
  have "(\<lambda>now u. if v = None then Some (h u) else Option.bind (Some (h u)) (set_user_col c v))
      = (\<lambda>(now :: time) u. Some (s (h u)))"
    using assms(2,3) by (auto simp add: fun_eq_iff)
  with builds_value [of p "\<lambda>now u. Some (h u)" c v] assms(1) show ?thesis
    by (simp only: effect_def)
qed

lemma appendOptionalStringUpdate_empty:
  "fst (appendOptionalStringUpdate p c fld) = [] \<longleftrightarrow> fst p = [] \<and> \<not> upd_set fld"
  by (cases p) (auto split: option.splits)

lemma append_value_empty: "fst (append_value p c v) = [] \<longleftrightarrow> fst p = [] \<and> v = None"
  by (cases p; cases v) auto

lemma build_user_update_empty: "fst (build_user_update f) = [] \<longleftrightarrow> no_fields f"
  by (simp add: build_user_update_def Let_def no_fields_def appendOptionalStringUpdate_empty
    append_value_empty del: appendOptionalStringUpdate.simps append_value.simps)

lemma build_user_update_runs:
  assumes ok: "user_fields_ok f"
  shows "effect (build_user_update f)
     (\<lambda>u. (apply_user_fields f now u)\<lparr>u_updated_at := u_updated_at u\<rparr>)"
proof -
  note [simp] = set_user_col_def opt_field_def varchar_opt_ok_def opt_val_def
  let ?dn = "\<lambda>u. u\<lparr>u_display_name := opt_field (f_display_name f) (u_display_name u)\<rparr>"
  let ?em = "\<lambda>u. u\<lparr>u_email := opt_field (f_email f) (u_email u)\<rparr>"
  let ?ph = "\<lambda>u. u\<lparr>u_phone := opt_field (f_phone f) (u_phone u)\<rparr>"
  let ?wc = "\<lambda>u. u\<lparr>u_wechat := opt_field (f_wechat f) (u_wechat u)\<rparr>"
  let ?tg = "\<lambda>u. u\<lparr>u_telegram := opt_field (f_telegram f) (u_telegram u)\<rparr>"
  let ?mp = "\<lambda>u. u\<lparr>u_max_peers := opt_val (f_max_peers f) (u_max_peers u)\<rparr>"
  let ?st = "\<lambda>u. u\<lparr>u_status := opt_val (f_status f) (u_status u)\<rparr>"
  note k = ok [unfolded user_fields_ok_def opt_field_ok_def]
  have 1: "effect (appendOptionalStringUpdate ([], [], 1) ''display_name'' (f_display_name f)) (\<lambda>u. ?dn u)"
    by (rule effect_opt [OF effect_start]) (use k in \<open>auto split: option.splits\<close>)
  have 2: "effect (appendOptionalStringUpdate p ''email'' (f_email f)) (\<lambda>u. ?em (h u))" if "effect p h" for p h
    by (rule effect_opt [OF that]) (use k in \<open>auto split: option.splits\<close>)
  have 3: "effect (appendOptionalStringUpdate p ''phone'' (f_phone f)) (\<lambda>u. ?ph (h u))" if "effect p h" for p h
    by (rule effect_opt [OF that]) (use k in \<open>auto split: option.splits\<close>)
  have 4: "effect (appendOptionalStringUpdate p ''wechat'' (f_wechat f)) (\<lambda>u. ?wc (h u))" if "effect p h" for p h
    by (rule effect_opt [OF that]) (use k in \<open>auto split: option.splits\<close>)
  have 5: "effect (appendOptionalStringUpdate p ''telegram'' (f_telegram f)) (\<lambda>u. ?tg (h u))" if "effect p h" for p h
    by (rule effect_opt [OF that]) (use k in \<open>auto split: option.splits\<close>)
  have 6: "effect (append_value p ''max_peers'' (map_option SInt (f_max_peers f))) (\<lambda>u. ?mp (h u))" if "effect p h" for p h
    by (rule effect_value [OF that]) (use k in auto)
  have 7: "effect (append_value p ''status'' (map_option SText (f_status f))) (\<lambda>u. ?st (h u))" if "effect p h" for p h
    by (rule effect_value [OF that]) (use k in auto)
  from 7 [OF 6 [OF 5 [OF 4 [OF 3 [OF 2 [OF 1]]]]]]
  show ?thesis
    by (simp add: build_user_update_def Let_def apply_user_fields_def
      del: appendOptionalStringUpdate.simps append_value.simps opt_field_def opt_val_def)
qed

lemma build_user_update_effect:
  assumes ok: "user_fields_ok f" and b: "build_user_update f = (cs, args, n)"
  shows "run_user_sets (cs @ [SetNow ''updated_at'']) (args @ [SUuid i]) now u =
           Some (apply_user_fields f now u)"
    and "sql_arg (args @ [SUuid i]) n = Some (SUuid i)"
    and "cs = [] \<longleftrightarrow> no_fields f"
proof -
  from build_user_update_runs [OF ok, of now] b
  have n: "n = length args + 1" and below: "list_all (arg_below (length args)) cs"
    and run: "run_user_sets cs args now u =
        Some ((apply_user_fields f now u)\<lparr>u_updated_at := u_updated_at u\<rparr>)"
    by (auto simp add: effect_def builds_def numbered_def)
  show "run_user_sets (cs @ [SetNow ''updated_at'']) (args @ [SUuid i]) now u =
      Some (apply_user_fields f now u)"
    by (simp add: run_user_sets_append run_user_sets_more_args [OF below] run apply_user_fields_def)
  show "sql_arg (args @ [SUuid i]) n = Some (SUuid i)" by (simp add: n)
  show "cs = [] \<longleftrightarrow> no_fields f"
    using build_user_update_empty [of f] b by simp
qed

section \<open>Effects on the world\<close>

lemma users_Update_effect:
  assumes ok: "user_fields_ok f"
  shows "users_Update i f =
     (if no_fields f then ret ()
      else ext_call (Wrapped ''update user'' PgError)
        (modify (\<lambda>w. w\<lparr>users := update_rows (\<lambda>u. u_id u = i) (apply_user_fields f (clock w)) (users w)\<rparr>)))"
proof -
  obtain cs args n where b: "build_user_update f = (cs, args, n)" by (metis prod_cases3)
  note e = build_user_update_effect [OF ok b]
  show ?thesis
    by (simp add: users_Update_def b e modify_def cong: if_cong)
qed

lemma wp_insert_user:
  "wp (insert_user u) Q w \<longleftrightarrow>
     (let w1 = tick w; i = rnd w (nrnd w); w2 = w1\<lparr>nrnd := nrnd w + 1\<rparr>;
          u' = u\<lparr>u_id := i, u_created_at := clock w1, u_updated_at := clock w1\<rparr> in
      if next_outcome w = Failed then Q (Inl PgError) w1
      else if \<not> user_cols_ok u then Q (Inl PgError) w2
      else if \<exists>v \<in> set (users w). u_student_id v = u_student_id u \<or> u_id v = i then Q (Inl PgUnique) w2
      else Q (Inr u') (w2\<lparr>users := users w @ [u']\<rparr>))"
  by (auto simp add: insert_user_def wp_def ext_call_def tryE_def caseE_def fresh_uuid_def Let_def)

text \<open>The keys of the table stay keys.\<close>

definition users_wf :: "user list \<Rightarrow> bool" where
  "users_wf us \<longleftrightarrow> distinct (map u_id us) \<and> distinct (map u_student_id us)"

lemma users_wf_update:
  "users_wf us \<Longrightarrow> (\<And>u. u_id (f u) = u_id u) \<Longrightarrow> (\<And>u. u_student_id (f u) = u_student_id u) \<Longrightarrow>
   users_wf (update_rows P f us)"
  by (auto simp add: users_wf_def intro: users_by_id.update_distinct users_by_student.update_distinct)

lemma users_wf_insert:
  "users_wf us \<Longrightarrow> \<not> (\<exists>v \<in> set us. u_student_id v = u_student_id u \<or> u_id v = u_id u) \<Longrightarrow>
   users_wf (us @ [u])"
  unfolding users_wf_def
  by (intro conjI users_by_id.append_distinct users_by_student.append_distinct) auto

text \<open>The queries only read.\<close>

lemma readonly_users_FindByStudentID [readonly_intros]: "readonly (users_FindByStudentID s)"
  unfolding users_FindByStudentID_def by (intro readonly_intros)

lemma readonly_users_FindByID [readonly_intros]: "readonly (users_FindByID i)"
  unfolding users_FindByID_def by (intro readonly_intros)

lemma readonly_users_List [readonly_intros]: "readonly (users_List L ps)"
  unfolding users_List_def by (intro readonly_intros)

lemma readonly_users_Count [readonly_intros]: "readonly (users_Count)"
  unfolding users_Count_def by (intro readonly_intros)

lemma readonly_users_CountByStatus [readonly_intros]: "readonly (users_CountByStatus)"
  unfolding users_CountByStatus_def by (intro readonly_intros)

end
