(* ===== verification/Auth.thy ===== *)
theory Auth
  imports InviteStore UserStore
begin

text \<open>
  \<open>internal/auth\<close>: the password policy, registration with an invite code (or without one for
  the first account, which becomes the administrator), login and token validation.
\<close>

section \<open>Passwords\<close>

text \<open>The loop of \<open>ValidatePassword\<close> over the code points, which stops when both flags are set.\<close>

fun scan_password :: "unicode \<Rightarrow> nat list \<Rightarrow> bool \<Rightarrow> bool \<Rightarrow> bool \<times> bool" where
  "scan_password t [] hasLetter hasDigit = (hasLetter, hasDigit)"
| "scan_password t (ch # rest) hasLetter hasDigit =
     (let hasLetter' = (hasLetter \<or> IsLetter t ch); hasDigit' = (hasDigit \<or> IsDigit t ch)
      in if hasLetter' \<and> hasDigit' then (True, True) else scan_password t rest hasLetter' hasDigit')"

definition ValidatePassword :: "unicode \<Rightarrow> string \<Rightarrow> goerr option" where
  "ValidatePassword t password =
     (let password = TrimSpace password in
      if length password < 10 then Some ErrPasswordTooShort
      else if length password > 128 then Some ErrPasswordTooLong
      else case scan_password t (runes password) False False of (hasLetter, hasDigit) \<Rightarrow>
        if \<not> hasLetter then Some ErrPasswordMissingLetter
        else if \<not> hasDigit then Some ErrPasswordMissingDigit
        else None)"

definition IsPasswordPolicyError :: "goerr \<Rightarrow> bool" where
  "IsPasswordPolicyError err \<longleftrightarrow>
     errors_is err ErrPasswordTooShort \<or> errors_is err ErrPasswordTooLong \<or>
     errors_is err ErrPasswordMissingLetter \<or> errors_is err ErrPasswordMissingDigit"

definition HashPassword :: "libs \<Rightarrow> string \<Rightarrow> string wop" where
  "HashPassword L password =
     tryE fresh_uuid (\<lambda>salt.
     case bcrypt_hash L salt password of None \<Rightarrow> fail ErrBcrypt | Some h \<Rightarrow> ret h)"

definition CheckPassword :: "libs \<Rightarrow> string \<Rightarrow> string \<Rightarrow> bool" where
  "CheckPassword L hash password = bcrypt_check L hash password"

text \<open>Documented behaviour of bcrypt: a hash checks against the password it was made from.\<close>

definition bcrypt_lib :: "libs \<Rightarrow> bool" where
  "bcrypt_lib L \<longleftrightarrow> (\<forall>salt p h. bcrypt_hash L salt p = Some h \<longrightarrow> bcrypt_check L h p)"

section \<open>Registration\<close>

definition Register :: "libs \<Rightarrow> string \<Rightarrow> string \<Rightarrow> string \<Rightarrow> user wop" where
  "Register L studentID password inviteCode =
     (let studentID = TrimSpace studentID; inviteCode = TrimSpace inviteCode in
      case ValidatePassword (uni L) password of
        Some err \<Rightarrow> fail err
      | None \<Rightarrow>
          tryE (users_FindByStudentID studentID) (\<lambda>existing.
          if existing \<noteq> None then fail AuthErrStudentIDTaken
          else
            tryE users_Count (\<lambda>userCount.
            tryE (HashPassword L password) (\<lambda>hashedPassword.
            tryE time_now (\<lambda>now.
            tryE fresh_uuid (\<lambda>i.
            let user = \<lparr>u_id = i, u_student_id = studentID, u_password = hashedPassword,
                  u_role = ''user'', u_invite_id = 0, u_display_name = None, u_email = None,
                  u_phone = None, u_wechat = None, u_telegram = None, u_max_peers = 5,
                  u_status = ''active'', u_created_at = now, u_updated_at = now\<rparr>
            in if userCount = 0 then
                 caseE (users_RegisterBootstrapAdmin (user\<lparr>u_role := ''admin''\<rparr>))
                   (\<lambda>err. if errors_is err StoreErrStudentIDTaken then fail AuthErrStudentIDTaken
                          else if errors_is err ErrBootstrapClosed then fail ErrInvalidInvite
                          else fail err)
                   ret
               else if inviteCode = '''' then fail ErrInvalidInvite
               else
                 caseE (invites_FindByCode inviteCode) (\<lambda>_. fail ErrInvalidInvite) (\<lambda>row.
                 case row of
                   None \<Rightarrow> fail ErrInvalidInvite
                 | Some iv \<Rightarrow>
                     tryE time_now (\<lambda>now'.
                     if \<not> IsAvailable iv now' then fail ErrInvalidInvite
                     else
                       caseE (users_RegisterWithInvite user inviteCode)
                         (\<lambda>err. if errors_is err StoreErrStudentIDTaken then fail AuthErrStudentIDTaken
                                else if errors_is err ErrInviteUnavailable then fail ErrInvalidInvite
                                else fail err)
                         ret))))))))"

section \<open>Login and tokens\<close>

record auth_config =
  jwtSecret :: string
  expiryHours :: int

text \<open>\<open>jwt.NewNumericDate\<close> cuts a time to whole seconds.\<close>

definition NewNumericDate :: "time \<Rightarrow> time" where
  "NewNumericDate t = t - t mod 1000000000"

definition token_expiry :: "auth_config \<Rightarrow> time \<Rightarrow> time" where
  "token_expiry c now = now + wrap_int (expiryHours c * 3600000000000)"

definition user_claims :: "libs \<Rightarrow> auth_config \<Rightarrow> user \<Rightarrow> time \<Rightarrow> claims" where
  "user_claims L c user now =
     \<lparr>cl_subject = uuid_string L (u_id user), cl_issued_at = NewNumericDate now,
      cl_expires_at = NewNumericDate (token_expiry c now),
      cl_student_id = u_student_id user, cl_role = u_role user\<rparr>"

definition Login :: "libs \<Rightarrow> auth_config \<Rightarrow> string \<Rightarrow> string \<Rightarrow> (string \<times> time) wop" where
  "Login L c studentID password =
     caseE (users_FindByStudentID studentID) (\<lambda>_. fail ErrInvalidCredentials) (\<lambda>row.
     case row of
       None \<Rightarrow> fail ErrInvalidCredentials
     | Some user \<Rightarrow>
         if u_status user \<noteq> ''active'' then fail AuthErrAccountInactive
         else if \<not> CheckPassword L (u_password user) password then fail ErrInvalidCredentials
         else
           tryE time_now (\<lambda>now.
           case jwt_sign L (jwtSecret c) (user_claims L c user now) of
             None \<Rightarrow> fail ErrSign
           | Some tokenString \<Rightarrow> ret (tokenString, token_expiry c now)))"

definition ValidateToken :: "libs \<Rightarrow> auth_config \<Rightarrow> string \<Rightarrow> claims wop" where
  "ValidateToken L c tokenString =
     tryE time_now (\<lambda>now.
     case jwt_parse L (jwtSecret c) now tokenString of
       JwtOk cl \<Rightarrow> ret cl
     | JwtExpired \<Rightarrow> fail ErrTokenExpired
     | JwtInvalid \<Rightarrow> fail ErrTokenInvalid)"

text \<open>
  Documented behaviour of golang-jwt: a token signed with a secret parses under that secret to
  the claims it was signed with, before its expiry; from then on it is reported as expired.
\<close>

definition jwt_lib :: "libs \<Rightarrow> bool" where
  "jwt_lib L \<longleftrightarrow>
     (\<forall>secret cl tok now. jwt_sign L secret cl = Some tok \<longrightarrow>
        jwt_parse L secret now tok = (if now < cl_expires_at cl then JwtOk cl else JwtExpired))"

section \<open>Lemmas\<close>

lemma scan_password:
  "scan_password t rs a b = (a \<or> list_ex (IsLetter t) rs, b \<or> list_ex (IsDigit t) rs)"
  by (induction t rs a b rule: scan_password.induct) (auto simp add: Let_def)

lemma readonly_Login: "readonly (Login L c s p)"
  unfolding Login_def by (intro readonly_intros)

end
