(* ===== verification/PeerStore.thy ===== *)
theory PeerStore
  imports Database UserStore
begin

text \<open>
  \<open>internal/store/peer_store.go\<close>: the queries on the table \<open>peers\<close>. The column \<open>assigned_ip\<close>
  holds what the allocator produced, in the form \<open>host()\<close> prints.
\<close>

section \<open>Inserting and finding\<close>

definition peer_cols_ok :: "peer \<Rightarrow> bool" where
  "peer_cols_ok p \<longleftrightarrow> varchar_ok 64 (p_public_key p) \<and> varchar_ok 16 (p_status p)"

definition peers_Create :: "peer \<Rightarrow> peer wop" where
  "peers_Create peer =
     ext_call (Wrapped ''create peer'' PgError) (tryE fresh_uuid (\<lambda>i w.
       if \<not> peer_cols_ok peer \<or> \<not> (\<exists>u \<in> set (users w). u_id u = p_user_id peer)
       then (Inl (Wrapped ''create peer'' PgError), w)
       else if \<exists>q \<in> set (peers w). p_public_key q = p_public_key peer \<or> p_id q = i
       then (Inl (Wrapped ''create peer'' PgUnique), w)
       else let peer' = peer\<lparr>p_id := i, p_created_at := clock w, p_updated_at := clock w\<rparr>
            in (Inr peer', w\<lparr>peers := peers w @ [peer']\<rparr>)))"

definition peers_FindActiveByUserID :: "uuid \<Rightarrow> peer list wop" where
  "peers_FindActiveByUserID userID =
     ext_rows (Wrapped ''find active peers by user_id'' PgError)
       (\<lambda>w. filter (\<lambda>p. p_user_id p = userID \<and> p_status p = ''active'') (peers w))"

definition peers_FindByPublicKey :: "string \<Rightarrow> peer option wop" where
  "peers_FindByPublicKey publicKey =
     ext_call (Wrapped ''find peer by public key'' PgError)
       (gets (\<lambda>w. find (\<lambda>p. p_public_key p = publicKey) (peers w)))"

definition peers_FindByID :: "uuid \<Rightarrow> peer option wop" where
  "peers_FindByID pid =
     ext_call (Wrapped ''find peer by id'' PgError)
       (gets (\<lambda>w. find (\<lambda>p. p_id p = pid) (peers w)))"

definition peers_ListActive :: "peer list wop" where
  "peers_ListActive =
     ext_rows (Wrapped ''list active peers'' PgError)
       (\<lambda>w. filter (\<lambda>p. p_status p = ''active'') (peers w))"

definition peers_CountActiveByUserID :: "uuid \<Rightarrow> int wop" where
  "peers_CountActiveByUserID userID =
     ext_call (Wrapped ''count active peers by user_id'' PgError)
       (gets (\<lambda>w. int (length (filter (\<lambda>p. p_user_id p = userID \<and> p_status p = ''active'') (peers w)))))"

section \<open>Updating\<close>

definition peers_Activate :: "uuid \<Rightarrow> string \<Rightarrow> unit wop" where
  "peers_Activate peerID assignedIP =
     ext_call (Wrapped ''activate peer'' PgError)
       (modify (\<lambda>w. w\<lparr>peers := update_rows (\<lambda>p. p_id p = peerID)
          (\<lambda>p. p\<lparr>p_assigned_ip := assignedIP, p_status := ''active'', p_updated_at := clock w\<rparr>)
          (peers w)\<rparr>))"

definition peers_UpdateStatus :: "uuid \<Rightarrow> string \<Rightarrow> unit wop" where
  "peers_UpdateStatus peerID status =
     ext_call (Wrapped ''update peer status'' PgError) (\<lambda>w.
       if \<not> varchar_ok 16 status \<and> (\<exists>p \<in> set (peers w). p_id p = peerID)
       then (Inl (Wrapped ''update peer status'' PgError), w)
       else (Inr (), w\<lparr>peers := update_rows (\<lambda>p. p_id p = peerID)
               (\<lambda>p. p\<lparr>p_status := status, p_updated_at := clock w\<rparr>) (peers w)\<rparr>))"

text \<open>The unique index on \<open>public_key\<close> refuses a key another row has.\<close>

definition peers_UpdatePublicKey :: "uuid \<Rightarrow> string \<Rightarrow> unit wop" where
  "peers_UpdatePublicKey peerID newPubKey =
     ext_call (Wrapped ''update peer public key'' PgError) (\<lambda>w.
       if \<exists>p \<in> set (peers w). p_id p = peerID \<and>
            (\<not> varchar_ok 64 newPubKey \<or>
             (\<exists>q \<in> set (peers w). p_id q \<noteq> peerID \<and> p_public_key q = newPubKey))
       then (Inl (Wrapped ''update peer public key''
               (if varchar_ok 64 newPubKey then PgUnique else PgError)), w)
       else (Inr (), w\<lparr>peers := update_rows (\<lambda>p. p_id p = peerID)
               (\<lambda>p. p\<lparr>p_public_key := newPubKey, p_updated_at := clock w\<rparr>) (peers w)\<rparr>))"

definition peers_UpdateLastSeen :: "uuid \<Rightarrow> time \<Rightarrow> unit wop" where
  "peers_UpdateLastSeen peerID lastSeen =
     ext_call (Wrapped ''update peer last_seen'' PgError)
       (modify (\<lambda>w. w\<lparr>peers := update_rows (\<lambda>p. p_id p = peerID)
          (\<lambda>p. p\<lparr>p_last_seen := Some lastSeen, p_updated_at := clock w\<rparr>) (peers w)\<rparr>))"

section \<open>Listing and counting\<close>

record PeerListParams =
  pl_page :: int
  pl_page_size :: int
  pl_status :: string
  pl_student_id :: string
  pl_public_key :: string
  pl_sort_by :: string
  pl_sort_order :: string

record PeerListByUserParams =
  pu_page :: int
  pu_page_size :: int
  pu_status :: string

text \<open>A row of \<open>peers p JOIN users u ON p.user_id = u.id\<close>: the peer and its owner's student id.\<close>

type_synonym PeerWithStudent = "peer \<times> string"

definition join_users :: "world \<Rightarrow> PeerWithStudent list" where
  "join_users w =
     concat (map (\<lambda>p. map (\<lambda>u. (p, u_student_id u)) (filter (\<lambda>u. u_id u = p_user_id p) (users w)))
       (peers w))"

definition peer_row_col :: "PeerWithStudent \<Rightarrow> string \<Rightarrow> sqlval option" where
  "peer_row_col r c =
     (if c = ''p.status'' then Some (SText (p_status (fst r)))
      else if c = ''u.student_id'' then Some (SText (snd r))
      else if c = ''p.public_key'' then Some (SText (p_public_key (fst r)))
      else if c = ''p.user_id'' then Some (SUuid (p_user_id (fst r)))
      else None)"

definition build_peer_where :: "PeerListParams \<Rightarrow> where_part" where
  "build_peer_where p =
     add_cond (pl_public_key p \<noteq> '''') (CondLike ''p.public_key'') (SText (''%'' @ pl_public_key p @ ''%''))
     (add_cond (pl_student_id p \<noteq> '''') (CondLike ''u.student_id'') (SText (''%'' @ pl_student_id p @ ''%''))
     (add_cond (pl_status p \<noteq> '''') (CondEq ''p.status'') (SText (pl_status p))
      ([], [], 1)))"

definition peer_asc_le :: "libs \<Rightarrow> string \<Rightarrow> PeerWithStudent \<Rightarrow> PeerWithStudent \<Rightarrow> bool" where
  "peer_asc_le L col r q =
     (if col = ''p.status'' then collate_le L (p_status (fst r)) (p_status (fst q))
      else if col = ''p.public_key'' then collate_le L (p_public_key (fst r)) (p_public_key (fst q))
      else if col = ''p.assigned_ip'' then inet_le L (p_assigned_ip (fst r)) (p_assigned_ip (fst q))
      else p_created_at (fst r) \<le> p_created_at (fst q))"

definition peer_sort_by :: "string \<Rightarrow> string" where
  "peer_sort_by s =
     (if s = ''status'' \<or> s = ''public_key'' \<or> s = ''assigned_ip'' then ''p.'' @ s else ''p.created_at'')"

definition peer_le :: "libs \<Rightarrow> PeerListParams \<Rightarrow> PeerWithStudent \<Rightarrow> PeerWithStudent \<Rightarrow> bool" where
  "peer_le L p r q =
     (if sort_order (pl_sort_order p) = ''ASC''
      then peer_asc_le L (peer_sort_by (pl_sort_by p)) r q
      else peer_asc_le L (peer_sort_by (pl_sort_by p)) q r)"

definition peer_rows :: "PeerListParams \<Rightarrow> world \<Rightarrow> PeerWithStudent list" where
  "peer_rows p w =
     (case build_peer_where p of (conditions, args, _) \<Rightarrow>
        filter (\<lambda>r. eval_where (peer_row_col r) args conditions) (join_users w))"

definition peers_List :: "libs \<Rightarrow> PeerListParams \<Rightarrow> (PeerWithStudent list \<times> int) wop" where
  "peers_List L params =
     list_op ''count peers'' ''list peers'' (peer_rows params) (peer_le L params)
       (pl_page params) (pl_page_size params)"

definition peers_CountByStatus :: "(string \<rightharpoonup> int) wop" where
  "peers_CountByStatus =
     tryE (ext_rows (Wrapped ''count by status'' PgError) (\<lambda>w. group_count p_status (peers w))) (\<lambda>rows.
     ret (fill_zero [''active'', ''disconnected'', ''revoked''] (map_of rows)))"

definition build_peer_user_where :: "uuid \<Rightarrow> PeerListByUserParams \<Rightarrow> where_part" where
  "build_peer_user_where userID p =
     add_cond (pu_status p \<noteq> '''') (CondEq ''p.status'') (SText (pu_status p))
       (add_cond True (CondEq ''p.user_id'') (SUuid userID) ([], [], 1))"

definition peer_user_rows :: "uuid \<Rightarrow> PeerListByUserParams \<Rightarrow> world \<Rightarrow> PeerWithStudent list" where
  "peer_user_rows userID p w =
     (case build_peer_user_where userID p of (conditions, args, _) \<Rightarrow>
        filter (\<lambda>r. eval_where (peer_row_col r) args conditions) (join_users w))"

text \<open>Its \<open>COUNT\<close> query has no join, so it counts the peers alone.\<close>

definition peers_ListByUserID :: "libs \<Rightarrow> uuid \<Rightarrow> PeerListByUserParams \<Rightarrow> (PeerWithStudent list \<times> int) wop" where
  "peers_ListByUserID L userID params =
     tryE (ext_call (Wrapped ''count peers by user_id'' PgError) (gets (\<lambda>w.
       case build_peer_user_where userID params of (conditions, args, _) \<Rightarrow>
         int (length (filter (\<lambda>p. eval_where (peer_row_col (p, '''')) args conditions) (peers w)))))) (\<lambda>total.
     tryE (ext_page (Wrapped ''list peers by user_id'' PgError) (\<lambda>w.
       page_rows (pu_page_size params) (page_offset (pu_page params) (pu_page_size params))
         (order_by (\<lambda>r q. p_created_at (fst q) \<le> p_created_at (fst r)) (peer_user_rows userID params w)))) (\<lambda>items.
     ret (items, total)))"

section \<open>Rules\<close>

text \<open>The keys of the table stay keys.\<close>

definition peers_wf :: "peer list \<Rightarrow> bool" where
  "peers_wf ps \<longleftrightarrow> distinct (map p_id ps) \<and> distinct (map p_public_key ps)"

lemma peers_wf_update:
  "peers_wf ps \<Longrightarrow> (\<And>p. p_id (f p) = p_id p) \<Longrightarrow> (\<And>p. p_public_key (f p) = p_public_key p) \<Longrightarrow>
   peers_wf (update_rows P f ps)"
  by (auto simp add: peers_wf_def intro: peers_by_id.update_distinct peers_by_key.update_distinct)

lemma peers_wf_insert:
  "peers_wf ps \<Longrightarrow> \<not> (\<exists>q \<in> set ps. p_public_key q = p_public_key p \<or> p_id q = p_id p) \<Longrightarrow>
   peers_wf (ps @ [p])"
  unfolding peers_wf_def
  by (intro conjI peers_by_id.append_distinct peers_by_key.append_distinct) auto

lemma peers_wf_rekey:
  assumes wf: "peers_wf ps" and new: "\<forall>q \<in> set ps. p_id q \<noteq> k \<longrightarrow> p_public_key q \<noteq> pk"
  shows "peers_wf (update_rows (\<lambda>p. p_id p = k) (\<lambda>p. p\<lparr>p_public_key := pk, p_updated_at := t\<rparr>) ps)"
proof -
  have "distinct (map p_public_key (update_rows (\<lambda>p. p_id p = k) (\<lambda>p. p\<lparr>p_public_key := pk, p_updated_at := t\<rparr>) ps))"
    using wf new unfolding peers_wf_def
  proof (induction ps)
    case Nil
    then show ?case by (simp add: update_rows_def)
  next
    case (Cons p ps)
    then show ?case by (auto simp add: update_rows_def image_iff split: if_splits) (metis+)?
  qed
  with wf show ?thesis by (auto simp add: peers_wf_def intro: peers_by_id.update_distinct)
qed

lemma wp_peers_Create [wp_rules]:
  "wp (peers_Create p) Q w \<longleftrightarrow>
     (let w1 = tick w; i = rnd w (nrnd w); w2 = w1\<lparr>nrnd := nrnd w + 1\<rparr>;
          p' = p\<lparr>p_id := i, p_created_at := clock w1, p_updated_at := clock w1\<rparr> in
      if next_outcome w = Failed then Q (Inl (Wrapped ''create peer'' PgError)) w1
      else if \<not> peer_cols_ok p \<or> \<not> (\<exists>u \<in> set (users w). u_id u = p_user_id p)
      then Q (Inl (Wrapped ''create peer'' PgError)) w2
      else if \<exists>q \<in> set (peers w). p_public_key q = p_public_key p \<or> p_id q = i
      then Q (Inl (Wrapped ''create peer'' PgUnique)) w2
      else Q (Inr p') (w2\<lparr>peers := peers w @ [p']\<rparr>))"
  by (auto simp add: peers_Create_def wp_def ext_call_def tryE_def caseE_def fresh_uuid_def Let_def)

text \<open>The queries only read.\<close>

lemma readonly_peers_FindActiveByUserID [readonly_intros]: "readonly (peers_FindActiveByUserID i)"
  unfolding peers_FindActiveByUserID_def by (intro readonly_intros)

lemma readonly_peers_FindByPublicKey [readonly_intros]: "readonly (peers_FindByPublicKey k)"
  unfolding peers_FindByPublicKey_def by (intro readonly_intros)

lemma readonly_peers_FindByID [readonly_intros]: "readonly (peers_FindByID i)"
  unfolding peers_FindByID_def by (intro readonly_intros)

lemma readonly_peers_ListActive [readonly_intros]: "readonly (peers_ListActive)"
  unfolding peers_ListActive_def by (intro readonly_intros)

lemma readonly_peers_CountActiveByUserID [readonly_intros]: "readonly (peers_CountActiveByUserID i)"
  unfolding peers_CountActiveByUserID_def by (intro readonly_intros)

lemma readonly_peers_List [readonly_intros]: "readonly (peers_List L ps)"
  unfolding peers_List_def by (intro readonly_intros)

lemma readonly_peers_CountByStatus [readonly_intros]: "readonly (peers_CountByStatus)"
  unfolding peers_CountByStatus_def by (intro readonly_intros)

lemma readonly_peers_ListByUserID [readonly_intros]: "readonly (peers_ListByUserID L i ps)"
  unfolding peers_ListByUserID_def by (intro readonly_intros)

end
