(* ===== verification/Account.thy ===== *)
theory Account
  imports Auth PeerStore
begin

text \<open>
  \<open>internal/account/service.go\<close>: what users do with their own account.
\<close>

section \<open>Reading\<close>

record SelfProfile =
  sp_user :: user
  sp_active_peers :: int
  sp_max_peers :: int

definition GetMe :: "libs \<Rightarrow> string \<Rightarrow> SelfProfile wop" where
  "GetMe L userID =
     (case uuid_parse L userID of
        None \<Rightarrow> fail ErrUUID
      | Some uid \<Rightarrow>
          tryE (users_FindByID uid) (\<lambda>row.
          case row of
            None \<Rightarrow> fail AccountErrUserNotFound
          | Some user \<Rightarrow>
              tryE (peers_CountActiveByUserID uid) (\<lambda>activePeers.
              ret \<lparr>sp_user = user, sp_active_peers = activePeers, sp_max_peers = u_max_peers user\<rparr>)))"

record SelfPeerListParams =
  spl_page :: int
  spl_page_size :: int
  spl_status :: string

definition ListMyPeers :: "libs \<Rightarrow> string \<Rightarrow> SelfPeerListParams \<Rightarrow> (PeerWithStudent list \<times> int) wop" where
  "ListMyPeers L userID params =
     (case uuid_parse L userID of
        None \<Rightarrow> fail ErrUUID
      | Some uid \<Rightarrow>
          peers_ListByUserID L uid \<lparr>pu_page = spl_page params, pu_page_size = spl_page_size params,
            pu_status = spl_status params\<rparr>)"

section \<open>Updating the profile\<close>

record SelfUpdateFields =
  s_display_name :: "string option"
  s_email :: "string option"
  s_phone :: "string option"
  s_wechat :: "string option"
  s_telegram :: "string option"

definition nullableUpdate :: "string option \<Rightarrow> OptionalStringUpdate" where
  "nullableUpdate value = \<lparr>upd_set = True, upd_value = value\<rparr>"

text \<open>The two regular expressions: \<open>\d\<close> and \<open>\s\<close> stand for ASCII characters only.\<close>

definition regex_space :: "char \<Rightarrow> bool" where
  "regex_space c \<longleftrightarrow> of_char c \<in> {0x09, 0x0A, 0x0C, 0x0D, 0x20 :: nat}"

definition match_phone :: "string \<Rightarrow> bool" where
  "match_phone s \<longleftrightarrow>
     s \<noteq> [] \<and> list_all (\<lambda>c. is_digit_char c \<or> c \<in> set ''+-()'' \<or> regex_space c) s"

definition match_space :: "string \<Rightarrow> bool" where
  "match_space s \<longleftrightarrow> list_ex regex_space s"

text \<open>One block of \<open>UpdateMe\<close> per field: absent, blank (which clears the column), or checked.\<close>

definition display_name_update :: "string option \<Rightarrow> goerr + OptionalStringUpdate" where
  "display_name_update v =
     (case v of
        None \<Rightarrow> Inr no_update
      | Some s \<Rightarrow>
          let trimmed = TrimSpace s in
          if trimmed = '''' then Inr (nullableUpdate None)
          else if length trimmed > 64 then Inl ErrDisplayNameTooLong
          else Inr (nullableUpdate (Some trimmed)))"

definition email_update :: "unicode \<Rightarrow> string option \<Rightarrow> goerr + OptionalStringUpdate" where
  "email_update t v =
     (case v of
        None \<Rightarrow> Inr no_update
      | Some s \<Rightarrow>
          let trimmed = TrimSpace s in
          if trimmed = '''' then Inr (nullableUpdate None)
          else
            let trimmed = ToLower t trimmed in
            if length trimmed > 255 \<or> \<not> Contains trimmed ''@'' then Inl ErrInvalidEmail
            else Inr (nullableUpdate (Some trimmed)))"

definition phone_update :: "string option \<Rightarrow> goerr + OptionalStringUpdate" where
  "phone_update v =
     (case v of
        None \<Rightarrow> Inr no_update
      | Some s \<Rightarrow>
          let trimmed = TrimSpace s in
          if trimmed = '''' then Inr (nullableUpdate None)
          else if length trimmed > 32 then Inl ErrInvalidPhone
          else if \<not> match_phone trimmed then Inl ErrInvalidPhone
          else Inr (nullableUpdate (Some trimmed)))"

definition wechat_update :: "string option \<Rightarrow> goerr + OptionalStringUpdate" where
  "wechat_update v =
     (case v of
        None \<Rightarrow> Inr no_update
      | Some s \<Rightarrow>
          let trimmed = TrimSpace s in
          if trimmed = '''' then Inr (nullableUpdate None)
          else if length trimmed > 64 then Inl ErrInvalidWechat
          else if match_space trimmed then Inl ErrInvalidWechat
          else Inr (nullableUpdate (Some trimmed)))"

definition telegram_update :: "string option \<Rightarrow> goerr + OptionalStringUpdate" where
  "telegram_update v =
     (case v of
        None \<Rightarrow> Inr no_update
      | Some s \<Rightarrow>
          let trimmed = TrimSpace s in
          if trimmed = '''' then Inr (nullableUpdate None)
          else if length trimmed > 64 then Inl ErrInvalidTelegram
          else Inr (nullableUpdate (Some trimmed)))"

definition self_update_fields :: "libs \<Rightarrow> SelfUpdateFields \<Rightarrow> goerr + UserUpdateFields" where
  "self_update_fields L f =
     (case display_name_update (s_display_name f) of Inl e \<Rightarrow> Inl e | Inr d \<Rightarrow>
      (case email_update (uni L) (s_email f) of Inl e \<Rightarrow> Inl e | Inr m \<Rightarrow>
      (case phone_update (s_phone f) of Inl e \<Rightarrow> Inl e | Inr p \<Rightarrow>
      (case wechat_update (s_wechat f) of Inl e \<Rightarrow> Inl e | Inr c \<Rightarrow>
      (case telegram_update (s_telegram f) of Inl e \<Rightarrow> Inl e | Inr t \<Rightarrow>
        Inr (empty_fields\<lparr>f_display_name := d, f_email := m, f_phone := p, f_wechat := c,
               f_telegram := t\<rparr>))))))"

definition UpdateMe :: "libs \<Rightarrow> string \<Rightarrow> SelfUpdateFields \<Rightarrow> user option wop" where
  "UpdateMe L userID flds =
     (case uuid_parse L userID of
        None \<Rightarrow> fail ErrUUID
      | Some uid \<Rightarrow>
          tryE (users_FindByID uid) (\<lambda>row.
          case row of
            None \<Rightarrow> fail AccountErrUserNotFound
          | Some user \<Rightarrow>
              if \<not> IsActive user then fail AuthErrAccountInactive
              else
                (case self_update_fields L flds of
                   Inl err \<Rightarrow> fail err
                 | Inr updateFields \<Rightarrow>
                     tryE (users_Update uid updateFields) (\<lambda>_.
                     users_FindByID uid))))"

section \<open>Changing the password\<close>

definition ChangePassword :: "libs \<Rightarrow> string \<Rightarrow> string \<Rightarrow> string \<Rightarrow> unit wop" where
  "ChangePassword L userID currentPassword newPassword =
     (case uuid_parse L userID of
        None \<Rightarrow> fail ErrUUID
      | Some uid \<Rightarrow>
          tryE (users_FindByID uid) (\<lambda>row.
          case row of
            None \<Rightarrow> fail AccountErrUserNotFound
          | Some user \<Rightarrow>
              if \<not> IsActive user then fail AuthErrAccountInactive
              else if \<not> CheckPassword L (u_password user) currentPassword then fail ErrInvalidPassword
              else if TrimSpace currentPassword = TrimSpace newPassword then fail ErrPasswordReuse
              else
                (case ValidatePassword (uni L) newPassword of
                   Some _ \<Rightarrow> fail ErrPasswordTooWeak
                 | None \<Rightarrow>
                     tryE (HashPassword L newPassword) (\<lambda>hash.
                     users_UpdatePassword uid hash))))"

section \<open>Lemmas\<close>

lemma readonly_GetMe: "readonly (GetMe L i)"
  unfolding GetMe_def by (intro readonly_intros)

lemma readonly_ListMyPeers: "readonly (ListMyPeers L i p)"
  unfolding ListMyPeers_def by (intro readonly_intros)

lemma varchar_ok_bytes: "length s \<le> n \<Longrightarrow> varchar_ok n s"
  unfolding varchar_ok_def using length_runes le_trans by blast

text \<open>A checked field fits its column.\<close>

lemma field_updates_fit:
  "display_name_update v = Inr d \<Longrightarrow> opt_field_ok 64 d"
  "email_update t v = Inr d \<Longrightarrow> opt_field_ok 255 d"
  "phone_update v = Inr d \<Longrightarrow> opt_field_ok 32 d"
  "wechat_update v = Inr d \<Longrightarrow> opt_field_ok 64 d"
  "telegram_update v = Inr d \<Longrightarrow> opt_field_ok 64 d"
  by (auto simp add: display_name_update_def email_update_def phone_update_def wechat_update_def
      telegram_update_def no_update_def nullableUpdate_def opt_field_ok_def varchar_opt_ok_def Let_def
      intro: varchar_ok_bytes split: option.splits if_splits)

lemma self_update_fields_Inr:
  assumes "self_update_fields L f = Inr g"
  shows "user_fields_ok g" "f_status g = None" "f_max_peers g = None"
    "email_update (uni L) (s_email f) = Inr (f_email g)" "phone_update (s_phone f) = Inr (f_phone g)"
    "wechat_update (s_wechat f) = Inr (f_wechat g)"
    "display_name_update (s_display_name f) = Inr (f_display_name g)"
    "telegram_update (s_telegram f) = Inr (f_telegram g)"
  using assms
  by (auto simp add: self_update_fields_def user_fields_ok_def empty_fields_def field_updates_fit
      split: sum.splits)

end
