(* ===== verification/Admin.thy ===== *)
theory Admin
  imports InviteStore PeerStore
begin

text \<open>
  \<open>internal/admin/service.go\<close>: the operations of administrators on users, peers and invites.
\<close>

section \<open>Summary\<close>

record Summary =
  UsersTotal :: int
  UsersActive :: int
  UsersSuspended :: int
  PeersActive :: int
  PeersDisconnected :: int
  PeersRevoked :: int
  InvitesTotal :: int
  InvitesAvailable :: int
  InvitesExpired :: int

definition GetSummary :: "Summary wop" where
  "GetSummary =
     tryE users_CountByStatus (\<lambda>userCounts.
     tryE peers_CountByStatus (\<lambda>peerCounts.
     tryE invites_CountByState (\<lambda>inviteCounts.
     ret \<lparr>UsersTotal = map_get userCounts ''active'' + map_get userCounts ''suspended'' + map_get userCounts ''deleted'',
          UsersActive = map_get userCounts ''active'', UsersSuspended = map_get userCounts ''suspended'',
          PeersActive = map_get peerCounts ''active'', PeersDisconnected = map_get peerCounts ''disconnected'',
          PeersRevoked = map_get peerCounts ''revoked'',
          InvitesTotal = map_get inviteCounts ''available'' + map_get inviteCounts ''used_up'' + map_get inviteCounts ''expired'',
          InvitesAvailable = map_get inviteCounts ''available'', InvitesExpired = map_get inviteCounts ''expired''\<rparr>)))"

section \<open>Users\<close>

definition ListUsers :: "libs \<Rightarrow> UserListParams \<Rightarrow> (user list \<times> int) wop" where
  "ListUsers L params = users_List L params"

definition GetUser :: "libs \<Rightarrow> string \<Rightarrow> user wop" where
  "GetUser L userID =
     (case uuid_parse L userID of
        None \<Rightarrow> fail ErrUUID
      | Some uid \<Rightarrow>
          tryE (users_FindByID uid) (\<lambda>row.
          case row of None \<Rightarrow> fail AdminErrUserNotFound | Some user \<Rightarrow> ret user))"

record AdminUserUpdateFields =
  au_max_peers :: "int option"
  au_status :: "string option"

definition UpdateUser :: "libs \<Rightarrow> string \<Rightarrow> AdminUserUpdateFields \<Rightarrow> user wop" where
  "UpdateUser L userID flds =
     (case uuid_parse L userID of
        None \<Rightarrow> fail ErrUUID
      | Some uid \<Rightarrow>
          if (case au_max_peers flds of None \<Rightarrow> False | Some n \<Rightarrow> n < 0) then fail ErrInvalidMaxPeers
          else if (case au_status flds of None \<Rightarrow> False | Some s \<Rightarrow> s \<noteq> ''active'' \<and> s \<noteq> ''suspended'') then fail ErrInvalidStatus
          else
            tryE (users_Update uid (empty_fields\<lparr>UserUpdateFields.f_max_peers := au_max_peers flds,
                                                f_status := au_status flds\<rparr>)) (\<lambda>_.
            tryE (users_FindByID uid) (\<lambda>row.
            case row of None \<Rightarrow> fail AdminErrUserNotFound | Some user \<Rightarrow> ret user)))"

definition ListUserPeers :: "libs \<Rightarrow> string \<Rightarrow> PeerListByUserParams \<Rightarrow> (PeerWithStudent list \<times> int) wop" where
  "ListUserPeers L userID params =
     (case uuid_parse L userID of
        None \<Rightarrow> fail ErrUUID
      | Some uid \<Rightarrow> peers_ListByUserID L uid params)"

definition VerifyAdmin :: "libs \<Rightarrow> string \<Rightarrow> user wop" where
  "VerifyAdmin L userID =
     (case uuid_parse L userID of
        None \<Rightarrow> fail ErrUUID
      | Some uid \<Rightarrow>
          tryE (users_FindByID uid) (\<lambda>row.
          case row of
            None \<Rightarrow> fail AdminErrUserNotFound
          | Some user \<Rightarrow> if u_role user \<noteq> ''admin'' then fail ErrNotAdmin else ret user))"

section \<open>Peers\<close>

definition ListPeers :: "libs \<Rightarrow> PeerListParams \<Rightarrow> (PeerWithStudent list \<times> int) wop" where
  "ListPeers L params = peers_List L params"

definition GetPeer :: "libs \<Rightarrow> string \<Rightarrow> peer wop" where
  "GetPeer L peerID =
     (case uuid_parse L peerID of
        None \<Rightarrow> fail ErrUUID
      | Some pid \<Rightarrow>
          tryE (peers_FindByID pid) (\<lambda>row.
          case row of None \<Rightarrow> fail ErrPeerNotFound | Some p \<Rightarrow> ret p))"

definition DisconnectPeer :: "libs \<Rightarrow> string \<Rightarrow> unit wop" where
  "DisconnectPeer L peerID =
     (case uuid_parse L peerID of
        None \<Rightarrow> fail ErrUUID
      | Some pid \<Rightarrow>
          tryE (peers_FindByID pid) (\<lambda>row.
          case row of
            None \<Rightarrow> fail ErrPeerNotFound
          | Some _ \<Rightarrow> peers_UpdateStatus pid ''disconnected''))"

definition RevokePeer :: "libs \<Rightarrow> string \<Rightarrow> unit wop" where
  "RevokePeer L peerID =
     (case uuid_parse L peerID of
        None \<Rightarrow> fail ErrUUID
      | Some pid \<Rightarrow>
          tryE (peers_FindByID pid) (\<lambda>row.
          case row of
            None \<Rightarrow> fail ErrPeerNotFound
          | Some _ \<Rightarrow> peers_UpdateStatus pid ''revoked''))"

section \<open>Invites\<close>

definition ListInvites :: "InviteListParams \<Rightarrow> (invite list \<times> int) wop" where
  "ListInvites params = invites_List params"

definition inviteCodeCharset :: string where
  "inviteCodeCharset = ''ABCDEFGHIJKLMNOPQRSTUVWXYZ0123456789''"

text \<open>\<open>rand.Int\<close> below the length of the character set; the source of randomness may fail.\<close>

definition rand_index :: "nat wop" where
  "rand_index = ext_call ErrRand (tryE fresh_uuid (\<lambda>u. ret (nat (uint u mod 36))))"

fun code_part :: "nat \<Rightarrow> string wop" where
  "code_part 0 = ret ''''"
| "code_part (Suc n) =
     tryE rand_index (\<lambda>idx.
     tryE (code_part n) (\<lambda>rest.
     ret (inviteCodeCharset ! idx # rest)))"

definition generateInviteCode :: "string wop" where
  "generateInviteCode =
     tryE (code_part 4) (\<lambda>p1.
     tryE (code_part 4) (\<lambda>p2.
     ret (''SCNET-'' @ p1 @ ''-'' @ p2)))"

text \<open>\<open>AddDate(0, 0, days)\<close>, in a time zone without shifts.\<close>

definition add_days :: "time \<Rightarrow> int \<Rightarrow> time" where
  "add_days now days = now + days * 86400000000000"

definition CreateInvite :: "libs \<Rightarrow> string \<Rightarrow> int \<Rightarrow> int \<Rightarrow> invite wop" where
  "CreateInvite L createdBy maxUses expiresDays =
     (case uuid_parse L createdBy of
        None \<Rightarrow> fail ErrUUID
      | Some creatorID \<Rightarrow>
          if maxUses < 1 then fail ErrInvalidMaxUses
          else if expiresDays < 1 then fail ErrInvalidExpiry
          else
            tryE generateInviteCode (\<lambda>code.
            tryE time_now (\<lambda>now.
            tryE fresh_uuid (\<lambda>i.
            tryE time_now (\<lambda>now'.
            invites_Create \<lparr>i_id = i, i_code = code, i_created_by = creatorID, i_used_by = None,
              i_max_uses = maxUses, i_use_count = 0, i_expires_at = Some (add_days now expiresDays),
              i_created_at = now'\<rparr>)))))"

definition UpdateInvite :: "libs \<Rightarrow> string \<Rightarrow> InviteUpdateFields \<Rightarrow> invite option wop" where
  "UpdateInvite L inviteID flds =
     (case uuid_parse L inviteID of
        None \<Rightarrow> fail ErrUUID
      | Some iid \<Rightarrow>
          tryE (invites_FindByID iid) (\<lambda>row.
          case row of
            None \<Rightarrow> fail ErrInviteNotFound
          | Some iv \<Rightarrow>
              if (case f_max_uses flds of None \<Rightarrow> False | Some n \<Rightarrow> n < 1 \<or> n < i_use_count iv) then fail ErrInvalidMaxUses
              else
                tryE (invites_Update iid flds) (\<lambda>_.
                invites_FindByID iid)))"

definition DeleteInvite :: "libs \<Rightarrow> string \<Rightarrow> unit wop" where
  "DeleteInvite L inviteID =
     (case uuid_parse L inviteID of
        None \<Rightarrow> fail ErrUUID
      | Some iid \<Rightarrow>
          tryE (invites_FindByID iid) (\<lambda>row.
          case row of
            None \<Rightarrow> fail ErrInviteNotFound
          | Some iv \<Rightarrow>
              if i_use_count iv > 0 \<or> i_used_by iv \<noteq> None then fail ErrInviteUsed
              else invites_Delete iid))"

section \<open>Lemmas\<close>

lemma readonly_admin [readonly_intros]:
  "readonly GetSummary" "readonly (ListUsers L up)" "readonly (GetUser L i)" "readonly (ListUserPeers L i pp)"
  "readonly (VerifyAdmin L i)" "readonly (ListPeers L lp)" "readonly (GetPeer L i)" "readonly (ListInvites ip)"
  unfolding GetSummary_def ListUsers_def GetUser_def ListUserPeers_def VerifyAdmin_def ListPeers_def
    GetPeer_def ListInvites_def
  by (intro readonly_intros)+

text \<open>Drawing random characters changes nothing but counters and the clock.\<close>

definition drew :: "world \<Rightarrow> world \<Rightarrow> bool" where
  "drew w w' \<longleftrightarrow> users w' = users w \<and> invites w' = invites w \<and> peers w' = peers w \<and>
     pool w' = pool w \<and> device w' = device w \<and> server_key w' = server_key w"

lemma code_part_wp:
  "wp (code_part n) (\<lambda>r w'. drew w w' \<and>
     (\<forall>s. r = Inr s \<longrightarrow> length s = n \<and> set s \<subseteq> set inviteCodeCharset)) w"
proof (induction n arbitrary: w)
  case 0
  then show ?case by (simp add: wp_rules drew_def)
next
  case (Suc n)
  have cs: "inviteCodeCharset ! nat (i mod 36) \<in> set inviteCodeCharset" for i :: int
    by (rule nth_mem) (simp add: inviteCodeCharset_def nat_less_iff)
  show ?case
    by (auto simp add: wp_rules rand_index_def drew_def cs intro!: wp_mono [OF Suc])
qed

lemma generateInviteCode_wp:
  "wp generateInviteCode (\<lambda>r w'. drew w w' \<and>
     (\<forall>s. r = Inr s \<longrightarrow> (\<exists>p q. s = ''SCNET-'' @ p @ ''-'' @ q \<and> length p = 4 \<and> length q = 4 \<and>
        set p \<union> set q \<subseteq> set inviteCodeCharset))) w"
  unfolding generateInviteCode_def
  by (auto simp add: wp_rules drew_def intro!: wp_mono [OF code_part_wp]) blast?

end
