(* ===== verification/Leases.thy ===== *)
theory Leases
  imports IPAM
begin

text \<open>
  The contract between the peer manager and the address allocator, as a locale: what a client
  may rely on of \<open>Allocate\<close> and \<open>Release\<close>, and what follows for any sequence of leases. The
  interpretation at the end shows that the allocator of \<open>internal/peer/ipam.go\<close> keeps the
  contract on every IPv4 subnet.
\<close>

section \<open>Clients\<close>

text \<open>
  A client takes addresses and gives back addresses it holds; \<open>lease_run\<close> plays such a sequence
  on an allocator and keeps the book of the live leases.
\<close>

datatype 'a lease_event = Take | Give 'a

fun lease_run ::
  "('s, 'e, 'a) op \<Rightarrow> ('a \<Rightarrow> ('s, 'e, unit) op) \<Rightarrow> 'a lease_event list \<Rightarrow> 's \<times> 'a list \<Rightarrow> 's \<times> 'a list" where
  "lease_run alloc release [] (s, book) = (s, book)"
| "lease_run alloc release (Take # es) (s, book) =
     (case alloc s of
        (Inr a, s') \<Rightarrow> lease_run alloc release es (s', book @ [a])
      | (Inl _, s') \<Rightarrow> lease_run alloc release es (s', book))"
| "lease_run alloc release (Give a # es) (s, book) =
     (if a \<in> set book
      then lease_run alloc release es (snd (release a s), remove1 a book)
      else lease_run alloc release es (s, book))"

section \<open>The contract\<close>

locale address_pool =
  fixes alloc :: "'s \<Rightarrow> ('e + 'a) \<times> 's"
    and release :: "'a \<Rightarrow> 's \<Rightarrow> ('e + unit) \<times> 's"
    and held :: "'s \<Rightarrow> 'a set"
    and hosts :: "'s \<Rightarrow> 'a set"
    and ok :: "'s \<Rightarrow> bool"
  assumes alloc_Inr: "ok s \<Longrightarrow> alloc s = (Inr a, s') \<Longrightarrow>
            ok s' \<and> hosts s' = hosts s \<and> a \<in> hosts s \<and> a \<notin> held s \<and> held s' = insert a (held s)"
    and alloc_Inl: "ok s \<Longrightarrow> alloc s = (Inl e, s') \<Longrightarrow> s' = s \<and> hosts s \<subseteq> held s"
    and release_eff: "ok s \<Longrightarrow> release a s = (r, s') \<Longrightarrow>
            r = Inr () \<and> ok s' \<and> hosts s' = hosts s \<and> held s' = held s - {a}"
begin

lemma alloc_succeeds_iff:
  assumes "ok s"
  shows "(\<exists>a s'. alloc s = (Inr a, s')) \<longleftrightarrow> \<not> hosts s \<subseteq> held s"
proof
  assume "\<exists>a s'. alloc s = (Inr a, s')"
  with alloc_Inr [OF assms] show "\<not> hosts s \<subseteq> held s" by blast
next
  assume n: "\<not> hosts s \<subseteq> held s"
  obtain r s' where al: "alloc s = (r, s')" by force
  with alloc_Inl [OF assms] n show "\<exists>a s'. alloc s = (Inr a, s')" by (cases r) auto
qed

text \<open>Giving an address back undoes taking it, and it can be taken again.\<close>

lemma take_give:
  assumes "ok s" "alloc s = (Inr a, s')" "release a s' = (r, s'')"
  shows "held s'' = held s" "ok s''"
  using alloc_Inr [OF assms(1,2)] release_eff [OF _ assms(3)] by auto

text \<open>A book: live leases, all different, all held, all of them hosts.\<close>

definition book_ok :: "'s \<times> 'a list \<Rightarrow> bool" where
  "book_ok p \<longleftrightarrow> (case p of (s, book) \<Rightarrow>
     ok s \<and> distinct book \<and> set book \<subseteq> held s \<and> set book \<subseteq> hosts s)"

lemma book_take:
  "book_ok (s, book) \<Longrightarrow> alloc s = (Inr a, s') \<Longrightarrow> book_ok (s', book @ [a])"
  using alloc_Inr [of s a s'] by (auto simp add: book_ok_def)

lemma book_give:
  "book_ok (s, book) \<Longrightarrow> release a s = (r, s') \<Longrightarrow> book_ok (s', remove1 a book)"
  using release_eff [of s a r s'] by (auto simp add: book_ok_def)

lemma book_run: "book_ok (s, book) \<Longrightarrow> book_ok (lease_run alloc release es (s, book))"
proof (induction es arbitrary: s book)
  case Nil
  then show ?case by simp
next
  case (Cons e es)
  show ?case
  proof (cases e)
    case Take
    obtain r s' where al: "alloc s = (r, s')" by force
    have "ok s" using Cons.prems by (simp add: book_ok_def)
    show ?thesis
    proof (cases r)
      case (Inl err)
      with al alloc_Inl \<open>ok s\<close> have "s' = s" by blast
      with Take al Inl Cons show ?thesis by simp
    next
      case (Inr a)
      with book_take Cons.prems al have "book_ok (s', book @ [a])" by blast
      with Take al Inr Cons.IH show ?thesis by simp
    qed
  next
    case (Give a)
    obtain r s' where re: "release a s = (r, s')" by force
    with Cons.prems book_give have "book_ok (s', remove1 a book)" by blast
    with Give re Cons show ?thesis by simp
  qed
qed

text \<open>No sequence of leases gives one address to two clients, or more addresses than there are.\<close>

lemma run_distinct:
  assumes "ok s" "lease_run alloc release es (s, []) = (s', book)"
  shows "distinct book" "set book \<subseteq> held s'" "set book \<subseteq> hosts s'"
  using book_run [of s "[]" es] assms by (auto simp add: book_ok_def)

lemma hosts_run:
  "book_ok (s, book) \<Longrightarrow> hosts (fst (lease_run alloc release es (s, book))) = hosts s"
proof (induction es arbitrary: s book)
  case Nil
  then show ?case by simp
next
  case (Cons e es)
  then have "ok s" by (simp add: book_ok_def)
  show ?case
  proof (cases e)
    case Take
    obtain r s' where al: "alloc s = (r, s')" by force
    show ?thesis
    proof (cases r)
      case (Inl err)
      with al alloc_Inl \<open>ok s\<close> have "s' = s" by blast
      with Take al Inl Cons show ?thesis by simp
    next
      case (Inr a)
      with book_take Cons.prems al have "book_ok (s', book @ [a])" by blast
      moreover have "hosts s' = hosts s" using alloc_Inr [OF \<open>ok s\<close>] al Inr by blast
      ultimately show ?thesis using Take al Inr Cons.IH by simp
    qed
  next
    case (Give a)
    obtain r s' where re: "release a s = (r, s')" by force
    with Cons.prems book_give have "book_ok (s', remove1 a book)" by blast
    moreover have "hosts s' = hosts s" using release_eff [OF \<open>ok s\<close> re] by blast
    ultimately show ?thesis using Give re Cons by simp
  qed
qed

lemma run_capacity:
  assumes "ok s" "finite (hosts s)" "lease_run alloc release es (s, []) = (s', book)"
  shows "length book \<le> card (hosts s)"
proof -
  have "book_ok (s, [])" using assms(1) by (simp add: book_ok_def)
  then have "hosts s' = hosts s" using hosts_run [of s "[]" es] assms(3) by simp
  with run_distinct [OF assms(1,3)] have "card (set book) \<le> card (hosts s)"
    using assms(2) by (intro card_mono) auto
  with run_distinct(1) [OF assms(1,3)] show ?thesis by (simp add: distinct_card)
qed

end

section \<open>The allocator keeps the contract\<close>

interpretation pool_leases: address_pool Allocate Release used "\<lambda>i. host_ips (subnet i)" "\<lambda>i. net4 (subnet i)"
proof
  fix i i' :: ipam and a :: string
  assume "net4 (subnet i)" "Allocate i = (Inr a, i')"
  from Allocate_Inr [OF this]
  show "net4 (subnet i') \<and> host_ips (subnet i') = host_ips (subnet i) \<and> a \<in> host_ips (subnet i) \<and>
      a \<notin> used i \<and> used i' = insert a (used i)"
    using \<open>net4 (subnet i)\<close> by simp
next
  fix i i' :: ipam and e :: goerr
  assume n: "net4 (subnet i)" and al: "Allocate i = (Inl e, i')"
  have "e = ErrNoIPAvailable" by (rule Allocate_result [OF n]) (simp add: al)
  with n al Allocate_exhausted [OF n] Allocate_Inl [OF al]
  show "i' = i \<and> host_ips (subnet i) \<subseteq> used i" by simp
next
  fix i i' :: ipam and a :: string and r :: "goerr + unit"
  assume "net4 (subnet i)" "Release a i = (r, i')"
  then show "r = Inr () \<and> net4 (subnet i') \<and> host_ips (subnet i') = host_ips (subnet i) \<and>
      used i' = used i - {a}"
    by (auto simp add: Release_eq)
qed

lemma finite_host_ips: "finite (host_ips n)"
  by (simp add: host_ips_def finite_host_words)

text \<open>The number of addresses of a subnet: all but the first and the last.\<close>

lemma card_host_ips:
  assumes "net4 n"
  shows "card (host_ips n) = 2 ^ (32 - mask_ones n) - 2"
proof -
  obtain a where a: "net_ip n = IP4 a" using assms by (auto simp add: net4_def)
  let ?h = "32 - mask_ones n"
  have al: "unat a = unat a div 2 ^ ?h * 2 ^ ?h" using net4_aligned [OF assms a] by simp
  let ?f = "\<lambda>k. a + of_nat k"
  have eq: "host_words n = ?f ` {1 ..< 2 ^ ?h - 1}"
  proof (rule set_eqI)
    fix w
    show "w \<in> host_words n \<longleftrightarrow> w \<in> ?f ` {1 ..< 2 ^ ?h - 1}"
      unfolding host_words_offset [OF assms a refl] image_iff by (auto simp only: atLeastLessThan_iff)
  qed
  have "inj_on ?f {1 ..< 2 ^ ?h - 1}"
  proof (rule inj_onI)
    fix j k assume jk: "j \<in> {1 ..< 2 ^ ?h - 1}" "k \<in> {1 ..< 2 ^ ?h - 1}" "?f j = ?f k"
    then have "j < 2 ^ ?h" "k < 2 ^ ?h" by auto
    with aligned_add [OF al] jk(3) show "j = k" by (metis add_left_cancel diff_le_self)
  qed
  then have "card (host_words n) = 2 ^ ?h - 1 - 1" by (simp only: eq card_image) simp
  moreover have "card (host_ips n) = card (host_words n)"
    unfolding host_ips_def by (intro card_image inj_onI) (metis ip4_string_inj)
  ultimately show ?thesis by simp
qed

end
