(* ===== verification/PeerManager.thy ===== *)
theory PeerManager
  imports PeerStore Leases
begin

text \<open>
  \<open>internal/peer/manager.go\<close>: the peer manager, which keeps the table \<open>peers\<close>, the address
  allocator and the WireGuard device in step. Logging is left out.
\<close>

section \<open>Device requests\<close>

definition ConfigureDevice :: "libs \<Rightarrow> wg_config \<Rightarrow> unit wop" where
  "ConfigureDevice L cfg = ext_call ErrWG (modify (\<lambda>w. w\<lparr>device := wg_apply L cfg (device w)\<rparr>))"

definition Device :: "wg_device wop" where
  "Device = ext_call ErrWG (gets device)"

text \<open>\<open>wgtypes.Config{Peers: cs}\<close>, and the two peer configurations the manager sends.\<close>

definition peers_config :: "peer_config list \<Rightarrow> wg_config" where
  "peers_config cs =
     \<lparr>cfg_private_key = None, cfg_listen_port = None, cfg_replace_peers = False, cfg_peers = cs\<rparr>"

definition add_config :: "wgkey \<Rightarrow> goip option \<Rightarrow> peer_config" where
  "add_config k ip = \<lparr>pc_key = k, pc_remove = False, pc_replace_ips = False, pc_ips = [(ip, 32)]\<rparr>"

definition remove_config :: "wgkey \<Rightarrow> peer_config" where
  "remove_config k = \<lparr>pc_key = k, pc_remove = True, pc_replace_ips = False, pc_ips = []\<rparr>"

definition ServerPublicKey :: "libs \<Rightarrow> world \<Rightarrow> wgkey" where
  "ServerPublicKey L w = PublicKey L (server_key w)"

definition ListenPort :: "int wop" where
  "ListenPort = gets listen_port"

record PeerRegistration =
  r_public_key :: string
  r_assigned_ip :: string
  r_allowed_ips :: "string list"
  r_endpoint :: string
  r_server_public_key :: string
  r_persistent_keepalive :: int
  r_connected :: bool

definition registration :: "libs \<Rightarrow> string \<Rightarrow> string \<Rightarrow> bool \<Rightarrow> world \<Rightarrow> PeerRegistration" where
  "registration L publicKey assignedIP connected w =
     \<lparr>r_public_key = publicKey, r_assigned_ip = assignedIP,
      r_allowed_ips = [net_string (ip6 L) (subnet (pool w))], r_endpoint = endpoint w,
      r_server_public_key = key_string L (ServerPublicKey L w), r_persistent_keepalive = 25,
      r_connected = connected\<rparr>"

section \<open>Adding a peer\<close>

text \<open>The first half of \<open>AddPeer\<close>, up to the allocation: it decides and changes nothing.\<close>

definition AddPeer_admit :: "libs \<Rightarrow> string \<Rightarrow> wgkey \<Rightarrow> (uuid \<times> peer option) wop" where
  "AddPeer_admit L userID pubKey =
     (case uuid_parse L userID of
        None \<Rightarrow> fail ErrUUID
      | Some uid \<Rightarrow>
          tryE (users_FindByID uid) (\<lambda>row.
          case row of
            None \<Rightarrow> fail PeerErrAccountInactive
          | Some user \<Rightarrow>
              if \<not> IsActive user then fail PeerErrAccountInactive
              else
                tryE (peers_CountActiveByUserID uid) (\<lambda>count.
                if count \<ge> u_max_peers user then fail ErrTooManyPeers
                else
                  tryE (peers_FindActiveByUserID uid) (\<lambda>ps.
                  if \<exists>p \<in> set ps. p_public_key p = key_string L pubKey then fail ErrPeerExists
                  else
                    tryE (peers_FindByPublicKey (key_string L pubKey)) (\<lambda>existingPeer.
                    case existingPeer of
                      None \<Rightarrow> ret (uid, None)
                    | Some q \<Rightarrow>
                        if p_user_id q \<noteq> uid then fail ErrPeerExists
                        else if p_status q = ''active'' then fail ErrPeerExists
                        else if p_status q \<noteq> ''disconnected'' then fail ErrPeerRevoked
                        else ret (uid, Some q))))))"

text \<open>
  The second half: allocate, configure the device, write the row, undoing what was done when a
  later step fails (the error of the undoing request is dropped).
\<close>

definition AddPeer_undo :: "libs \<Rightarrow> wgkey \<Rightarrow> string \<Rightarrow> goerr \<Rightarrow> PeerRegistration wop" where
  "AddPeer_undo L pubKey assignedIP err =
     ignoreE (ConfigureDevice L (peers_config [remove_config pubKey]))
       (ignoreE (on_pool (Release assignedIP)) (fail err))"

definition AddPeer_register ::
  "libs \<Rightarrow> wgkey \<Rightarrow> uuid \<Rightarrow> peer option \<Rightarrow> PeerRegistration wop" where
  "AddPeer_register L pubKey uid existingPeer =
     tryE (on_pool Allocate) (\<lambda>assignedIP.
     caseE (ConfigureDevice L (peers_config [add_config pubKey (ParseIP (ip6 L) assignedIP)]))
       (\<lambda>err. ignoreE (on_pool (Release assignedIP)) (fail err)) (\<lambda>_.
     case existingPeer of
       Some q \<Rightarrow>
         caseE (peers_Activate (p_id q) assignedIP) (AddPeer_undo L pubKey assignedIP) (\<lambda>_.
         gets (registration L (p_public_key q) assignedIP False))
     | None \<Rightarrow>
         tryE fresh_uuid (\<lambda>i.
         caseE (peers_Create \<lparr>p_id = i, p_user_id = uid, p_public_key = key_string L pubKey,
                   p_assigned_ip = assignedIP, p_status = ''active'', p_last_seen = None,
                   p_created_at = 0, p_updated_at = 0\<rparr>)
           (AddPeer_undo L pubKey assignedIP) (\<lambda>_.
         gets (registration L (key_string L pubKey) assignedIP False)))))"

definition AddPeer :: "libs \<Rightarrow> string \<Rightarrow> wgkey \<Rightarrow> PeerRegistration wop" where
  "AddPeer L userID pubKey =
     tryE (AddPeer_admit L userID pubKey) (\<lambda>(uid, existingPeer).
     AddPeer_register L pubKey uid existingPeer)"

lemma AddPeer_code [code]:
  "AddPeer L userID pubKey w =
     (case AddPeer_admit L userID pubKey w of
        (r, w') \<Rightarrow> (case r of Inl e \<Rightarrow> (Inl e, w')
          | Inr p \<Rightarrow> (case p of (uid, ex) \<Rightarrow> AddPeer_register L pubKey uid ex w')))"
  by (simp add: AddPeer_def tryE_def caseE_def fail_def split: prod.splits sum.splits)

section \<open>Removing a peer, changing its key\<close>

text \<open>The target of the three operations that work on one active peer of the user.\<close>

definition find_target :: "libs \<Rightarrow> string \<Rightarrow> string \<Rightarrow> peer wop" where
  "find_target L userID pubKey =
     (case uuid_parse L userID of
        None \<Rightarrow> fail ErrUUID
      | Some uid \<Rightarrow>
          tryE (peers_FindActiveByUserID uid) (\<lambda>ps.
          case find (\<lambda>p. p_public_key p = pubKey) ps of
            None \<Rightarrow> fail ErrNoActivePeer
          | Some targetPeer \<Rightarrow> ret targetPeer))"

definition RemovePeer_commit :: "libs \<Rightarrow> string \<Rightarrow> peer \<Rightarrow> unit wop" where
  "RemovePeer_commit L pubKey targetPeer =
     (case ParseKey L pubKey of
        None \<Rightarrow> fail ErrParseKey
      | Some key \<Rightarrow>
          tryE (ConfigureDevice L (peers_config [remove_config key])) (\<lambda>_.
          tryE (peers_UpdateStatus (p_id targetPeer) ''disconnected'') (\<lambda>_.
          on_pool (Release (p_assigned_ip targetPeer)))))"

definition RemovePeer :: "libs \<Rightarrow> string \<Rightarrow> string \<Rightarrow> unit wop" where
  "RemovePeer L userID pubKey = tryE (find_target L userID pubKey) (RemovePeer_commit L pubKey)"

definition GetPeerConfig :: "libs \<Rightarrow> string \<Rightarrow> string \<Rightarrow> PeerRegistration wop" where
  "GetPeerConfig L userID pubKey =
     tryE (find_target L userID pubKey) (\<lambda>targetPeer.
     caseE Device
       (\<lambda>_. gets (registration L (p_public_key targetPeer) (p_assigned_ip targetPeer) False))
       (\<lambda>dev. gets (registration L (p_public_key targetPeer) (p_assigned_ip targetPeer)
                 (\<exists>p \<in> set (dev_peers dev). key_string L (wp_key p) = pubKey))))"

definition ReplaceKey :: "libs \<Rightarrow> string \<Rightarrow> wgkey \<Rightarrow> wgkey \<Rightarrow> unit wop" where
  "ReplaceKey L userID oldPubKey newPubKey =
     tryE (find_target L userID (key_string L oldPubKey)) (\<lambda>targetPeer.
     tryE (ConfigureDevice L (peers_config
            [remove_config oldPubKey,
             add_config newPubKey (ParseIP (ip6 L) (p_assigned_ip targetPeer))])) (\<lambda>_.
     peers_UpdatePublicKey (p_id targetPeer) (key_string L newPubKey)))"

section \<open>Reconciliation\<close>

text \<open>A later peer of the device with the same key string replaces an earlier one in the map.\<close>

definition wgPeersByKey :: "libs \<Rightarrow> wg_device \<Rightarrow> (string \<rightharpoonup> wg_peer)" where
  "wgPeersByKey L d = map_of (rev (map (\<lambda>p. (key_string L (wp_key p), p)) (dev_peers d)))"

text \<open>The loop over the active rows: missing ones are re-added, seen ones get their time.\<close>

fun reconcile_db :: "libs \<Rightarrow> (string \<rightharpoonup> wg_peer) \<Rightarrow> peer list \<Rightarrow> peer_config list \<Rightarrow> peer_config list wop" where
  "reconcile_db L m [] changes = ret changes"
| "reconcile_db L m (p # ps) changes =
     (case m (p_public_key p) of
        None \<Rightarrow>
          (case ParseKey L (p_public_key p) of
             None \<Rightarrow> reconcile_db L m ps changes
           | Some key \<Rightarrow>
               (case ParseIP (ip6 L) (p_assigned_ip p) of
                  None \<Rightarrow> reconcile_db L m ps changes
                | Some allowedIP \<Rightarrow> reconcile_db L m ps (changes @ [add_config key (Some allowedIP)])))
      | Some wgPeer \<Rightarrow>
          (case wp_handshake wgPeer of
             None \<Rightarrow> reconcile_db L m ps changes
           | Some t \<Rightarrow>
               tryE (peers_UpdateLastSeen (p_id p) t) (\<lambda>_. reconcile_db L m ps changes)))"

text \<open>The loop over the device's peers: those without an active row are removed.\<close>

definition reconcile_removals :: "(string \<rightharpoonup> wg_peer) \<Rightarrow> string set \<Rightarrow> string list \<Rightarrow> peer_config list" where
  "reconcile_removals m dbKeys keys =
     List.map_filter (\<lambda>key. if key \<in> dbKeys then None
        else map_option (\<lambda>wgPeer. remove_config (wp_key wgPeer)) (m key)) keys"

definition Reconcile :: "libs \<Rightarrow> unit wop" where
  "Reconcile L =
     tryE peers_ListActive (\<lambda>activePeers.
     tryE (forE (\<lambda>p. on_pool (Reserve (ip6 L) (p_assigned_ip p))) activePeers) (\<lambda>_.
     tryE Device (\<lambda>dev.
     tryE (reconcile_db L (wgPeersByKey L dev) activePeers []) (\<lambda>changes.
     tryE (gets ncalls) (\<lambda>moment.
     let keys = map_order L moment (remdups (map (\<lambda>p. key_string L (wp_key p)) (dev_peers dev)));
         changes' = changes @ reconcile_removals (wgPeersByKey L dev) (p_public_key ` set activePeers) keys
     in if changes' = [] then ret () else ConfigureDevice L (peers_config changes'))))))"

definition ActivePeerCount :: "int wop" where
  "ActivePeerCount = caseE Device (\<lambda>_. ret 0) (\<lambda>dev. ret (int (length (dev_peers dev))))"

section \<open>The server's key and the interface\<close>

text \<open>The rows with a readable key and address, as peer configurations.\<close>

definition row_configs :: "libs \<Rightarrow> bool \<Rightarrow> peer list \<Rightarrow> peer_config list" where
  "row_configs L replaceIPs ps =
     List.map_filter (\<lambda>p. case ParseKey L (p_public_key p) of
         None \<Rightarrow> None
       | Some k \<Rightarrow> (case ParseIP (ip6 L) (p_assigned_ip p) of
             None \<Rightarrow> None
           | Some ip \<Rightarrow> Some ((add_config k (Some ip))\<lparr>pc_replace_ips := replaceIPs\<rparr>))) ps"

definition RotateServerKey :: "libs \<Rightarrow> wgkey \<Rightarrow> wgkey wop" where
  "RotateServerKey L newKey =
     caseE peers_ListActive (\<lambda>err. fail (Wrapped ''rotate server key: list active peers'' err)) (\<lambda>existingPeers.
     caseE (ConfigureDevice L
              \<lparr>cfg_private_key = Some newKey, cfg_listen_port = None, cfg_replace_peers = True,
               cfg_peers = row_configs L True existingPeers\<rparr>)
       (\<lambda>err. fail (Wrapped ''rotate server key: configure device'' err)) (\<lambda>_.
     tryE (modify (\<lambda>w. w\<lparr>server_key := newKey\<rparr>)) (\<lambda>_.
     ret (PublicKey L newKey))))"

definition WGEnabled :: "bool wop" where
  "WGEnabled = caseE Device (\<lambda>_. ret False) (\<lambda>dev. ret (dev_key dev \<noteq> 0))"

definition enableWG :: "libs \<Rightarrow> unit wop" where
  "enableWG L =
     caseE peers_ListActive (\<lambda>err. fail (Wrapped ''enable wg: list active peers'' err)) (\<lambda>activePeers.
     tryE (gets server_key) (\<lambda>serverPrivateKey.
     tryE (gets listen_port) (\<lambda>listenPort.
     caseE (ConfigureDevice L
              \<lparr>cfg_private_key = Some serverPrivateKey, cfg_listen_port = Some listenPort,
               cfg_replace_peers = True, cfg_peers = row_configs L False activePeers\<rparr>)
       (\<lambda>err. fail (Wrapped ''enable wg: configure device'' err)) ret)))"

definition disableWG :: "libs \<Rightarrow> unit wop" where
  "disableWG L =
     caseE (ConfigureDevice L
              \<lparr>cfg_private_key = Some 0, cfg_listen_port = None, cfg_replace_peers = True, cfg_peers = []\<rparr>)
       (\<lambda>err. fail (Wrapped ''disable wg: configure device'' err)) ret"

definition SetWGEnabled :: "libs \<Rightarrow> bool \<Rightarrow> unit wop" where
  "SetWGEnabled L enabled = (if enabled then enableWG L else disableWG L)"

section \<open>Rules for the calls\<close>

lemma wp_ConfigureDevice [wp_rules]:
  "wp (ConfigureDevice L cfg) Q w =
     ((next_outcome w = Failed \<longrightarrow> Q (Inl ErrWG) (tick w)) \<and>
      (next_outcome w \<noteq> Failed \<longrightarrow> Q (Inr ()) ((tick w)\<lparr>device := wg_apply L cfg (device w)\<rparr>)))"
  by (simp add: ConfigureDevice_def wp_rules)

lemma readonly_Device [readonly_intros]: "readonly Device"
  unfolding Device_def by (intro readonly_intros)

lemma wp_peers_Activate [wp_rules]:
  "wp (peers_Activate i ip) Q w =
     ((next_outcome w = Failed \<longrightarrow> Q (Inl (Wrapped ''activate peer'' PgError)) (tick w)) \<and>
      (next_outcome w \<noteq> Failed \<longrightarrow> Q (Inr ()) ((tick w)\<lparr>peers := update_rows (\<lambda>p. p_id p = i)
          (\<lambda>p. p\<lparr>p_assigned_ip := ip, p_status := ''active'', p_updated_at := clock (tick w)\<rparr>)
          (peers w)\<rparr>)))"
  by (simp add: peers_Activate_def wp_rules)

lemma wp_peers_UpdateStatus:
  "varchar_ok 16 s \<Longrightarrow>
   wp (peers_UpdateStatus i s) Q w =
     ((next_outcome w = Failed \<longrightarrow> Q (Inl (Wrapped ''update peer status'' PgError)) (tick w)) \<and>
      (next_outcome w \<noteq> Failed \<longrightarrow> Q (Inr ()) ((tick w)\<lparr>peers := update_rows (\<lambda>p. p_id p = i)
          (\<lambda>p. p\<lparr>p_status := s, p_updated_at := clock (tick w)\<rparr>) (peers w)\<rparr>)))"
  by (simp add: peers_UpdateStatus_def wp_rules) (simp add: wp_def)

lemma peer_status_texts [simp]: "varchar_ok 16 ''disconnected''" "varchar_ok 16 ''revoked''" "varchar_ok 16 ''active''"
  by code_simp+

lemma wp_Allocate_I:
  assumes "net4 (subnet i)"
    and "host_ips (subnet i) \<subseteq> used i \<Longrightarrow> Q (Inl ErrNoIPAvailable) i"
    and "\<And>a. a \<in> host_ips (subnet i) \<Longrightarrow> a \<notin> used i \<Longrightarrow> Q (Inr a) (i\<lparr>used := insert a (used i)\<rparr>)"
  shows "wp Allocate Q i"
proof -
  obtain r i' where al: "Allocate i = (r, i')" by force
  show ?thesis
  proof (cases r)
    case (Inl e)
    have "e = ErrNoIPAvailable" by (rule Allocate_result [OF assms(1)]) (simp add: al Inl)
    with al Inl pool_leases.alloc_Inl [OF assms(1)] assms(2) show ?thesis by (simp add: wp_def)
  next
    case (Inr a)
    with al have "Allocate i = (Inr a, i')" by simp
    from Allocate_Inr [OF assms(1) this] assms(3) al Inr show ?thesis by (simp add: wp_def)
  qed
qed

lemma wp_Release [wp_rules]: "wp (Release a) Q i = Q (Inr ()) (i\<lparr>used := used i - {a}\<rparr>)"
  by (simp add: wp_def Release_eq)

section \<open>What \<open>AddPeer\<close> promises\<close>

lemma readonly_AddPeer_admit: "readonly (AddPeer_admit L userID k)"
  unfolding AddPeer_admit_def by (intro readonly_intros)

definition active_of :: "uuid \<Rightarrow> peer list \<Rightarrow> peer list" where
  "active_of uid ps = filter (\<lambda>p. p_user_id p = uid \<and> p_status p = ''active'') ps"

definition admitted :: "libs \<Rightarrow> string \<Rightarrow> wgkey \<Rightarrow> world \<Rightarrow> uuid \<Rightarrow> peer option \<Rightarrow> bool" where
  "admitted L userID k w uid ex \<longleftrightarrow>
     uuid_parse L userID = Some uid \<and>
     (\<exists>u. find (\<lambda>u. u_id u = uid) (users w) = Some u \<and> IsActive u \<and>
          int (length (active_of uid (peers w))) < u_max_peers u) \<and>
     ex = find (\<lambda>p. p_public_key p = key_string L k) (peers w) \<and>
     (\<forall>q. ex = Some q \<longrightarrow> p_user_id q = uid \<and> p_status q = ''disconnected'')"

lemma AddPeer_admit_wp:
  "wp (AddPeer_admit L userID k) (\<lambda>r w'. \<forall>uid ex. r = Inr (uid, ex) \<longrightarrow> admitted L userID k w uid ex) w"
  by (auto simp add: AddPeer_admit_def users_FindByID_def peers_CountActiveByUserID_def
      peers_FindActiveByUserID_def peers_FindByPublicKey_def wp_rules admitted_def active_of_def)

lemma AddPeer_admit_Inr:
  assumes "AddPeer_admit L userID k w = (Inr (uid, ex), w')"
  shows "stutters w w'" "admitted L userID k w uid ex"
  using readonlyD [OF readonly_AddPeer_admit assms] wp_I [OF AddPeer_admit_wp assms] by auto

text \<open>The rows of the table after a successful registration.\<close>

definition registered ::
  "peer option \<Rightarrow> uuid \<Rightarrow> string \<Rightarrow> string \<Rightarrow> uuid \<Rightarrow> time \<Rightarrow> peer list \<Rightarrow> peer list" where
  "registered ex uid key a i t ps =
     (case ex of
        Some q \<Rightarrow> update_rows (\<lambda>p. p_id p = p_id q)
                    (\<lambda>p. p\<lparr>p_assigned_ip := a, p_status := ''active'', p_updated_at := t\<rparr>) ps
      | None \<Rightarrow> ps @ [\<lparr>p_id = i, p_user_id = uid, p_public_key = key, p_assigned_ip = a,
                       p_status = ''active'', p_last_seen = None, p_created_at = t, p_updated_at = t\<rparr>])"

lemma AddPeer_register_wp:
  assumes n: "net4 (subnet (pool w))"
  shows "wp (AddPeer_register L k uid ex) (\<lambda>r w'.
     users w' = users w \<and> invites w' = invites w \<and> server_key w' = server_key w \<and>
     (\<forall>e. r = Inl e \<longrightarrow> peers w' = peers w \<and> pool w' = pool w) \<and>
     (\<forall>reg. r = Inr reg \<longrightarrow> (\<exists>a i t.
        a \<in> host_ips (subnet (pool w)) \<and> a \<notin> used (pool w) \<and>
        pool w' = (pool w)\<lparr>used := insert a (used (pool w))\<rparr> \<and>
        peers w' = registered ex uid (key_string L k) a i t (peers w) \<and>
        (ex = None \<longrightarrow> (\<forall>q \<in> set (peers w). p_public_key q \<noteq> key_string L k \<and> p_id q \<noteq> i)) \<and>
        device w' = wg_apply L (peers_config [add_config k (ParseIP (ip6 L) a)]) (device w) \<and>
        reg = registration L (case ex of None \<Rightarrow> key_string L k | Some q \<Rightarrow> p_public_key q) a False w'))) w"
proof -
  have undo: "(pool w)\<lparr>used := insert a (used (pool w)) - {a}\<rparr> = pool w" if "a \<notin> used (pool w)" for a
    using that by simp
  show ?thesis
    unfolding AddPeer_register_def wp_tryE wp_on_pool
    apply (rule wp_Allocate_I [OF n])
     apply simp
    apply (cases ex)
     apply (auto simp add: wp_rules AddPeer_undo_def registered_def Let_def undo)
    done
qed

end
