(* ===== verification/Http.thy ===== *)
theory Http
  imports Account Admin PeerManager
begin

text \<open>
  Requests and responses as the handlers see them: gin's context reduced to what the code reads
  (method, path, header, query, JSON body, client address) and writes (status, error code,
  content). The body is the first JSON value of the request as a map of its fields, under the
  names of the struct tags that \<open>encoding/json\<close> matches them to, with a flag for bytes after it.
\<close>

section \<open>Requests\<close>

datatype json = JStr string | JInt int | JBool bool | JNull | JOther

record body =
  bd_fields :: "(string \<rightharpoonup> json) option"  \<comment> \<open>\<open>None\<close>: not a JSON object\<close>
  bd_trailing :: bool                    \<comment> \<open>something follows the first value\<close>

record request =
  rq_method :: string
  rq_path :: string
  rq_auth :: string
  rq_query :: "string \<rightharpoonup> string"
  rq_body :: body
  rq_ip :: string

definition Query :: "request \<Rightarrow> string \<Rightarrow> string" where
  "Query rq k = (case rq_query rq k of None \<Rightarrow> '''' | Some v \<Rightarrow> v)"

definition DefaultQuery :: "request \<Rightarrow> string \<Rightarrow> string \<Rightarrow> string" where
  "DefaultQuery rq k d = (case rq_query rq k of None \<Rightarrow> d | Some v \<Rightarrow> v)"

text \<open>
  \<open>encoding/json\<close> on one struct field: an absent field or \<open>null\<close> leaves the zero value, another
  type, and a number that does not fit an \<open>int\<close>, is an error (\<open>None\<close>).
\<close>

definition field_string :: "(string \<rightharpoonup> json) \<Rightarrow> string \<Rightarrow> string option" where
  "field_string m k = (case m k of None \<Rightarrow> Some '''' | Some JNull \<Rightarrow> Some '''' | Some (JStr s) \<Rightarrow> Some s | _ \<Rightarrow> None)"

definition field_string_ptr :: "(string \<rightharpoonup> json) \<Rightarrow> string \<Rightarrow> string option option" where
  "field_string_ptr m k =
     (case m k of None \<Rightarrow> Some None | Some JNull \<Rightarrow> Some None | Some (JStr s) \<Rightarrow> Some (Some s) | _ \<Rightarrow> None)"

definition json_int :: "int \<Rightarrow> int option" where
  "json_int i = (if min_int \<le> i \<and> i \<le> max_int then Some i else None)"

definition field_int :: "(string \<rightharpoonup> json) \<Rightarrow> string \<Rightarrow> int option" where
  "field_int m k = (case m k of None \<Rightarrow> Some 0 | Some JNull \<Rightarrow> Some 0 | Some (JInt i) \<Rightarrow> json_int i | _ \<Rightarrow> None)"

definition field_int_ptr :: "(string \<rightharpoonup> json) \<Rightarrow> string \<Rightarrow> int option option" where
  "field_int_ptr m k =
     (case m k of None \<Rightarrow> Some None | Some JNull \<Rightarrow> Some None | Some (JInt i) \<Rightarrow> map_option Some (json_int i) | _ \<Rightarrow> None)"

definition field_bool :: "(string \<rightharpoonup> json) \<Rightarrow> string \<Rightarrow> bool option" where
  "field_bool m k = (case m k of None \<Rightarrow> Some False | Some JNull \<Rightarrow> Some False | Some (JBool b) \<Rightarrow> Some b | _ \<Rightarrow> None)"

text \<open>The tag \<open>binding:"required"\<close>: the zero value is refused.\<close>

definition required :: "string option \<Rightarrow> string option" where
  "required v = (case v of Some s \<Rightarrow> if s = '''' then None else Some s | None \<Rightarrow> None)"

text \<open>
  \<open>ShouldBindJSON\<close> decodes the first value and does not look at what follows it;
  \<open>json.Unmarshal\<close> wants the whole body to be one value.
\<close>

definition ShouldBindJSON :: "((string \<rightharpoonup> json) \<Rightarrow> 'a option) \<Rightarrow> request \<Rightarrow> 'a option" where
  "ShouldBindJSON decode rq = Option.bind (bd_fields (rq_body rq)) decode"

definition json_Unmarshal :: "((string \<rightharpoonup> json) \<Rightarrow> 'a option) \<Rightarrow> request \<Rightarrow> 'a option" where
  "json_Unmarshal decode rq =
     (if bd_trailing (rq_body rq) then None else Option.bind (bd_fields (rq_body rq)) decode)"

section \<open>Responses\<close>

datatype payload =
    PNone
  | PUserID string
  | PToken string time
  | PUser "user option"
  | PProfile SelfProfile
  | PUsers "user list" int int int
  | PPeers "PeerWithStudent list" int int int
  | PInvites "invite list" int int int
  | PInvite "invite option"
  | PPeerConfig PeerRegistration
  | PAdmin string string string string
  | PSummary Summary
  | PWGStatus bool string int int
  | PPublicKey string
  | PEnabled bool
  | PHealth bool bool int
  | PVersion

record response =
  rs_status :: int
  rs_code :: string
  rs_body :: payload

definition respond :: "int \<Rightarrow> string \<Rightarrow> payload \<Rightarrow> response wop" where
  "respond st code p = ret \<lparr>rs_status = st, rs_code = code, rs_body = p\<rparr>"

definition ok :: "payload \<Rightarrow> response wop" where
  "ok p = respond 200 '''' p"

definition bad_request :: "response wop" where
  "bad_request = respond 400 ''INVALID_REQUEST'' PNone"

definition auth_failed :: "response wop" where
  "auth_failed = respond 401 ''AUTH_FAILED'' PNone"

definition forbidden :: "response wop" where
  "forbidden = respond 403 ''FORBIDDEN'' PNone"

definition internal_error :: "response wop" where
  "internal_error = respond 500 ''INTERNAL_ERROR'' PNone"

definition rate_limited :: "response wop" where
  "rate_limited = respond 429 ''RATE_LIMITED'' PNone"

text \<open>The first error of the list that \<open>errors.Is\<close> finds decides; otherwise 500.\<close>

fun error_response :: "goerr \<Rightarrow> (goerr \<times> int \<times> string) list \<Rightarrow> response wop" where
  "error_response err [] = internal_error"
| "error_response err ((e, st, code) # cs) =
     (if errors_is err e then respond st code PNone else error_response err cs)"

lemma readonly_respond [readonly_intros]:
  "readonly (respond st code p)" "readonly (ok p)" "readonly bad_request" "readonly auth_failed"
  "readonly forbidden" "readonly internal_error" "readonly rate_limited"
  unfolding respond_def ok_def bad_request_def auth_failed_def forbidden_def internal_error_def rate_limited_def
  by (intro readonly_intros)+

lemma readonly_error_response [readonly_intros]: "readonly (error_response err cs)"
  by (induction err cs rule: error_response.induct) (simp_all add: readonly_respond)

lemma wp_respond [wp_rules]:
  "wp (respond st code p) Q w = Q (Inr \<lparr>rs_status = st, rs_code = code, rs_body = p\<rparr>) w"
  by (simp add: respond_def wp_rules)

section \<open>Pages\<close>

text \<open>The page parameters of a list request, with the bounds the handlers set.\<close>

definition clamp_page :: "int \<Rightarrow> int" where
  "clamp_page page = (if page < 1 then 1 else page)"

definition clamp_page_size :: "int \<Rightarrow> int" where
  "clamp_page_size pageSize =
     (let pageSize = (if pageSize < 1 then 20 else pageSize)
      in if pageSize > 100 then 100 else pageSize)"

definition page_param :: "request \<Rightarrow> int" where
  "page_param rq = clamp_page (fst (Atoi (DefaultQuery rq ''page'' ''1'')))"

definition page_size_param :: "request \<Rightarrow> int" where
  "page_size_param rq = clamp_page_size (fst (Atoi (DefaultQuery rq ''page_size'' ''20'')))"

end
