(* ===== verification/Middleware.thy ===== *)
theory Middleware
  imports Http
begin

text \<open>
  \<open>internal/api/middleware.go\<close> and the middlewares of \<open>ratelimit.go\<close>: what runs before a handler.
  A middleware takes the rest of the chain as its argument; \<open>c.Abort...\<close> is not calling it.
\<close>

record ctx =
  cx_user_id :: string           \<comment> \<open>\<open>c.GetString("user_id")\<close>, empty when unset\<close>
  cx_user :: "user option"       \<comment> \<open>\<open>current_user\<close>\<close>

definition no_ctx :: ctx where
  "no_ctx = \<lparr>cx_user_id = '''', cx_user = None\<rparr>"

definition AuthMiddleware ::
  "libs \<Rightarrow> auth_config \<Rightarrow> request \<Rightarrow> (ctx \<Rightarrow> response wop) \<Rightarrow> response wop" where
  "AuthMiddleware L ac rq next =
     (let authHeader = rq_auth rq in
      if authHeader = '''' then auth_failed
      else
        (case SplitN2 CHR '' '' authHeader of
           [scheme, tokenString] \<Rightarrow>
             if ToLower (uni L) scheme \<noteq> ''bearer'' then auth_failed
             else
               caseE (ValidateToken L ac tokenString) (\<lambda>_. auth_failed) (\<lambda>cl.
               case uuid_parse L (cl_subject cl) of
                 None \<Rightarrow> auth_failed
               | Some userID \<Rightarrow>
                   caseE (users_FindByID userID) (\<lambda>_. auth_failed) (\<lambda>row.
                   case row of
                     None \<Rightarrow> auth_failed
                   | Some user \<Rightarrow> next \<lparr>cx_user_id = cl_subject cl, cx_user = Some user\<rparr>))
         | _ \<Rightarrow> auth_failed))"

definition RequireAdmin :: "ctx \<Rightarrow> response wop \<Rightarrow> response wop" where
  "RequireAdmin cx next =
     (case cx_user cx of
        None \<Rightarrow> forbidden
      | Some user \<Rightarrow> if \<not> IsAdmin user \<or> \<not> IsActive user then forbidden else next)"

definition RequireActiveUser :: "ctx \<Rightarrow> response wop \<Rightarrow> response wop" where
  "RequireActiveUser cx next =
     (case cx_user cx of
        None \<Rightarrow> forbidden
      | Some user \<Rightarrow> if \<not> IsActive user then forbidden else next)"

section \<open>Rate limits\<close>

definition limit_op :: "string \<Rightarrow> int \<Rightarrow> int \<Rightarrow> bool wop" where
  "limit_op key lim window =
     (\<lambda>w. case limiter_allow key lim window (clock w) (limits w) of
            (allowed, l) \<Rightarrow> (Inr allowed, w\<lparr>limits := l\<rparr>))"

definition minute :: int where "minute = 60000000000"
definition hour :: int where "hour = 3600000000000"

definition LoginRateLimit :: "request \<Rightarrow> response wop \<Rightarrow> response wop" where
  "LoginRateLimit rq next =
     (case json_Unmarshal (\<lambda>m. field_string m ''student_id'') rq of
        None \<Rightarrow> next
      | Some studentID \<Rightarrow>
          if studentID = '''' then next
          else
            tryE (limit_op (''login:'' @ studentID) 5 minute) (\<lambda>allowed.
            if \<not> allowed then rate_limited else next))"

definition RegisterRateLimit :: "request \<Rightarrow> response wop \<Rightarrow> response wop" where
  "RegisterRateLimit rq next =
     tryE (limit_op (''register:'' @ rq_ip rq) 10 hour) (\<lambda>allowed.
     if \<not> allowed then rate_limited else next)"

definition PeerRateLimit :: "ctx \<Rightarrow> response wop \<Rightarrow> response wop" where
  "PeerRateLimit cx next =
     (if cx_user_id cx = '''' then next
      else
        tryE (limit_op (''peer:'' @ cx_user_id cx) 30 minute) (\<lambda>allowed.
        if \<not> allowed then rate_limited else next))"

section \<open>Rules\<close>

lemma wp_limit_op [wp_rules]:
  "wp (limit_op key lim window) Q w =
     Q (Inr (fst (limiter_allow key lim window (clock w) (limits w))))
       (w\<lparr>limits := snd (limiter_allow key lim window (clock w) (limits w))\<rparr>)"
  by (simp add: limit_op_def wp_def split: prod.splits)

text \<open>Who the chain goes on for after the token check.\<close>

definition authenticated :: "libs \<Rightarrow> auth_config \<Rightarrow> request \<Rightarrow> world \<Rightarrow> ctx \<Rightarrow> bool" where
  "authenticated L ac rq w cx \<longleftrightarrow>
     (\<exists>scheme tok cl u. SplitN2 CHR '' '' (rq_auth rq) = [scheme, tok] \<and> ToLower (uni L) scheme = ''bearer'' \<and>
        jwt_parse L (jwtSecret ac) (clock w) tok = JwtOk cl \<and>
        uuid_parse L (cl_subject cl) = Some (u_id u) \<and> u \<in> set (users w) \<and>
        cx = \<lparr>cx_user_id = cl_subject cl, cx_user = Some u\<rparr>)"

lemma wp_AuthMiddleware:
  assumes refused: "\<And>v. stutters w v \<Longrightarrow> Q (Inr \<lparr>rs_status = 401, rs_code = ''AUTH_FAILED'', rs_body = PNone\<rparr>) v"
    and passed: "\<And>cx v. authenticated L ac rq w cx \<Longrightarrow> stutters w v \<Longrightarrow> wp (next cx) Q v"
  shows "wp (AuthMiddleware L ac rq next) Q w"
proof -
  have r: "wp auth_failed Q v" if "stutters w v" for v
    using refused [OF that] by (simp add: auth_failed_def wp_respond)
  show ?thesis
  proof (cases "rq_auth rq = ''''")
    case True
    then show ?thesis using r [of w] by (simp add: AuthMiddleware_def)
  next
    case False
    show ?thesis
    proof (cases "\<exists>scheme tok. SplitN2 CHR '' '' (rq_auth rq) = [scheme, tok] \<and> ToLower (uni L) scheme = ''bearer''")
      case bad: False
      then have "AuthMiddleware L ac rq next = auth_failed"
        by (auto simp add: AuthMiddleware_def Let_def False split: list.splits)
      then show ?thesis using r [of w] by simp
    next
      case True
      then obtain scheme tok where st: "SplitN2 CHR '' '' (rq_auth rq) = [scheme, tok]"
        "ToLower (uni L) scheme = ''bearer''" by blast
      show ?thesis
        using r [of w] r [of "tick w"] False
        by (auto simp add: AuthMiddleware_def Let_def st ValidateToken_def users_FindByID_def wp_rules
            authenticated_def split: jwt_result.splits intro!: passed dest!: find_SomeD)
    qed
  qed
qed

end
