(* ===== verification/Handlers.thy ===== *)
theory Handlers
  imports Middleware
begin

text \<open>
  The handlers of \<open>internal/api\<close>: \<open>auth_handler.go\<close>, \<open>me_handler.go\<close>, \<open>peer_handler.go\<close>,
  \<open>admin_handler.go\<close> and \<open>health_handler.go\<close>. Each decodes its request, calls one service and
  turns the result into a status, an error code and a content.
\<close>

section \<open>Registration and login\<close>

definition h_Register :: "libs \<Rightarrow> request \<Rightarrow> response wop" where
  "h_Register L rq =
     (case ShouldBindJSON (\<lambda>m.
        case (required (field_string m ''student_id''), required (field_string m ''password''),
              field_string m ''invite_code'') of
          (Some s, Some p, Some c) \<Rightarrow> Some (s, p, c) | _ \<Rightarrow> None) rq of
        None \<Rightarrow> bad_request
      | Some (studentID, password, inviteCode) \<Rightarrow>
          caseE (Register L studentID password inviteCode)
            (\<lambda>err. if errors_is err ErrInvalidCredentials then auth_failed
              else if errors_is err AuthErrStudentIDTaken then respond 409 ''ALREADY_EXISTS'' PNone
              else if errors_is err ErrInvalidInvite then respond 400 ''INVALID_INVITE'' PNone
              else if IsPasswordPolicyError err then respond 400 ''INVALID_PASSWORD'' PNone
              else if errors_is err AuthErrAccountInactive then forbidden
              else internal_error)
            (\<lambda>user. ok (PUserID (uuid_string L (u_id user)))))"

definition h_Login :: "libs \<Rightarrow> auth_config \<Rightarrow> request \<Rightarrow> response wop" where
  "h_Login L ac rq =
     (case ShouldBindJSON (\<lambda>m.
        case (required (field_string m ''student_id''), required (field_string m ''password'')) of
          (Some s, Some p) \<Rightarrow> Some (s, p) | _ \<Rightarrow> None) rq of
        None \<Rightarrow> bad_request
      | Some (studentID, password) \<Rightarrow>
          caseE (Login L ac studentID password)
            (\<lambda>err. error_response err
               [(ErrInvalidCredentials, 401, ''AUTH_FAILED''), (AuthErrAccountInactive, 403, ''FORBIDDEN'')])
            (\<lambda>(token, expiresAt). ok (PToken token expiresAt)))"

section \<open>The user's own account\<close>

definition h_GetMe :: "libs \<Rightarrow> ctx \<Rightarrow> response wop" where
  "h_GetMe L cx =
     (if cx_user_id cx = '''' then auth_failed
      else
        caseE (GetMe L (cx_user_id cx))
          (\<lambda>err. error_response err [(AccountErrUserNotFound, 404, ''USER_NOT_FOUND'')])
          (\<lambda>profile. ok (PProfile profile)))"

definition h_UpdateMe :: "libs \<Rightarrow> request \<Rightarrow> ctx \<Rightarrow> response wop" where
  "h_UpdateMe L rq cx =
     (if cx_user_id cx = '''' then auth_failed
      else
        (case ShouldBindJSON (\<lambda>m.
           case (field_string_ptr m ''display_name'', field_string_ptr m ''email'', field_string_ptr m ''phone'',
                 field_string_ptr m ''wechat'', field_string_ptr m ''telegram'') of
             (Some d, Some e, Some p, Some c, Some t) \<Rightarrow>
               Some \<lparr>s_display_name = d, s_email = e, s_phone = p, s_wechat = c, s_telegram = t\<rparr>
           | _ \<Rightarrow> None) rq of
           None \<Rightarrow> bad_request
         | Some flds \<Rightarrow>
             caseE (UpdateMe L (cx_user_id cx) flds)
               (\<lambda>err. error_response err
                  [(ErrDisplayNameTooLong, 400, ''INVALID_CONTACT''), (ErrInvalidEmail, 400, ''INVALID_CONTACT''),
                   (ErrInvalidPhone, 400, ''INVALID_CONTACT''), (ErrInvalidWechat, 400, ''INVALID_CONTACT''),
                   (ErrInvalidTelegram, 400, ''INVALID_CONTACT''), (AuthErrAccountInactive, 403, ''FORBIDDEN'')])
               (\<lambda>user. ok (PUser user))))"

definition h_ChangePassword :: "libs \<Rightarrow> request \<Rightarrow> ctx \<Rightarrow> response wop" where
  "h_ChangePassword L rq cx =
     (if cx_user_id cx = '''' then auth_failed
      else
        (case ShouldBindJSON (\<lambda>m.
           case (required (field_string m ''current_password''), required (field_string m ''new_password'')) of
             (Some c, Some n) \<Rightarrow> Some (c, n) | _ \<Rightarrow> None) rq of
           None \<Rightarrow> bad_request
         | Some (currentPassword, newPassword) \<Rightarrow>
             caseE (ChangePassword L (cx_user_id cx) currentPassword newPassword)
               (\<lambda>err. error_response err
                  [(ErrInvalidPassword, 401, ''AUTH_FAILED''), (ErrPasswordTooWeak, 400, ''INVALID_PASSWORD''),
                   (ErrPasswordReuse, 400, ''INVALID_PASSWORD''), (AuthErrAccountInactive, 403, ''FORBIDDEN'')])
               (\<lambda>_. ok PNone)))"

definition h_ListMyPeers :: "libs \<Rightarrow> request \<Rightarrow> ctx \<Rightarrow> response wop" where
  "h_ListMyPeers L rq cx =
     (if cx_user_id cx = '''' then auth_failed
      else
        let page = page_param rq; pageSize = page_size_param rq in
        caseE (ListMyPeers L (cx_user_id cx)
                 \<lparr>spl_page = page, spl_page_size = pageSize, spl_status = Query rq ''status''\<rparr>)
          (\<lambda>_. internal_error)
          (\<lambda>(items, n). ok (PPeers items n page pageSize)))"

section \<open>The user's peers\<close>

definition bind_public_key :: "request \<Rightarrow> string option" where
  "bind_public_key rq = ShouldBindJSON (\<lambda>m. required (field_string m ''public_key'')) rq"

definition invalid_key :: "response wop" where
  "invalid_key = respond 400 ''INVALID_KEY'' PNone"

definition h_RegisterPeer :: "libs \<Rightarrow> request \<Rightarrow> ctx \<Rightarrow> response wop" where
  "h_RegisterPeer L rq cx =
     (if cx_user_id cx = '''' then auth_failed
      else
        (case bind_public_key rq of
           None \<Rightarrow> bad_request
         | Some k \<Rightarrow>
             (case ParseKey L k of
                None \<Rightarrow> invalid_key
              | Some pubKey \<Rightarrow>
                  caseE (AddPeer L (cx_user_id cx) pubKey)
                    (\<lambda>err. error_response err
                       [(ErrTooManyPeers, 409, ''TOO_MANY_PEERS''), (ErrPeerExists, 409, ''PEER_EXISTS''),
                        (ErrPeerRevoked, 409, ''PEER_REVOKED''), (PeerErrAccountInactive, 403, ''FORBIDDEN'')])
                    (\<lambda>r. ok (PPeerConfig r)))))"

definition no_active_peer :: "goerr \<Rightarrow> response wop" where
  "no_active_peer err = error_response err [(ErrNoActivePeer, 404, ''NO_ACTIVE_PEER'')]"

definition h_GetPeerConfig :: "libs \<Rightarrow> request \<Rightarrow> ctx \<Rightarrow> response wop" where
  "h_GetPeerConfig L rq cx =
     (if cx_user_id cx = '''' then auth_failed
      else if Query rq ''public_key'' = '''' then bad_request
      else
        caseE (GetPeerConfig L (cx_user_id cx) (Query rq ''public_key'')) no_active_peer
          (\<lambda>r. ok (PPeerConfig r)))"

definition h_DisconnectPeer :: "libs \<Rightarrow> request \<Rightarrow> ctx \<Rightarrow> response wop" where
  "h_DisconnectPeer L rq cx =
     (if cx_user_id cx = '''' then auth_failed
      else if Query rq ''public_key'' = '''' then bad_request
      else
        caseE (RemovePeer L (cx_user_id cx) (Query rq ''public_key'')) no_active_peer (\<lambda>_. ok PNone))"

definition h_ReplaceKey :: "libs \<Rightarrow> request \<Rightarrow> ctx \<Rightarrow> response wop" where
  "h_ReplaceKey L rq cx =
     (if cx_user_id cx = '''' then auth_failed
      else if Query rq ''public_key'' = '''' then bad_request
      else
        (case bind_public_key rq of
           None \<Rightarrow> bad_request
         | Some k \<Rightarrow>
             (case ParseKey L k of
                None \<Rightarrow> invalid_key
              | Some newPubKey \<Rightarrow>
                  (case ParseKey L (Query rq ''public_key'') of
                     None \<Rightarrow> invalid_key
                   | Some oldKey \<Rightarrow>
                       caseE (ReplaceKey L (cx_user_id cx) oldKey newPubKey) no_active_peer (\<lambda>_. ok PNone)))))"

section \<open>Administration: users\<close>

record admin_config =
  defaultInviteMaxUses :: int
  defaultInviteExpiryDays :: int

definition h_AdminMe :: "libs \<Rightarrow> ctx \<Rightarrow> response wop" where
  "h_AdminMe L cx =
     (if cx_user_id cx = '''' then auth_failed
      else
        caseE (VerifyAdmin L (cx_user_id cx))
          (\<lambda>err. error_response err
             [(AdminErrUserNotFound, 404, ''USER_NOT_FOUND''), (ErrNotAdmin, 403, ''FORBIDDEN'')])
          (\<lambda>user. ok (PAdmin (uuid_string L (u_id user)) (u_student_id user) (u_role user) (u_status user))))"

definition h_AdminSummary :: "response wop" where
  "h_AdminSummary = caseE GetSummary (\<lambda>_. internal_error) (\<lambda>s. ok (PSummary s))"

definition h_AdminListUsers :: "libs \<Rightarrow> request \<Rightarrow> response wop" where
  "h_AdminListUsers L rq =
     (let page = page_param rq; pageSize = page_size_param rq in
      caseE (ListUsers L
               \<lparr>ul_page = page, ul_page_size = pageSize, ul_student_id = Query rq ''student_id'',
                ul_status = Query rq ''status'', ul_role = Query rq ''role'',
                ul_sort_by = DefaultQuery rq ''sort_by'' ''created_at'',
                ul_sort_order = DefaultQuery rq ''sort_order'' ''desc''\<rparr>)
        (\<lambda>_. internal_error)
        (\<lambda>(items, n). ok (PUsers items n page pageSize)))"

definition h_AdminGetUser :: "libs \<Rightarrow> string \<Rightarrow> response wop" where
  "h_AdminGetUser L userID =
     (if userID = '''' then bad_request
      else
        caseE (GetUser L userID)
          (\<lambda>err. error_response err [(AdminErrUserNotFound, 404, ''USER_NOT_FOUND'')])
          (\<lambda>user. ok (PUser (Some user))))"

definition h_AdminUpdateUser :: "libs \<Rightarrow> request \<Rightarrow> string \<Rightarrow> response wop" where
  "h_AdminUpdateUser L rq userID =
     (if userID = '''' then bad_request
      else
        (case ShouldBindJSON (\<lambda>m.
           case (field_int_ptr m ''max_peers'', field_string_ptr m ''status'') of
             (Some n, Some s) \<Rightarrow> Some \<lparr>au_max_peers = n, au_status = s\<rparr> | _ \<Rightarrow> None) rq of
           None \<Rightarrow> bad_request
         | Some flds \<Rightarrow>
             caseE (UpdateUser L userID flds)
               (\<lambda>err. error_response err
                  [(AdminErrUserNotFound, 404, ''USER_NOT_FOUND''), (ErrInvalidStatus, 400, ''INVALID_STATUS''),
                   (ErrInvalidMaxPeers, 400, ''INVALID_MAX_PEERS'')])
               (\<lambda>user. ok (PUser (Some user)))))"

definition h_AdminListUserPeers :: "libs \<Rightarrow> request \<Rightarrow> string \<Rightarrow> response wop" where
  "h_AdminListUserPeers L rq userID =
     (if userID = '''' then bad_request
      else
        let page = page_param rq; pageSize = page_size_param rq in
        caseE (ListUserPeers L userID
                 \<lparr>pu_page = page, pu_page_size = pageSize, pu_status = Query rq ''status''\<rparr>)
          (\<lambda>_. internal_error)
          (\<lambda>(items, n). ok (PPeers items n page pageSize)))"

section \<open>Administration: peers\<close>

definition h_AdminListPeers :: "libs \<Rightarrow> request \<Rightarrow> response wop" where
  "h_AdminListPeers L rq =
     (let page = page_param rq; pageSize = page_size_param rq in
      caseE (ListPeers L
               \<lparr>pl_page = page, pl_page_size = pageSize, pl_status = Query rq ''status'',
                pl_student_id = Query rq ''student_id'', pl_public_key = Query rq ''public_key'',
                pl_sort_by = DefaultQuery rq ''sort_by'' ''created_at'',
                pl_sort_order = DefaultQuery rq ''sort_order'' ''desc''\<rparr>)
        (\<lambda>_. internal_error)
        (\<lambda>(items, n). ok (PPeers items n page pageSize)))"

text \<open>Both operations first take an active peer off the device; that error is only logged.\<close>

definition take_off_device :: "libs \<Rightarrow> peer \<Rightarrow> 'a wop \<Rightarrow> 'a wop" where
  "take_off_device L peerInfo rest =
     (if p_status peerInfo = ''active'' \<and> p_public_key peerInfo \<noteq> ''''
      then ignoreE (RemovePeer L (uuid_string L (p_user_id peerInfo)) (p_public_key peerInfo)) rest
      else rest)"

definition peer_not_found :: "goerr \<Rightarrow> response wop" where
  "peer_not_found err = error_response err [(ErrPeerNotFound, 404, ''PEER_NOT_FOUND'')]"

definition h_AdminDisconnectPeer :: "libs \<Rightarrow> string \<Rightarrow> response wop" where
  "h_AdminDisconnectPeer L peerID =
     (if peerID = '''' then bad_request
      else
        caseE (GetPeer L peerID) peer_not_found (\<lambda>peerInfo.
        take_off_device L peerInfo (
          caseE (DisconnectPeer L peerID) peer_not_found (\<lambda>_. ok PNone))))"

definition h_AdminRevokePeer :: "libs \<Rightarrow> string \<Rightarrow> response wop" where
  "h_AdminRevokePeer L peerID =
     (if peerID = '''' then bad_request
      else
        caseE (GetPeer L peerID) peer_not_found (\<lambda>peerInfo.
        take_off_device L peerInfo (
          caseE (RevokePeer L peerID) peer_not_found (\<lambda>_. ok PNone))))"

section \<open>Administration: invites\<close>

definition h_AdminListInvites :: "request \<Rightarrow> response wop" where
  "h_AdminListInvites rq =
     (let page = page_param rq; pageSize = page_size_param rq in
      caseE (ListInvites
               \<lparr>il_page = page, il_page_size = pageSize, il_code = Query rq ''code'', il_state = Query rq ''state''\<rparr>)
        (\<lambda>_. internal_error)
        (\<lambda>(items, n). ok (PInvites items n page pageSize)))"

definition h_AdminCreateInvite :: "libs \<Rightarrow> admin_config \<Rightarrow> request \<Rightarrow> ctx \<Rightarrow> response wop" where
  "h_AdminCreateInvite L dc rq cx =
     (if cx_user_id cx = '''' then auth_failed
      else
        (case ShouldBindJSON (\<lambda>m.
           case (field_int m ''max_uses'', field_int m ''expires_days'') of
             (Some n, Some d) \<Rightarrow> Some (n, d) | _ \<Rightarrow> None) rq of
           None \<Rightarrow> bad_request
         | Some (maxUses, expiresDays) \<Rightarrow>
             let maxUses = (if maxUses \<le> 0 then defaultInviteMaxUses dc else maxUses);
                 expiresDays = (if expiresDays \<le> 0 then defaultInviteExpiryDays dc else expiresDays) in
             caseE (CreateInvite L (cx_user_id cx) maxUses expiresDays)
               (\<lambda>err. error_response err
                  [(ErrInvalidMaxUses, 400, ''INVALID_REQUEST''), (ErrInvalidExpiry, 400, ''INVALID_REQUEST'')])
               (\<lambda>iv. ok (PInvite (Some iv)))))"

definition h_AdminUpdateInvite :: "libs \<Rightarrow> request \<Rightarrow> string \<Rightarrow> response wop" where
  "h_AdminUpdateInvite L rq inviteID =
     (if inviteID = '''' then bad_request
      else
        (case ShouldBindJSON (\<lambda>m.
           case (field_int_ptr m ''max_uses'', field_int_ptr m ''expires_days'') of
             (Some n, Some d) \<Rightarrow> Some (n, d) | _ \<Rightarrow> None) rq of
           None \<Rightarrow> bad_request
         | Some (maxUses, expiresDays) \<Rightarrow>
             tryE time_now (\<lambda>now.
             let update = (\<lambda>flds. caseE (UpdateInvite L inviteID flds)
                   (\<lambda>err. error_response err
                      [(ErrInviteNotFound, 404, ''INVITE_NOT_FOUND''), (ErrInvalidMaxUses, 400, ''INVALID_REQUEST'')])
                   (\<lambda>iv. ok (PInvite iv)))
             in case expiresDays of
                  None \<Rightarrow> update \<lparr>f_max_uses = maxUses, f_expires_at = None, f_clear_expires_at = False\<rparr>
                | Some d \<Rightarrow>
                    if d < 0 then bad_request
                    else if d = 0
                    then update \<lparr>f_max_uses = maxUses, f_expires_at = None, f_clear_expires_at = True\<rparr>
                    else update \<lparr>f_max_uses = maxUses, f_expires_at = Some (add_days now d),
                                 f_clear_expires_at = False\<rparr>)))"

definition h_AdminDeleteInvite :: "libs \<Rightarrow> string \<Rightarrow> response wop" where
  "h_AdminDeleteInvite L inviteID =
     (if inviteID = '''' then bad_request
      else
        caseE (DeleteInvite L inviteID)
          (\<lambda>err. error_response err
             [(ErrInviteNotFound, 404, ''INVITE_NOT_FOUND''), (ErrInviteUsed, 409, ''INVITE_IN_USE'')])
          (\<lambda>_. ok PNone))"

section \<open>Administration: WireGuard\<close>

definition h_AdminGetWGStatus :: "libs \<Rightarrow> response wop" where
  "h_AdminGetWGStatus L =
     caseE WGEnabled (\<lambda>_. internal_error) (\<lambda>enabled.
     tryE (gets (\<lambda>w. key_string L (ServerPublicKey L w))) (\<lambda>publicKey.
     tryE ListenPort (\<lambda>port.
     tryE ActivePeerCount (\<lambda>peersCount.
     ok (PWGStatus enabled publicKey port peersCount)))))"

definition h_AdminRotateWGKey :: "libs \<Rightarrow> request \<Rightarrow> response wop" where
  "h_AdminRotateWGKey L rq =
     (case ShouldBindJSON (\<lambda>m. required (field_string m ''private_key'')) rq of
        None \<Rightarrow> bad_request
      | Some k \<Rightarrow>
          (case ParseKey L k of
             None \<Rightarrow> invalid_key
           | Some newPrivKey \<Rightarrow>
               caseE (RotateServerKey L newPrivKey) (\<lambda>_. internal_error)
                 (\<lambda>newPubKey. ok (PPublicKey (key_string L newPubKey)))))"

definition h_AdminToggleWG :: "libs \<Rightarrow> request \<Rightarrow> response wop" where
  "h_AdminToggleWG L rq =
     (case ShouldBindJSON (\<lambda>m. field_bool m ''enabled'') rq of
        None \<Rightarrow> bad_request
      | Some enabled \<Rightarrow>
          caseE (SetWGEnabled L enabled) (\<lambda>_. internal_error) (\<lambda>_. ok (PEnabled enabled)))"

section \<open>Health\<close>

definition h_Health :: "response wop" where
  "h_Health =
     tryE (caseE (ext_call PgError (ret ())) (\<lambda>_. ret False) (\<lambda>_. ret True)) (\<lambda>db.
     tryE WGEnabled (\<lambda>enabled.
     if enabled then tryE ActivePeerCount (\<lambda>n. ok (PHealth db True n))
     else ok (PHealth db False 0)))"

definition h_Version :: "response wop" where
  "h_Version = ok PVersion"

end
