(* ===== verification/Router.thy ===== *)
theory Router
  imports Handlers
begin

text \<open>
  \<open>internal/api/router.go\<close>: the table of routes with their middlewares and the handling of one
  request. gin's matching of a path against the registered patterns is a parameter
  (\<open>srv_match\<close>); \<open>gin_lib\<close> states what its documentation promises. Serving the single page
  application is not modelled: the table is the one without \<open>SCNET_ENABLE_SPA_SERVING\<close>.
\<close>

section \<open>The table of routes\<close>

datatype guard = GAuth | GAdmin | GActive | GRegisterLimit | GLoginLimit | GPeerLimit

datatype endpoint_handler =
    EHealth | EVersion | ERegister | ELogin
  | EGetMe | EListMyPeers | EUpdateMe | EChangePassword
  | ERegisterPeer | EGetPeerConfig | EDisconnectPeer | EReplaceKey
  | EAdminMe | EAdminSummary | EAdminListUsers | EAdminGetUser | EAdminUpdateUser
  | EAdminListUserPeers | EAdminListPeers | EAdminDisconnectPeer | EAdminRevokePeer
  | EAdminListInvites | EAdminCreateInvite | EAdminUpdateInvite | EAdminDeleteInvite
  | EAdminGetWGStatus | EAdminRotateWGKey | EAdminToggleWG

record route =
  rt_method :: string
  rt_pattern :: string
  rt_guards :: "guard list"
  rt_handler :: endpoint_handler

definition route_of :: "string \<Rightarrow> string \<Rightarrow> guard list \<Rightarrow> endpoint_handler \<Rightarrow> route" where
  "route_of m p gs h = \<lparr>rt_method = m, rt_pattern = p, rt_guards = gs, rt_handler = h\<rparr>"

text \<open>\<open>Group(prefix)\<close> with \<open>Use(guards)\<close>: prefix and middlewares go in front of the route's own.\<close>

definition Group :: "string \<Rightarrow> guard list \<Rightarrow> route list \<Rightarrow> route list" where
  "Group prefix gs rs =
     map (\<lambda>r. r\<lparr>rt_pattern := prefix @ rt_pattern r, rt_guards := gs @ rt_guards r\<rparr>) rs"

definition authGroup :: "route list" where
  "authGroup = Group ''/auth'' []
     [route_of ''POST'' ''/register'' [GRegisterLimit] ERegister,
      route_of ''POST'' ''/login'' [GLoginLimit] ELogin]"

definition meGroup :: "route list" where
  "meGroup = Group ''/me'' [GAuth]
     [route_of ''GET'' '''' [] EGetMe,
      route_of ''GET'' ''/peers'' [] EListMyPeers,
      route_of ''PUT'' '''' [GActive] EUpdateMe,
      route_of ''PUT'' ''/password'' [GActive] EChangePassword]"

definition peerGroup :: "route list" where
  "peerGroup = Group ''/peer'' [GAuth, GPeerLimit]
     [route_of ''POST'' ''/register'' [GActive] ERegisterPeer,
      route_of ''GET'' ''/config'' [] EGetPeerConfig,
      route_of ''DELETE'' ''/disconnect'' [GActive] EDisconnectPeer,
      route_of ''PUT'' ''/replace-key'' [GActive] EReplaceKey]"

definition adminGroup :: "route list" where
  "adminGroup = Group ''/admin'' [GAuth, GAdmin]
     [route_of ''GET'' ''/me'' [] EAdminMe,
      route_of ''GET'' ''/summary'' [] EAdminSummary,
      route_of ''GET'' ''/users'' [] EAdminListUsers,
      route_of ''GET'' ''/user/:id'' [] EAdminGetUser,
      route_of ''PUT'' ''/user/:id'' [] EAdminUpdateUser,
      route_of ''GET'' ''/user/:id/peers'' [] EAdminListUserPeers,
      route_of ''GET'' ''/peers'' [] EAdminListPeers,
      route_of ''POST'' ''/peer/:id/disconnect'' [] EAdminDisconnectPeer,
      route_of ''POST'' ''/peer/:id/revoke'' [] EAdminRevokePeer,
      route_of ''GET'' ''/invites'' [] EAdminListInvites,
      route_of ''POST'' ''/invite'' [] EAdminCreateInvite,
      route_of ''PUT'' ''/invite/:id'' [] EAdminUpdateInvite,
      route_of ''DELETE'' ''/invite/:id'' [] EAdminDeleteInvite,
      route_of ''GET'' ''/wg'' [] EAdminGetWGStatus,
      route_of ''POST'' ''/wg/rotate-key'' [] EAdminRotateWGKey,
      route_of ''POST'' ''/wg/toggle'' [] EAdminToggleWG]"

definition routes :: "route list" where
  "routes =
     [route_of ''GET'' ''/health'' [] EHealth, route_of ''GET'' ''/version'' [] EVersion] @
     Group ''/api/v1'' [] (authGroup @ meGroup @ peerGroup @ adminGroup)"

section \<open>Matching\<close>

text \<open>
  A path matches a pattern segment by segment; a segment \<open>:name\<close> of the pattern matches any
  non-empty segment, the value of the parameter.
\<close>

fun match_segments :: "string list \<Rightarrow> string list \<Rightarrow> (string \<times> string) list option" where
  "match_segments [] [] = Some []"
| "match_segments (p # ps) (s # ss) =
     (case match_segments ps ss of
        None \<Rightarrow> None
      | Some params \<Rightarrow>
          if p \<noteq> [] \<and> hd p = CHR '':'' then (if s = [] then None else Some ((tl p, s) # params))
          else if p = s then Some params else None)"
| "match_segments _ _ = None"

definition match_pattern :: "string \<Rightarrow> string \<Rightarrow> (string \<times> string) list option" where
  "match_pattern pattern path = match_segments (SplitByte CHR ''/'' pattern) (SplitByte CHR ''/'' path)"

record server =
  srv_libs :: libs
  srv_auth :: auth_config
  srv_admin :: admin_config
  srv_match :: "route list \<Rightarrow> string \<Rightarrow> string \<Rightarrow> (route \<times> (string \<times> string) list) option"
  srv_slash :: "route list \<Rightarrow> string \<Rightarrow> string \<Rightarrow> bool"

text \<open>
  \<open>srv_slash\<close> is gin's decision to redirect a request that matches no route but would match one
  with a slash more or less at its end (\<open>RedirectTrailingSlash\<close>, on in \<open>gin.Default\<close>).

  Documented behaviour of gin: the route chosen is a registered one with the method of the
  request and a pattern that matches the path, with the values of its parameters; a request that
  matches some registered route gets one.
\<close>

definition gin_lib :: "server \<Rightarrow> bool" where
  "gin_lib S \<longleftrightarrow>
     (\<forall>rs m path. case srv_match S rs m path of
        Some (r, params) \<Rightarrow> r \<in> set rs \<and> rt_method r = m \<and> match_pattern (rt_pattern r) path = Some params
      | None \<Rightarrow> \<forall>r \<in> set rs. rt_method r = m \<longrightarrow> match_pattern (rt_pattern r) path = None)"

definition Param :: "(string \<times> string) list \<Rightarrow> string \<Rightarrow> string" where
  "Param params name = (case map_of params name of None \<Rightarrow> '''' | Some v \<Rightarrow> v)"

section \<open>Serving a request\<close>

fun run_chain :: "server \<Rightarrow> request \<Rightarrow> guard list \<Rightarrow> (ctx \<Rightarrow> response wop) \<Rightarrow> ctx \<Rightarrow> response wop" where
  "run_chain S rq [] h cx = h cx"
| "run_chain S rq (g # gs) h cx =
     (case g of
        GAuth \<Rightarrow> AuthMiddleware (srv_libs S) (srv_auth S) rq (run_chain S rq gs h)
      | GAdmin \<Rightarrow> RequireAdmin cx (run_chain S rq gs h cx)
      | GActive \<Rightarrow> RequireActiveUser cx (run_chain S rq gs h cx)
      | GRegisterLimit \<Rightarrow> RegisterRateLimit rq (run_chain S rq gs h cx)
      | GLoginLimit \<Rightarrow> LoginRateLimit rq (run_chain S rq gs h cx)
      | GPeerLimit \<Rightarrow> PeerRateLimit cx (run_chain S rq gs h cx))"

fun call_handler ::
  "server \<Rightarrow> request \<Rightarrow> (string \<times> string) list \<Rightarrow> endpoint_handler \<Rightarrow> ctx \<Rightarrow> response wop" where
  "call_handler S rq ps EHealth cx = h_Health"
| "call_handler S rq ps EVersion cx = h_Version"
| "call_handler S rq ps ERegister cx = h_Register (srv_libs S) rq"
| "call_handler S rq ps ELogin cx = h_Login (srv_libs S) (srv_auth S) rq"
| "call_handler S rq ps EGetMe cx = h_GetMe (srv_libs S) cx"
| "call_handler S rq ps EListMyPeers cx = h_ListMyPeers (srv_libs S) rq cx"
| "call_handler S rq ps EUpdateMe cx = h_UpdateMe (srv_libs S) rq cx"
| "call_handler S rq ps EChangePassword cx = h_ChangePassword (srv_libs S) rq cx"
| "call_handler S rq ps ERegisterPeer cx = h_RegisterPeer (srv_libs S) rq cx"
| "call_handler S rq ps EGetPeerConfig cx = h_GetPeerConfig (srv_libs S) rq cx"
| "call_handler S rq ps EDisconnectPeer cx = h_DisconnectPeer (srv_libs S) rq cx"
| "call_handler S rq ps EReplaceKey cx = h_ReplaceKey (srv_libs S) rq cx"
| "call_handler S rq ps EAdminMe cx = h_AdminMe (srv_libs S) cx"
| "call_handler S rq ps EAdminSummary cx = h_AdminSummary"
| "call_handler S rq ps EAdminListUsers cx = h_AdminListUsers (srv_libs S) rq"
| "call_handler S rq ps EAdminGetUser cx = h_AdminGetUser (srv_libs S) (Param ps ''id'')"
| "call_handler S rq ps EAdminUpdateUser cx = h_AdminUpdateUser (srv_libs S) rq (Param ps ''id'')"
| "call_handler S rq ps EAdminListUserPeers cx = h_AdminListUserPeers (srv_libs S) rq (Param ps ''id'')"
| "call_handler S rq ps EAdminListPeers cx = h_AdminListPeers (srv_libs S) rq"
| "call_handler S rq ps EAdminDisconnectPeer cx = h_AdminDisconnectPeer (srv_libs S) (Param ps ''id'')"
| "call_handler S rq ps EAdminRevokePeer cx = h_AdminRevokePeer (srv_libs S) (Param ps ''id'')"
| "call_handler S rq ps EAdminListInvites cx = h_AdminListInvites rq"
| "call_handler S rq ps EAdminCreateInvite cx = h_AdminCreateInvite (srv_libs S) (srv_admin S) rq cx"
| "call_handler S rq ps EAdminUpdateInvite cx = h_AdminUpdateInvite (srv_libs S) rq (Param ps ''id'')"
| "call_handler S rq ps EAdminDeleteInvite cx = h_AdminDeleteInvite (srv_libs S) (Param ps ''id'')"
| "call_handler S rq ps EAdminGetWGStatus cx = h_AdminGetWGStatus (srv_libs S)"
| "call_handler S rq ps EAdminRotateWGKey cx = h_AdminRotateWGKey (srv_libs S) rq"
| "call_handler S rq ps EAdminToggleWG cx = h_AdminToggleWG (srv_libs S) rq"

text \<open>The CORS middleware answers every preflight request itself, for any path.\<close>

definition corsMiddleware :: "request \<Rightarrow> response wop \<Rightarrow> response wop" where
  "corsMiddleware rq next = (if rq_method rq = ''OPTIONS'' then respond 204 '''' PNone else next)"

definition NoRoute :: "response wop" where
  "NoRoute = respond 404 '''' PNone"

text \<open>gin redirects \<open>GET\<close> with 301 and every other method with 307.\<close>

definition TrailingSlash :: "request \<Rightarrow> response wop" where
  "TrailingSlash rq = respond (if rq_method rq = ''GET'' then 301 else 307) '''' PNone"

text \<open>
  No route is registered for \<open>OPTIONS\<close>, so gin never redirects a preflight request before the CORS
  middleware sees it.
\<close>

definition serve :: "server \<Rightarrow> request \<Rightarrow> response wop" where
  "serve S rq =
     corsMiddleware rq
       (case srv_match S routes (rq_method rq) (rq_path rq) of
          None \<Rightarrow> if srv_slash S routes (rq_method rq) (rq_path rq) then TrailingSlash rq else NoRoute
        | Some (r, params) \<Rightarrow>
            run_chain S rq (rt_guards r) (call_handler S rq params (rt_handler r)) no_ctx)"

end
