(* ===== verification/PeerInvariants.thy ===== *)
theory PeerInvariants
  imports PeerManager InviteStore
begin

text \<open>
  What the peer manager keeps: every active row of the table \<open>peers\<close> holds an address of its
  own, inside the subnet, marked as used in the allocator and different from the gateway's; keys
  and ids stay unique; and every key of the table is one \<open>wgtypes.Key.String\<close> printed. The
  lemmas are stated for each operation of the manager and of the stores.
\<close>

section \<open>The invariant\<close>

definition lease_rows :: "string \<Rightarrow> ipam \<Rightarrow> peer list \<Rightarrow> bool" where
  "lease_rows gw i ps \<longleftrightarrow>
     (\<forall>p \<in> set ps. p_status p = ''active'' \<longrightarrow>
        p_assigned_ip p \<in> used i \<and> p_assigned_ip p \<in> host_ips (subnet i) \<and> p_assigned_ip p \<noteq> gw) \<and>
     (\<forall>p \<in> set ps. \<forall>q \<in> set ps. p_status p = ''active'' \<longrightarrow> p_status q = ''active'' \<longrightarrow>
        p_assigned_ip p = p_assigned_ip q \<longrightarrow> p_id p = p_id q)"

definition leases_ok :: "string \<Rightarrow> world \<Rightarrow> bool" where
  "leases_ok gw w \<longleftrightarrow> net4 (subnet (pool w)) \<and> gw \<in> used (pool w) \<and>
     peers_wf (peers w) \<and> lease_rows gw (pool w) (peers w)"

lemma leases_ok_cong: "pool w' = pool w \<Longrightarrow> peers w' = peers w \<Longrightarrow> leases_ok gw w' = leases_ok gw w"
  by (simp add: leases_ok_def)

lemma leases_ok_tick [simp]: "leases_ok gw (tick w) = leases_ok gw w"
  by (simp add: leases_ok_def)

lemma leases_ok_frame [simp]:
  "leases_ok gw (w\<lparr>users := us\<rparr>) = leases_ok gw w" "leases_ok gw (w\<lparr>invites := vs\<rparr>) = leases_ok gw w"
  "leases_ok gw (w\<lparr>device := d\<rparr>) = leases_ok gw w" "leases_ok gw (w\<lparr>server_key := k\<rparr>) = leases_ok gw w"
  "leases_ok gw (w\<lparr>nrnd := n\<rparr>) = leases_ok gw w"
  by (simp_all add: leases_ok_def)

lemma leases_ok_stutters: "leases_ok gw w \<Longrightarrow> stutters w w' \<Longrightarrow> leases_ok gw w'"
  using leases_ok_cong stutters_same by blast

lemmas leases_ok_readonly = readonly_preserves [OF _ leases_ok_stutters]

lemma lease_rowsI:
  assumes "\<And>p. p \<in> set ps \<Longrightarrow> p_status p = ''active'' \<Longrightarrow>
      p_assigned_ip p \<in> used i \<and> p_assigned_ip p \<in> host_ips (subnet i) \<and> p_assigned_ip p \<noteq> gw"
    and "\<And>p q. p \<in> set ps \<Longrightarrow> q \<in> set ps \<Longrightarrow> p_status p = ''active'' \<Longrightarrow> p_status q = ''active'' \<Longrightarrow>
      p_assigned_ip p = p_assigned_ip q \<Longrightarrow> p_id p = p_id q"
  shows "lease_rows gw i ps"
  unfolding lease_rows_def using assms by blast

lemma lease_rowsD:
  assumes "lease_rows gw i ps" "p \<in> set ps" "p_status p = ''active''"
  shows "p_assigned_ip p \<in> used i" "p_assigned_ip p \<in> host_ips (subnet i)" "p_assigned_ip p \<noteq> gw"
  using assms unfolding lease_rows_def by blast+

lemma lease_rows_unique:
  assumes "lease_rows gw i ps" "p \<in> set ps" "q \<in> set ps" "p_status p = ''active''"
    "p_status q = ''active''" "p_assigned_ip p = p_assigned_ip q"
  shows "p_id p = p_id q"
  using assms unfolding lease_rows_def by blast

text \<open>A row update that activates nothing and moves no active row.\<close>

lemma lease_rows_update:
  assumes lr: "lease_rows gw i ps"
    and id: "\<And>p. p_id (f p) = p_id p"
    and st: "\<And>p. p_status (f p) = ''active'' \<Longrightarrow> p_status p = ''active''"
    and ip: "\<And>p. p_status (f p) = ''active'' \<Longrightarrow> p_assigned_ip (f p) = p_assigned_ip p"
  shows "lease_rows gw i (update_rows P f ps)"
proof -
  have was: "\<exists>q \<in> set ps. p_status q = ''active'' \<and> p_assigned_ip q = p_assigned_ip p \<and> p_id q = p_id p"
    if p: "p \<in> set (update_rows P f ps)" "p_status p = ''active''" for p
  proof -
    from p(1) obtain q where q: "q \<in> set ps" "p = (if P q then f q else q)"
      by (auto simp only: in_update_rows)
    show ?thesis
    proof (cases "P q")
      case True
      with q p(2) st [of q] ip [of q] id [of q] show ?thesis by (intro bexI [of _ q]) simp_all
    next
      case False
      with q p(2) show ?thesis by (intro bexI [of _ q]) simp_all
    qed
  qed
  show ?thesis
  proof (rule lease_rowsI)
    fix p
    assume "p \<in> set (update_rows P f ps)" "p_status p = ''active''"
    from was [OF this] obtain q where "q \<in> set ps" "p_status q = ''active''" "p_assigned_ip q = p_assigned_ip p" by blast
    with lease_rowsD [OF lr this(1,2)]
    show "p_assigned_ip p \<in> used i \<and> p_assigned_ip p \<in> host_ips (subnet i) \<and> p_assigned_ip p \<noteq> gw" by simp
  next
    fix p q
    assume pq: "p \<in> set (update_rows P f ps)" "q \<in> set (update_rows P f ps)" "p_status p = ''active''"
      "p_status q = ''active''" "p_assigned_ip p = p_assigned_ip q"
    from was [OF pq(1,3)] obtain p' where p': "p' \<in> set ps" "p_status p' = ''active''"
      "p_assigned_ip p' = p_assigned_ip p" "p_id p' = p_id p" by blast
    from was [OF pq(2,4)] obtain q' where q': "q' \<in> set ps" "p_status q' = ''active''"
      "p_assigned_ip q' = p_assigned_ip q" "p_id q' = p_id q" by blast
    from lease_rows_unique [OF lr p'(1) q'(1) p'(2) q'(2)] p'(3,4) q'(3,4) pq(5)
    show "p_id p = p_id q" by simp
  qed
qed

lemma lease_rows_used_mono:
  assumes lr: "lease_rows gw i ps" and "used i \<subseteq> used j" "subnet j = subnet i"
  shows "lease_rows gw j ps"
proof (rule lease_rowsI)
  fix p
  assume "p \<in> set ps" "p_status p = ''active''"
  from lease_rowsD [OF lr this] assms(2,3)
  show "p_assigned_ip p \<in> used j \<and> p_assigned_ip p \<in> host_ips (subnet j) \<and> p_assigned_ip p \<noteq> gw" by auto
qed (rule lease_rows_unique [OF lr])

lemma lease_rows_release:
  assumes lr: "lease_rows gw i ps" and a: "\<And>p. p \<in> set ps \<Longrightarrow> p_status p = ''active'' \<Longrightarrow> p_assigned_ip p \<noteq> a"
  shows "lease_rows gw (i\<lparr>used := used i - {a}\<rparr>) ps"
proof (rule lease_rowsI)
  fix p
  assume "p \<in> set ps" "p_status p = ''active''"
  from lease_rowsD [OF lr this] a [OF this]
  show "p_assigned_ip p \<in> used (i\<lparr>used := used i - {a}\<rparr>) \<and>
      p_assigned_ip p \<in> host_ips (subnet (i\<lparr>used := used i - {a}\<rparr>)) \<and> p_assigned_ip p \<noteq> gw" by simp
qed (rule lease_rows_unique [OF lr])

text \<open>A registration with a fresh address.\<close>

lemma lease_rows_registered:
  assumes lr: "lease_rows gw i ps" and gw: "gw \<in> used i"
    and a: "a \<in> host_ips (subnet i)" "a \<notin> used i"
    and new: "ex = None \<Longrightarrow> \<forall>q \<in> set ps. p_id q \<noteq> j"
  shows "lease_rows gw (i\<lparr>used := insert a (used i)\<rparr>) (registered ex uid k a j t ps)"
proof -
  have "a \<noteq> gw" using gw a(2) by blast
  define new_id where "new_id = (case ex of None \<Rightarrow> j | Some q \<Rightarrow> p_id q)"
  have rows: "(p_id p = new_id \<and> p_assigned_ip p = a) \<or> (p \<in> set ps)"
    if "p \<in> set (registered ex uid k a j t ps)" for p
    using that by (cases ex) (auto simp add: registered_def new_id_def in_update_rows split: if_splits)
  have old: "p_assigned_ip p \<noteq> a" if "p \<in> set ps" "p_status p = ''active''" for p
    using lease_rowsD(1) [OF lr that] a(2) by auto
  show ?thesis
  proof (rule lease_rowsI)
    fix p
    assume "p \<in> set (registered ex uid k a j t ps)" "p_status p = ''active''"
    with rows [of p] lease_rowsD [OF lr, of p] a(1) \<open>a \<noteq> gw\<close>
    show "p_assigned_ip p \<in> used (i\<lparr>used := insert a (used i)\<rparr>) \<and>
        p_assigned_ip p \<in> host_ips (subnet (i\<lparr>used := insert a (used i)\<rparr>)) \<and> p_assigned_ip p \<noteq> gw" by auto
  next
    fix p q
    assume "p \<in> set (registered ex uid k a j t ps)" "q \<in> set (registered ex uid k a j t ps)"
      "p_status p = ''active''" "p_status q = ''active''" "p_assigned_ip p = p_assigned_ip q"
    with rows [of p] rows [of q] old [of p] old [of q] lease_rows_unique [OF lr, of p q]
    show "p_id p = p_id q" by metis
  qed
qed

lemma peers_wf_registered:
  assumes "peers_wf ps"
    and "ex = None \<Longrightarrow> \<forall>q \<in> set ps. p_public_key q \<noteq> k \<and> p_id q \<noteq> j"
  shows "peers_wf (registered ex uid k a j t ps)"
  using assms
  by (cases ex) (auto simp add: registered_def intro!: peers_wf_insert peers_wf_update)

section \<open>The operations of the manager keep it\<close>

lemma AddPeer_register_leases: "preserves (leases_ok gw) (AddPeer_register L k uid ex)"
proof (rule preservesI)
  fix w
  assume I: "leases_ok gw w"
  then have n: "net4 (subnet (pool w))" by (simp add: leases_ok_def)
  show "wp (AddPeer_register L k uid ex) (\<lambda>_. leases_ok gw) w"
  proof (rule wp_mono [OF AddPeer_register_wp [OF n]], elim conjE)
    fix r w'
    assume err: "\<forall>e. r = Inl e \<longrightarrow> peers w' = peers w \<and> pool w' = pool w"
      and okr: "\<forall>reg. r = Inr reg \<longrightarrow> (\<exists>a i t.
        a \<in> host_ips (subnet (pool w)) \<and> a \<notin> used (pool w) \<and>
        pool w' = (pool w)\<lparr>used := insert a (used (pool w))\<rparr> \<and>
        peers w' = registered ex uid (key_string L k) a i t (peers w) \<and>
        (ex = None \<longrightarrow> (\<forall>q \<in> set (peers w). p_public_key q \<noteq> key_string L k \<and> p_id q \<noteq> i)) \<and>
        device w' = wg_apply L (peers_config [add_config k (ParseIP (ip6 L) a)]) (device w) \<and>
        reg = registration L (case ex of None \<Rightarrow> key_string L k | Some q \<Rightarrow> p_public_key q) a False w')"
    show "leases_ok gw w'"
    proof (cases r)
      case (Inl e)
      with err I show ?thesis using leases_ok_cong by blast
    next
      case (Inr reg)
      with okr obtain a i t where a: "a \<in> host_ips (subnet (pool w))" "a \<notin> used (pool w)"
        and pool: "pool w' = (pool w)\<lparr>used := insert a (used (pool w))\<rparr>"
        and peers: "peers w' = registered ex uid (key_string L k) a i t (peers w)"
        and new: "ex = None \<longrightarrow> (\<forall>q \<in> set (peers w). p_public_key q \<noteq> key_string L k \<and> p_id q \<noteq> i)"
        by blast
      have "lease_rows gw (pool w') (peers w')"
        unfolding pool peers using I a new by (intro lease_rows_registered) (auto simp add: leases_ok_def)
      moreover have "peers_wf (peers w')"
        unfolding peers using I new by (intro peers_wf_registered) (auto simp add: leases_ok_def)
      ultimately show ?thesis using I by (simp add: leases_ok_def pool)
    qed
  qed
qed

lemma AddPeer_leases: "preserves (leases_ok gw) (AddPeer L userID k)"
  unfolding AddPeer_def
  by (intro preserves_tryE leases_ok_readonly [OF readonly_AddPeer_admit])
     (auto simp add: AddPeer_register_leases split: prod.splits)

lemma readonly_find_target: "readonly (find_target L userID k)"
  unfolding find_target_def by (intro readonly_intros)

lemma find_target_Inr:
  assumes "find_target L userID k w = (Inr p, w')"
  shows "stutters w w'" "p \<in> set (peers w)" "p_status p = ''active''" "p_public_key p = k"
    "uuid_parse L userID = Some (p_user_id p)"
proof -
  show "stutters w w'" using readonlyD [OF readonly_find_target assms] .
  have "wp (find_target L userID k) (\<lambda>r _. \<forall>p. r = Inr p \<longrightarrow> p \<in> set (peers w) \<and>
      p_status p = ''active'' \<and> p_public_key p = k \<and> uuid_parse L userID = Some (p_user_id p)) w"
    by (auto simp add: find_target_def peers_FindActiveByUserID_def wp_rules
        dest!: find_SomeD cut_rows_in)
  from wp_I [OF this assms]
  show "p \<in> set (peers w)" "p_status p = ''active''" "p_public_key p = k"
    "uuid_parse L userID = Some (p_user_id p)" by auto
qed

lemma RemovePeer_commit_leases:
  assumes I: "leases_ok gw w" and p: "p \<in> set (peers w)" "p_status p = ''active''"
  shows "wp (RemovePeer_commit L k p) (\<lambda>_. leases_ok gw) w"
proof -
  let ?f = "\<lambda>t p. p\<lparr>p_status := ''disconnected'', p_updated_at := t\<rparr>"
  have wf: "peers_wf (peers w)" and lr: "lease_rows gw (pool w) (peers w)" using I by (auto simp add: leases_ok_def)
  have wf': "peers_wf (update_rows (\<lambda>q. p_id q = p_id p) (?f t) (peers w))" for t
    using wf by (intro peers_wf_update) auto
  have lr': "lease_rows gw (pool w) (update_rows (\<lambda>q. p_id q = p_id p) (?f t) (peers w))" for t
    using lr by (intro lease_rows_update) auto
  have others: "p_assigned_ip q \<noteq> p_assigned_ip p"
    if "q \<in> set (update_rows (\<lambda>q. p_id q = p_id p) (?f t) (peers w))" "p_status q = ''active''" for q t
  proof -
    from that(1) obtain q' where q': "q' \<in> set (peers w)" "q = (if p_id q' = p_id p then ?f t q' else q')"
      by (auto simp only: in_update_rows)
    then have "p_id q' \<noteq> p_id p" "q = q'" using that(2) by (auto split: if_splits)
    with q'(1) that(2) lease_rows_unique [OF lr, of q' p] p show ?thesis by blast
  qed
  have gw: "p_assigned_ip p \<noteq> gw" using lease_rowsD(3) [OF lr p] .
  have "leases_ok gw (w'\<lparr>peers := update_rows (\<lambda>q. p_id q = p_id p) (?f t) (peers w),
       pool := (pool w)\<lparr>used := used (pool w) - {p_assigned_ip p}\<rparr>\<rparr>)" for t w'
    using I wf' lr' others gw by (auto simp add: leases_ok_def intro: lease_rows_release)
  moreover have "leases_ok gw (w'\<lparr>peers := update_rows (\<lambda>q. p_id q = p_id p) (?f t) (peers w)\<rparr>)"
    if "pool w' = pool w" for t w'
    using I wf' lr' that by (simp add: leases_ok_def)
  ultimately show ?thesis
    using I by (auto simp add: RemovePeer_commit_def wp_rules wp_peers_UpdateStatus)
qed

lemma RemovePeer_leases: "preserves (leases_ok gw) (RemovePeer L userID k)"
proof (rule preservesI)
  fix w
  assume I: "leases_ok gw w"
  obtain r w' where t: "find_target L userID k w = (r, w')" by force
  have I': "leases_ok gw w'" using I readonlyD [OF readonly_find_target t] leases_ok_stutters by blast
  show "wp (RemovePeer L userID k) (\<lambda>_. leases_ok gw) w"
  proof (cases r)
    case (Inl e)
    with t I' show ?thesis by (simp add: RemovePeer_def wp_tryE) (simp add: wp_def)
  next
    case (Inr p)
    note p = find_target_Inr [OF t [unfolded Inr]]
    from p(2) stutters_same(3) [OF p(1)] have "p \<in> set (peers w')" by simp
    from RemovePeer_commit_leases [OF I' this p(3)] t Inr show ?thesis
      by (simp add: RemovePeer_def wp_tryE) (simp add: wp_def)
  qed
qed

lemma peers_UpdatePublicKey_leases: "preserves (leases_ok gw) (peers_UpdatePublicKey i pk)"
proof (rule preservesI)
  fix w
  assume I: "leases_ok gw w"
  have "leases_ok gw ((tick w)\<lparr>peers := update_rows (\<lambda>p. p_id p = i)
      (\<lambda>p. p\<lparr>p_public_key := pk, p_updated_at := t\<rparr>) (peers w)\<rparr>)"
    if "\<not> (\<exists>p \<in> set (peers w). p_id p = i \<and> (\<not> varchar_ok 64 pk \<or>
          (\<exists>q \<in> set (peers w). p_id q \<noteq> i \<and> p_public_key q = pk)))" for t
  proof -
    have "peers_wf (update_rows (\<lambda>p. p_id p = i) (\<lambda>p. p\<lparr>p_public_key := pk, p_updated_at := t\<rparr>) (peers w))"
    proof (cases "\<exists>p \<in> set (peers w). p_id p = i")
      case True
      with I that show ?thesis by (intro peers_wf_rekey) (auto simp add: leases_ok_def)
    next
      case False
      then have "update_rows (\<lambda>p. p_id p = i) (\<lambda>p. p\<lparr>p_public_key := pk, p_updated_at := t\<rparr>) (peers w) = peers w"
        by (auto simp add: update_rows_def intro: map_idI)
      with I show ?thesis by (simp add: leases_ok_def)
    qed
    moreover have "lease_rows gw (pool w) (update_rows (\<lambda>p. p_id p = i) (\<lambda>p. p\<lparr>p_public_key := pk, p_updated_at := t\<rparr>) (peers w))"
      using I by (intro lease_rows_update) (auto simp add: leases_ok_def)
    ultimately show ?thesis using I by (simp add: leases_ok_def)
  qed
  with I show "wp (peers_UpdatePublicKey i pk) (\<lambda>_. leases_ok gw) w"
    unfolding peers_UpdatePublicKey_def wp_ext_call by (simp add: wp_def)
qed

lemma ConfigureDevice_leases: "preserves (leases_ok gw) (ConfigureDevice L cfg)"
  by (rule preservesI) (simp add: wp_rules)

lemma ReplaceKey_leases: "preserves (leases_ok gw) (ReplaceKey L userID k1 k2)"
  unfolding ReplaceKey_def
  by (intro preserves_tryE leases_ok_readonly [OF readonly_find_target] ConfigureDevice_leases
      peers_UpdatePublicKey_leases)

text \<open>A row update by id that touches neither keys, ids, addresses nor activates a row.\<close>

lemma leases_ok_update_rows:
  assumes "leases_ok gw w"
    and "\<And>p. p_id (f p) = p_id p" "\<And>p. p_public_key (f p) = p_public_key p"
    and "\<And>p. p_status (f p) = ''active'' \<Longrightarrow> p_status p = ''active''"
    and "\<And>p. p_status (f p) = ''active'' \<Longrightarrow> p_assigned_ip (f p) = p_assigned_ip p"
  shows "leases_ok gw (w\<lparr>peers := update_rows P f (peers w)\<rparr>)"
  using assms by (auto simp add: leases_ok_def intro: peers_wf_update lease_rows_update)

lemmas leases_ok_update_rows_tick =
  leases_ok_update_rows [of gw "tick w" for gw w, unfolded leases_ok_tick tick_simps]

lemma peers_UpdateLastSeen_leases: "preserves (leases_ok gw) (peers_UpdateLastSeen i t)"
  by (rule preservesI)
     (auto simp add: peers_UpdateLastSeen_def wp_rules intro!: leases_ok_update_rows_tick)

lemma peers_UpdateStatus_leases:
  "s \<noteq> ''active'' \<Longrightarrow> varchar_ok 16 s \<Longrightarrow> preserves (leases_ok gw) (peers_UpdateStatus i s)"
  by (rule preservesI)
     (auto simp add: wp_peers_UpdateStatus intro!: leases_ok_update_rows_tick)

lemma Reserve_leases: "preserves (leases_ok gw) (on_pool (Reserve t ip))"
proof (rule preservesI)
  fix w
  assume I: "leases_ok gw w"
  obtain r i where re: "Reserve t ip (pool w) = (r, i)" by force
  then have "subnet i = subnet (pool w)" "used (pool w) \<subseteq> used i"
    using Reserve_subnet [of t ip "pool w"] Reserve_used_mono [of "pool w" t ip] by auto
  with I have "leases_ok gw (w\<lparr>pool := i\<rparr>)"
    by (auto simp add: leases_ok_def intro: lease_rows_used_mono)
  with re show "wp (on_pool (Reserve t ip)) (\<lambda>_. leases_ok gw) w"
    by (simp add: wp_on_pool) (simp add: wp_def)
qed

lemma reconcile_db_leases: "preserves (leases_ok gw) (reconcile_db L m ps cs)"
proof (induction L m ps cs rule: reconcile_db.induct)
  case (2 L m p ps changes)
  then show ?case
    by (auto split: option.splits intro!: preserves_tryE peers_UpdateLastSeen_leases)
qed (simp add: preserves_ret)

lemma Reconcile_leases: "preserves (leases_ok gw) (Reconcile L)"
  unfolding Reconcile_def Let_def
  by (intro preserves_intros reconcile_db_leases Reserve_leases ConfigureDevice_leases
      leases_ok_readonly [OF readonly_Device] leases_ok_readonly [OF readonly_peers_ListActive])

lemma RotateServerKey_leases: "preserves (leases_ok gw) (RotateServerKey L k)"
  unfolding RotateServerKey_def
  by (intro preserves_intros ConfigureDevice_leases leases_ok_readonly [OF readonly_peers_ListActive])
     (simp_all add: preserves_def modify_def)

lemma SetWGEnabled_leases: "preserves (leases_ok gw) (SetWGEnabled L b)"
  unfolding SetWGEnabled_def enableWG_def disableWG_def
  by (intro preserves_intros ConfigureDevice_leases leases_ok_readonly [OF readonly_peers_ListActive])

lemmas manager_leases = AddPeer_leases RemovePeer_leases ReplaceKey_leases Reconcile_leases
  RotateServerKey_leases SetWGEnabled_leases

section \<open>Reconciliation\<close>

lemma wgPeersByKey_Some:
  "wgPeersByKey L d s = Some p \<Longrightarrow> p \<in> set (dev_peers d) \<and> key_string L (wp_key p) = s"
  by (auto simp add: wgPeersByKey_def dest!: map_of_SomeD)

lemma wgPeersByKey_None:
  "wgPeersByKey L d s = None \<longleftrightarrow> s \<notin> key_string L ` dev_keys d"
  by (auto simp add: wgPeersByKey_def map_of_eq_None_iff dev_keys_def image_image)

lemma key_lib_inj: "key_lib L \<Longrightarrow> key_string L j = key_string L k \<Longrightarrow> j = k"
  by (metis key_lib_def option.inject)

text \<open>The key set a list of additions and removals leaves.\<close>

lemma fold_adds: "\<forall>c \<in> set cs. \<not> pc_remove c \<Longrightarrow> fold apply_key cs K = K \<union> pc_key ` set cs"
  by (induction cs arbitrary: K) auto

lemma fold_removes: "\<forall>c \<in> set cs. pc_remove c \<Longrightarrow> fold apply_key cs K = K - pc_key ` set cs"
  by (induction cs arbitrary: K) auto

definition reconcile_adds :: "libs \<Rightarrow> (string \<rightharpoonup> wg_peer) \<Rightarrow> peer list \<Rightarrow> peer_config list" where
  "reconcile_adds L m ps = row_configs L False (filter (\<lambda>p. m (p_public_key p) = None) ps)"

lemma reconcile_db_wp:
  "no_faults w \<Longrightarrow>
   wp (reconcile_db L m ps cs) (\<lambda>r w'. r = Inr (cs @ reconcile_adds L m ps) \<and>
      device w' = device w \<and> pool w' = pool w \<and> users w' = users w \<and> no_faults w') w"
proof (induction ps arbitrary: cs w)
  case Nil
  then show ?case by (simp add: wp_rules reconcile_adds_def row_configs_def map_filter_simps)
next
  case (Cons p ps)
  have adds: "reconcile_adds L m (p # ps) =
      (if m (p_public_key p) = None then row_configs L False [p] else []) @ reconcile_adds L m ps"
    by (simp add: reconcile_adds_def row_configs_def map_filter_simps split: option.splits)
  note step = wp_mono [OF Cons.IH]
  show ?case
  proof (cases "m (p_public_key p)")
    case None
    then show ?thesis using Cons.prems
      by (auto simp add: adds row_configs_def map_filter_simps add_config_def split: option.splits
          intro!: step)
  next
    case (Some q)
    then show ?thesis using Cons.prems
      by (auto simp add: adds peers_UpdateLastSeen_def wp_rules no_faults_next split: option.splits
          intro!: step)
  qed
qed

end
