(* ===== verification/Frames.thy ===== *)
theory Frames
  imports Handlers PeerInvariants
begin

text \<open>
  Which tables each operation leaves alone. \<open>keeps f m\<close> says that \<open>m\<close> does not change the view
  \<open>f\<close> of the world; the rules follow the constructs operations are built from.
\<close>

definition keeps :: "(world \<Rightarrow> 'b) \<Rightarrow> 'a wop \<Rightarrow> bool" where
  "keeps f m \<longleftrightarrow> (\<forall>w. f (snd (m w)) = f w)"

section \<open>Rules\<close>

lemma keepsD: "keeps f m \<Longrightarrow> m w = (r, w') \<Longrightarrow> f w' = f w"
  by (metis keeps_def snd_conv)

lemma keeps_wp: "keeps f m \<Longrightarrow> wp m (\<lambda>_ w'. f w' = f w) w"
  by (simp add: keeps_def wp_iff)

lemma keepsI: "(\<And>w. wp m (\<lambda>_ w'. f w' = f w) w) \<Longrightarrow> keeps f m"
  by (simp add: keeps_def wp_iff)

lemma keeps_preserves: "keeps f m \<Longrightarrow> (\<And>w w'. f w' = f w \<Longrightarrow> I w \<Longrightarrow> I w') \<Longrightarrow> preserves I m"
  by (auto simp add: keeps_def preserves_def)

lemma keeps_comp: "keeps f m \<Longrightarrow> keeps (\<lambda>w. g (f w)) m"
  by (simp add: keeps_def)

lemma keeps_ret [frame_rules]: "keeps f (ret x)"
  by (simp add: keeps_def ret_def)

lemma keeps_fail [frame_rules]: "keeps f (fail e)"
  by (simp add: keeps_def fail_def)

lemma keeps_gets [frame_rules]: "keeps f (gets g)"
  by (simp add: keeps_def gets_def)

lemma keeps_time_now [frame_rules]: "keeps f time_now"
  by (simp add: time_now_def keeps_gets)

lemma keeps_modify [frame_rules]: "(\<And>w. f (g w) = f w) \<Longrightarrow> keeps f (modify g)"
  by (simp add: keeps_def modify_def)

lemma keeps_fresh_uuid [frame_rules]: "(\<And>w n. f (w\<lparr>nrnd := n\<rparr>) = f w) \<Longrightarrow> keeps f fresh_uuid"
  by (simp add: keeps_def fresh_uuid_def)

lemma keeps_on_pool [frame_rules]: "(\<And>w i. f (w\<lparr>pool := i\<rparr>) = f w) \<Longrightarrow> keeps f (on_pool m)"
  by (simp add: keeps_def on_pool_def split: prod.splits)

lemma keeps_caseE [frame_rules]:
  "keeps f m \<Longrightarrow> (\<And>e. keeps f (h e)) \<Longrightarrow> (\<And>x. keeps f (k x)) \<Longrightarrow> keeps f (caseE m h k)"
  by (simp add: keeps_def caseE_def split: prod.splits sum.splits) (metis snd_conv)

lemma keeps_tryE [frame_rules]: "keeps f m \<Longrightarrow> (\<And>x. keeps f (k x)) \<Longrightarrow> keeps f (tryE m k)"
  unfolding tryE_def by (intro frame_rules)

lemma keeps_ignoreE [frame_rules]: "keeps f m \<Longrightarrow> keeps f k \<Longrightarrow> keeps f (ignoreE m k)"
  unfolding ignoreE_def by (intro frame_rules)

lemma keeps_forE [frame_rules]: "(\<And>x. keeps f (g x)) \<Longrightarrow> keeps f (forE g xs)"
  by (induction xs) (auto intro: frame_rules)

lemma keeps_if [frame_rules]:
  "(b \<Longrightarrow> keeps f m) \<Longrightarrow> (\<not> b \<Longrightarrow> keeps f n) \<Longrightarrow> keeps f (if b then m else n)"
  by simp

lemma keeps_case_option [frame_rules]:
  "(v = None \<Longrightarrow> keeps f m) \<Longrightarrow> (\<And>x. v = Some x \<Longrightarrow> keeps f (k x)) \<Longrightarrow>
   keeps f (case v of None \<Rightarrow> m | Some x \<Rightarrow> k x)"
  by (simp split: option.splits)

lemma keeps_case_sum [frame_rules]:
  "(\<And>e. v = Inl e \<Longrightarrow> keeps f (m e)) \<Longrightarrow> (\<And>x. v = Inr x \<Longrightarrow> keeps f (k x)) \<Longrightarrow>
   keeps f (case v of Inl e \<Rightarrow> m e | Inr x \<Rightarrow> k x)"
  by (simp split: sum.splits)

lemma keeps_case_prod [frame_rules]:
  "(\<And>x y. v = (x, y) \<Longrightarrow> keeps f (m x y)) \<Longrightarrow> keeps f (case v of (x, y) \<Rightarrow> m x y)"
  by (simp split: prod.splits)

lemma keeps_let [frame_rules]: "keeps f (m v) \<Longrightarrow> keeps f (let x = v in m x)"
  by simp

lemma keeps_ext_call [frame_rules]:
  "(\<And>w. f (tick w) = f w) \<Longrightarrow> keeps f m \<Longrightarrow> keeps f (ext_call e m)"
  by (simp add: keeps_def ext_call_def)

lemma keeps_in_tx [frame_rules]:
  assumes m: "keeps f m"
    and tables: "\<And>w v. f v = f w \<Longrightarrow> f (v\<lparr>users := users w, invites := invites w, peers := peers w\<rparr>) = f w"
  shows "keeps f (in_tx m)"
  unfolding keeps_def
proof
  fix w
  obtain r v where mw: "m w = (r, v)" by force
  with m have "f v = f w" by (auto dest: keepsD)
  with mw tables [of v w] show "f (snd (in_tx m w)) = f w"
    by (cases r) (auto simp add: in_tx_def)
qed

lemma keeps_ConfigureDevice [frame_rules]:
  "(\<And>w. f (tick w) = f w) \<Longrightarrow> (\<And>w d. f (w\<lparr>device := d\<rparr>) = f w) \<Longrightarrow> keeps f (ConfigureDevice L cfg)"
  unfolding ConfigureDevice_def by (intro frame_rules)

text \<open>An operation that only reads keeps every view of the tables.\<close>

lemma keeps_readonly: "(\<And>w w'. stutters w w' \<Longrightarrow> f w' = f w) \<Longrightarrow> readonly m \<Longrightarrow> keeps f m"
  by (auto simp add: keeps_def readonly_def)

section \<open>Views\<close>

definition user_side :: "world \<Rightarrow> user list \<times> invite list" where
  "user_side w = (users w, invites w)"

definition peer_side :: "world \<Rightarrow> peer list \<times> ipam" where
  "peer_side w = (peers w, pool w)"

lemma side_frames [simp]:
  "user_side (tick w) = user_side w" "user_side (w\<lparr>peers := ps\<rparr>) = user_side w"
  "user_side (w\<lparr>pool := i\<rparr>) = user_side w" "user_side (w\<lparr>device := d\<rparr>) = user_side w"
  "user_side (w\<lparr>server_key := k\<rparr>) = user_side w" "user_side (w\<lparr>nrnd := n\<rparr>) = user_side w"
  "user_side (w\<lparr>limits := l\<rparr>) = user_side w"
  "peer_side (tick w) = peer_side w" "peer_side (w\<lparr>users := us\<rparr>) = peer_side w"
  "peer_side (w\<lparr>invites := is\<rparr>) = peer_side w" "peer_side (w\<lparr>device := d\<rparr>) = peer_side w"
  "peer_side (w\<lparr>server_key := k\<rparr>) = peer_side w" "peer_side (w\<lparr>nrnd := n\<rparr>) = peer_side w"
  "peer_side (w\<lparr>limits := l\<rparr>) = peer_side w"
  by (simp_all add: user_side_def peer_side_def)

lemma side_stutters:
  "stutters w w' \<Longrightarrow> user_side w' = user_side w" "stutters w w' \<Longrightarrow> peer_side w' = peer_side w"
  by (simp_all add: user_side_def peer_side_def stutters_same)

lemma keeps_sides:
  "readonly m \<Longrightarrow> keeps user_side m" "readonly m \<Longrightarrow> keeps peer_side m"
  "readonly m \<Longrightarrow> keeps users m" "readonly m \<Longrightarrow> keeps invites m" "readonly m \<Longrightarrow> keeps limits m"
  by (erule keeps_readonly [rotated]; simp add: side_stutters stutters_same)+

lemmas leaf_frames [frame_rules] =
  keeps_sides [OF readonly_users_FindByID] keeps_sides [OF readonly_users_FindByStudentID]
  keeps_sides [OF readonly_users_Count] keeps_sides [OF readonly_invites_FindByCode]
  keeps_sides [OF readonly_invites_FindByID] keeps_sides [OF readonly_peers_FindByID]
  keeps_sides [OF readonly_peers_ListActive] keeps_sides [OF readonly_Device]
  keeps_sides [OF readonly_AddPeer_admit] keeps_sides [OF readonly_find_target]

section \<open>The peer manager keeps users and invites\<close>

lemma peers_store_user_side [frame_rules]:
  "keeps user_side (peers_Activate i a)" "keeps user_side (peers_UpdateStatus i s)"
  "keeps user_side (peers_UpdatePublicKey i k)" "keeps user_side (peers_UpdateLastSeen i t)"
  "keeps user_side (peers_Create p)"
  by (rule keepsI, simp add: peers_Activate_def peers_UpdateStatus_def peers_UpdatePublicKey_def
      peers_UpdateLastSeen_def wp_rules Let_def; simp add: wp_def)+

lemma AddPeer_user_side: "keeps user_side (AddPeer L i k)"
  unfolding AddPeer_def AddPeer_register_def AddPeer_undo_def
  by (intro frame_rules side_frames)

lemma RemovePeer_user_side: "keeps user_side (RemovePeer L i k)"
  unfolding RemovePeer_def RemovePeer_commit_def
  by (intro frame_rules side_frames)

lemma ReplaceKey_user_side: "keeps user_side (ReplaceKey L i k1 k2)"
  unfolding ReplaceKey_def by (intro frame_rules side_frames)

lemma reconcile_db_user_side: "keeps user_side (reconcile_db L m ps cs)"
proof (induction L m ps cs rule: reconcile_db.induct)
  case (2 L m p ps changes)
  then show ?case by (auto intro!: frame_rules split: option.splits)
qed (simp add: keeps_ret)

lemma Reconcile_user_side: "keeps user_side (Reconcile L)"
  unfolding Reconcile_def Let_def
  by (intro frame_rules reconcile_db_user_side side_frames)

lemma RotateServerKey_user_side: "keeps user_side (RotateServerKey L k)"
  unfolding RotateServerKey_def
  by (intro frame_rules side_frames)

lemma SetWGEnabled_user_side: "keeps user_side (SetWGEnabled L b)"
  unfolding SetWGEnabled_def enableWG_def disableWG_def
  by (intro frame_rules side_frames)

lemmas manager_user_side = AddPeer_user_side RemovePeer_user_side ReplaceKey_user_side
  Reconcile_user_side RotateServerKey_user_side SetWGEnabled_user_side

section \<open>Accounts, registration and invites keep peers and addresses\<close>

lemma side_in_tx:
  "peer_side v = peer_side w \<Longrightarrow>
   peer_side (v\<lparr>users := users w, invites := invites w, peers := peers w\<rparr>) = peer_side w"
  by (simp add: peer_side_def)

lemma users_store_frames [frame_rules]:
  "keeps peer_side (insert_user u)" "keeps invites (insert_user u)"
  "keeps peer_side (users_UpdatePassword i h)" "keeps invites (users_UpdatePassword i h)"
  "keeps peer_side (users_Update i f)" "keeps invites (users_Update i f)"
  unfolding insert_user_def users_UpdatePassword_def users_Update_def
  by (auto simp add: keeps_def ext_call_def tryE_def caseE_def fresh_uuid_def ret_def fail_def modify_def Let_def
      split: prod.splits option.splits sqlval.splits)

lemma invites_store_frames [frame_rules]:
  "keeps peer_side (invites_Create iv)" "keeps users (invites_Create iv)"
  "keeps peer_side (invites_Update k g)" "keeps users (invites_Update k g)"
  "keeps peer_side (invites_Delete k)" "keeps users (invites_Delete k)"
  unfolding invites_Create_def invites_Update_def invites_Delete_def
  by (auto simp add: keeps_def ext_call_def tryE_def caseE_def fresh_uuid_def ret_def fail_def modify_def Let_def
      split: prod.splits option.splits sqlval.splits)

lemma HashPassword_frames [frame_rules]:
  "keeps peer_side (HashPassword L p)" "keeps users (HashPassword L p)" "keeps invites (HashPassword L p)"
  unfolding HashPassword_def by (auto intro!: frame_rules split: option.splits)

lemma generateInviteCode_frames [frame_rules]:
  "keeps peer_side generateInviteCode" "keeps users generateInviteCode"
proof -
  have "keeps peer_side (code_part n) \<and> keeps users (code_part n)" for n
    by (induction n) (auto simp add: rand_index_def intro!: frame_rules)
  then show "keeps peer_side generateInviteCode" "keeps users generateInviteCode"
    unfolding generateInviteCode_def by (auto intro!: frame_rules)
qed

lemma register_store_frames [frame_rules]:
  "keeps peer_side (users_RegisterBootstrapAdmin u)" "keeps invites (users_RegisterBootstrapAdmin u)"
  "keeps peer_side (users_RegisterWithInvite u c)"
  unfolding users_RegisterBootstrapAdmin_def users_RegisterWithInvite_def
  by (auto intro!: frame_rules simp add: side_in_tx) (simp add: keeps_def)

lemma Register_peer_side: "keeps peer_side (Register L s p c)"
  unfolding Register_def Let_def
  by (intro frame_rules side_frames)

lemma account_frames:
  "keeps peer_side (UpdateMe L i f)" "keeps invites (UpdateMe L i f)"
  "keeps peer_side (ChangePassword L i c n)" "keeps invites (ChangePassword L i c n)"
  unfolding UpdateMe_def ChangePassword_def
  by (auto intro!: frame_rules split: option.splits)

lemma admin_frames:
  "keeps peer_side (UpdateUser L i g)" "keeps invites (UpdateUser L i g)"
  "keeps peer_side (CreateInvite L i n d)" "keeps users (CreateInvite L i n d)"
  "keeps peer_side (UpdateInvite L i h)" "keeps users (UpdateInvite L i h)"
  "keeps peer_side (DeleteInvite L i)" "keeps users (DeleteInvite L i)"
  unfolding UpdateUser_def CreateInvite_def UpdateInvite_def DeleteInvite_def
  by (auto intro!: frame_rules split: option.splits)

lemma peer_status_user_side: "keeps user_side (DisconnectPeer L i)" "keeps user_side (RevokePeer L i)"
  unfolding DisconnectPeer_def RevokePeer_def
  by (auto intro!: frame_rules)

end
