(* ===== verification/Reference.thy ===== *)
theory Reference
  imports PeerStore
begin

text \<open>
  One concrete instance of the library parameters, small and executable, that has the documented
  behaviour the properties rely on. It serves the witnesses: they run the operations of the model
  on it. It makes no claim about the real libraries.
\<close>

section \<open>Identifiers and keys\<close>

definition ref_number :: "int \<Rightarrow> string \<Rightarrow> nat option" where
  "ref_number bound s =
     (if s \<noteq> [] \<and> list_all is_digit_char s \<and> int (digits_val s) < bound then Some (digits_val s) else None)"

lemma ref_number_decimal: "int n < bound \<Longrightarrow> ref_number bound (decimal n) = Some n"
  by (simp add: ref_number_def decimal_digits)

definition ref_uuid_parse :: "string \<Rightarrow> uuid option" where
  "ref_uuid_parse s = map_option of_nat (ref_number (2 ^ 128) s)"

definition ref_uuid_string :: "uuid \<Rightarrow> string" where
  "ref_uuid_string u = decimal (unat u)"

definition ref_ParseKey :: "string \<Rightarrow> wgkey option" where
  "ref_ParseKey s = map_option of_nat (ref_number (2 ^ 256) s)"

definition ref_key_string :: "wgkey \<Rightarrow> string" where
  "ref_key_string k = decimal (unat k)"

section \<open>The device\<close>

definition ref_apply_peer :: "peer_config \<Rightarrow> wg_peer list \<Rightarrow> wg_peer list" where
  "ref_apply_peer c ps =
     (let ips = [(ip, n). (Some ip, n) \<leftarrow> pc_ips c] in
      if pc_remove c then filter (\<lambda>p. wp_key p \<noteq> pc_key c) ps
      else if \<exists>p \<in> set ps. wp_key p = pc_key c
      then map (\<lambda>p. if wp_key p = pc_key c
                    then p\<lparr>wp_ips := (if pc_replace_ips c then ips else wp_ips p @ ips)\<rparr> else p) ps
      else ps @ [\<lparr>wp_key = pc_key c, wp_ips = ips, wp_handshake = None\<rparr>])"

definition ref_wg_apply :: "wg_config \<Rightarrow> wg_device \<Rightarrow> wg_device" where
  "ref_wg_apply c d =
     \<lparr>dev_key = (case cfg_private_key c of Some k \<Rightarrow> k | None \<Rightarrow> dev_key d),
      dev_port = (case cfg_listen_port c of Some p \<Rightarrow> p | None \<Rightarrow> dev_port d),
      dev_peers = fold ref_apply_peer (cfg_peers c) (if cfg_replace_peers c then [] else dev_peers d)\<rparr>"

lemma ref_apply_peer_keys: "wp_key ` set (ref_apply_peer c ps) = apply_key c (wp_key ` set ps)"
proof -
  have same: "wp_key ` set (map (\<lambda>p. if wp_key p = k then p\<lparr>wp_ips := f p\<rparr> else p) ps) = wp_key ` set ps" for k f
  proof -
    have "wp_key \<circ> (\<lambda>p. if wp_key p = k then p\<lparr>wp_ips := f p\<rparr> else p) = wp_key" by (simp add: fun_eq_iff)
    then show ?thesis by (simp only: set_map image_comp)
  qed
  show ?thesis
    by (auto simp only: ref_apply_peer_def Let_def apply_key.simps same split: if_splits) (force+)?
qed

lemma ref_fold_keys: "wp_key ` set (fold ref_apply_peer cs ps) = fold apply_key cs (wp_key ` set ps)"
  by (induction cs arbitrary: ps) (simp_all add: ref_apply_peer_keys del: apply_key.simps)

section \<open>Tokens\<close>

text \<open>A token is the list of its fields, each with its length in front.\<close>

definition ref_field :: "string \<Rightarrow> string" where
  "ref_field s = decimal (length s) @ CHR '':'' # s"

definition ref_unfield :: "string \<Rightarrow> (string \<times> string) option" where
  "ref_unfield t =
     (let ds = takeWhile is_digit_char t; rest = drop (length ds + 1) t; n = digits_val ds
      in if length rest < n then None else Some (take n rest, drop n rest))"

lemma ref_unfield_field: "ref_unfield (ref_field s @ t) = Some (s, t)"
proof -
  have "takeWhile is_digit_char (decimal (length s) @ CHR '':'' # s @ t) = decimal (length s)"
    using decimal_digits [of "length s"]
    by (simp add: takeWhile_append2 list_all_iff is_digit_char_def ascii_digit_def)
  then show ?thesis by (simp add: ref_unfield_def ref_field_def Let_def)
qed

fun ref_fields :: "string list \<Rightarrow> string" where
  "ref_fields [] = []"
| "ref_fields (s # ss) = ref_field s @ ref_fields ss"

fun ref_unfields :: "nat \<Rightarrow> string \<Rightarrow> string list option" where
  "ref_unfields 0 t = (if t = [] then Some [] else None)"
| "ref_unfields (Suc n) t =
     (case ref_unfield t of None \<Rightarrow> None | Some (s, rest) \<Rightarrow> map_option (Cons s) (ref_unfields n rest))"

lemma ref_unfields_fields: "ref_unfields (length ss) (ref_fields ss) = Some ss"
  by (induction ss) (simp_all add: ref_unfield_field)

definition ref_int :: "int \<Rightarrow> string" where
  "ref_int i = (if i < 0 then CHR ''-'' else CHR ''+'') # decimal (nat \<bar>i\<bar>)"

definition ref_unint :: "string \<Rightarrow> int" where
  "ref_unint s = (if hd s = CHR ''-'' then - int (digits_val (tl s)) else int (digits_val (tl s)))"

lemma ref_unint_code [code]:
  "ref_unint s = (let v = foldl (\<lambda>n c. n * 10 + int (digit_val c)) 0 (tl s) in if hd s = CHR ''-'' then - v else v)"
proof -
  have "int (foldl (\<lambda>n c. n * 10 + digit_val c) k ds) = foldl (\<lambda>n c. n * 10 + int (digit_val c)) (int k) ds" for k ds
    by (induction ds arbitrary: k) simp_all
  from this [of 0 "tl s"] show ?thesis by (simp add: ref_unint_def digits_val_def Let_def)
qed

lemma ref_unint_int: "ref_unint (ref_int i) = i"
  by (simp add: ref_unint_def ref_int_def)

definition ref_jwt_sign :: "string \<Rightarrow> claims \<Rightarrow> string option" where
  "ref_jwt_sign secret c =
     Some (ref_fields [secret, cl_subject c, ref_int (cl_issued_at c), ref_int (cl_expires_at c),
       cl_student_id c, cl_role c])"

definition ref_jwt_parse :: "string \<Rightarrow> time \<Rightarrow> string \<Rightarrow> jwt_result" where
  "ref_jwt_parse secret now tok =
     (case ref_unfields 6 tok of
        Some [s, sub, iat, ex, sid, role] \<Rightarrow>
          if s \<noteq> secret then JwtInvalid
          else if now < ref_unint ex
          then JwtOk \<lparr>cl_subject = sub, cl_issued_at = ref_unint iat, cl_expires_at = ref_unint ex,
                     cl_student_id = sid, cl_role = role\<rparr>
          else JwtExpired
      | _ \<Rightarrow> JwtInvalid)"

lemma ref_jwt_roundtrip:
  "ref_jwt_sign secret c = Some tok \<Longrightarrow>
   ref_jwt_parse secret now tok = (if now < cl_expires_at c then JwtOk c else JwtExpired)"
  using ref_unfields_fields [of "[secret, cl_subject c, ref_int (cl_issued_at c), ref_int (cl_expires_at c),
       cl_student_id c, cl_role c]"]
  by (auto simp add: ref_jwt_sign_def ref_jwt_parse_def ref_unint_int numeral_eq_Suc)

section \<open>The instance\<close>

definition ref_libs :: libs where
  "ref_libs =
     \<lparr>uuid_parse = ref_uuid_parse, uuid_string = ref_uuid_string, ParseKey = ref_ParseKey,
      key_string = ref_key_string, PublicKey = (\<lambda>k. k + 1), wg_apply = ref_wg_apply,
      bcrypt_hash = (\<lambda>salt p. if length p \<le> 72 then Some (CHR ''$'' # p) else None),
      bcrypt_check = (\<lambda>h p. h = CHR ''$'' # p),
      jwt_sign = ref_jwt_sign, jwt_parse = ref_jwt_parse,
      ip6 = \<lparr>parse_ipv6 = (\<lambda>_. None), ipv6_string = (\<lambda>_. [])\<rparr>,
      uni = \<lparr>letter_table = (\<lambda>_. False), digit_table = (\<lambda>_. False), lower_table = (\<lambda>r. r)\<rparr>,
      collate_le = (\<lambda>_ _. True), inet_le = (\<lambda>_ _. True), map_order = (\<lambda>_ ks. ks)\<rparr>"

lemma ref_uuid_lib: "uuid_lib ref_libs"
proof -
  have "int (unat u) < 2 ^ 128" for u :: uuid using uint_lt2p [of u] by simp
  then show ?thesis
    by (simp add: uuid_lib_def ref_libs_def ref_uuid_parse_def ref_uuid_string_def ref_number_decimal)
qed

lemma ref_key_lib: "key_lib ref_libs"
proof -
  have "int (unat k) < 2 ^ 256" for k :: wgkey using uint_lt2p [of k] by simp
  then show ?thesis
    by (simp add: key_lib_def ref_libs_def ref_ParseKey_def ref_key_string_def ref_number_decimal)
qed

lemma ref_wg_lib: "wg_lib ref_libs"
  by (simp add: wg_lib_def ref_libs_def ref_wg_apply_def dev_keys_def cfg_keys_def ref_fold_keys
      split: option.splits)

lemma ref_map_order_lib: "map_order_lib ref_libs"
  by (simp add: map_order_lib_def ref_libs_def)

text \<open>A server with one administrator, no peers, gateway 10.8.0.1 in a subnet of two hosts.\<close>

definition ref_admin :: user where
  "ref_admin =
     \<lparr>u_id = 1, u_student_id = ''2024001'', u_password = ''$Password1234'', u_role = ''admin'',
      u_invite_id = 0, u_display_name = None, u_email = None, u_phone = None, u_wechat = None,
      u_telegram = None, u_max_peers = 5, u_status = ''active'', u_created_at = 0, u_updated_at = 0\<rparr>"

definition ref_pool :: ipam where
  "ref_pool = \<lparr>subnet = \<lparr>net_ip = IP4 0x0A080000, mask_ones = 29, mask_bits = 32\<rparr>, used = {''10.8.0.1''}\<rparr>"

definition ref_rnd :: "nat \<Rightarrow> uuid" where
  "ref_rnd n = 100 + of_nat n"

definition ref_world :: world where
  "ref_world =
     \<lparr>users = [ref_admin], invites = [], peers = [], pool = ref_pool,
      device = \<lparr>dev_key = 9, dev_port = 51820, dev_peers = []\<rparr>, server_key = 9, listen_port = 51820,
      endpoint = ''vpn:51820'', clock = 1000000000, sched = (\<lambda>_. Done), elapsed = (\<lambda>_. 1), ncalls = 0,
      rnd = ref_rnd, nrnd = 0, limits = Map.empty\<rparr>"

text \<open>The same server after the administrator registered the peer with key 7.\<close>

definition ref_peer :: peer where
  "ref_peer =
     \<lparr>p_id = 50, p_user_id = 1, p_public_key = ''7'', p_assigned_ip = ''10.8.0.2'',
      p_status = ''active'', p_last_seen = None, p_created_at = 0, p_updated_at = 0\<rparr>"

definition ref_world1 :: world where
  "ref_world1 = ref_world
     \<lparr>peers := [ref_peer], pool := ref_pool\<lparr>used := {''10.8.0.1'', ''10.8.0.2''}\<rparr>,
      device := \<lparr>dev_key = 9, dev_port = 51820,
        dev_peers = [\<lparr>wp_key = 7, wp_ips = [(IP4 0x0A080002, 32)], wp_handshake = None\<rparr>]\<rparr>\<rparr>"

lemma ref_no_faults: "no_faults ref_world" "no_faults ref_world1"
  by (simp_all add: no_faults_def ref_world_def ref_world1_def)

end
