(* ===== verification/AuthProperties.thy ===== *)
theory AuthProperties
  imports Auth Reference
begin

text \<open>The properties of the authentication service.\<close>

section \<open>The password policy\<close>

text \<open>
  \<open>ValidatePassword\<close> accepts exactly the passwords that, after trimming, have 10 to 128
  bytes and contain a letter and a digit; each rejection names the first rule broken, is a
  policy error, and surrounding white space never matters.
\<close>

theorem ValidatePassword_spec:
  "(ValidatePassword t p = None \<longleftrightarrow>
      10 \<le> length (TrimSpace p) \<and> length (TrimSpace p) \<le> 128 \<and>
      (\<exists>r \<in> set (runes (TrimSpace p)). IsLetter t r) \<and> (\<exists>r \<in> set (runes (TrimSpace p)). IsDigit t r)) \<and>
   (\<forall>e. ValidatePassword t p = Some e \<longrightarrow> IsPasswordPolicyError e) \<and>
   (ValidatePassword t p = Some ErrPasswordTooShort \<longleftrightarrow> length (TrimSpace p) < 10) \<and>
   (ValidatePassword t p = Some ErrPasswordTooLong \<longleftrightarrow> 128 < length (TrimSpace p)) \<and>
   ValidatePassword t (TrimSpace p) = ValidatePassword t p"
proof -
  have flags: "scan_password t (runes (TrimSpace p)) False False =
      ((\<exists>r \<in> set (runes (TrimSpace p)). IsLetter t r), (\<exists>r \<in> set (runes (TrimSpace p)). IsDigit t r))"
    by (simp add: scan_password list_ex_iff)
  show ?thesis
    by (auto simp add: ValidatePassword_def Let_def flags IsPasswordPolicyError_def)
qed

theorem ValidatePassword_spec_witness:
  "ValidatePassword (uni ref_libs) '' Password1234 '' = None \<and>
   10 \<le> length (TrimSpace '' Password1234 '')"
proof -
  have "ValidatePassword (uni ref_libs) '' Password1234 '' = None" by code_simp
  with ValidatePassword_spec [of "uni ref_libs" "'' Password1234 ''"] show ?thesis by blast
qed

section \<open>Registration\<close>

text \<open>What a registration does to the tables.\<close>

definition registers :: "libs \<Rightarrow> string \<Rightarrow> string \<Rightarrow> world \<Rightarrow> user \<Rightarrow> world \<Rightarrow> bool" where
  "registers L sid code w u w' \<longleftrightarrow>
     users w' = users w @ [u] \<and> u_student_id u = TrimSpace sid \<and> u_status u = ''active'' \<and>
     u_max_peers u = 5 \<and> (\<forall>v \<in> set (users w). u_student_id v \<noteq> u_student_id u \<and> u_id v \<noteq> u_id u) \<and>
     (if users w = [] then u_role u = ''admin'' \<and> invites w' = invites w
      else u_role u = ''user'' \<and>
        (\<exists>iv. find (\<lambda>i. i_code i = TrimSpace code) (invites w) = Some iv \<and> u_invite_id u = i_id iv \<and>
              i_use_count iv < i_max_uses iv \<and>
              invites w' = update_rows (\<lambda>i. i_id i = i_id iv)
                (\<lambda>i. i\<lparr>i_use_count := i_use_count i + 1, i_used_by := Some (u_id u)\<rparr>) (invites w)))"

lemma RegisterBootstrapAdmin_wp:
  "wp (users_RegisterBootstrapAdmin u) (\<lambda>r w'.
     peers w' = peers w \<and> pool w' = pool w \<and> device w' = device w \<and> invites w' = invites w \<and>
     (case r of Inl _ \<Rightarrow> users w' = users w
      | Inr v \<Rightarrow> users w = [] \<and> users w' = [v] \<and> u_student_id v = u_student_id u \<and> u_role v = u_role u \<and>
          u_status v = u_status u \<and> u_max_peers v = u_max_peers u)) w"
  by (auto simp add: users_RegisterBootstrapAdmin_def wp_rules wp_insert_user Let_def)

lemma RegisterWithInvite_wp:
  "wp (users_RegisterWithInvite u code) (\<lambda>r w'.
     peers w' = peers w \<and> pool w' = pool w \<and> device w' = device w \<and>
     (case r of Inl _ \<Rightarrow> users w' = users w \<and> invites w' = invites w
      | Inr v \<Rightarrow> users w' = users w @ [v] \<and> u_student_id v = u_student_id u \<and> u_role v = u_role u \<and>
          u_status v = u_status u \<and> u_max_peers v = u_max_peers u \<and>
          (\<forall>x \<in> set (users w). u_student_id x \<noteq> u_student_id v \<and> u_id x \<noteq> u_id v) \<and>
          (\<exists>iv. find (\<lambda>i. i_code i = code) (invites w) = Some iv \<and> u_invite_id v = i_id iv \<and>
              i_use_count iv < i_max_uses iv \<and>
              length (filter (\<lambda>i. i_id i = i_id iv) (invites w)) = 1 \<and>
              invites w' = update_rows (\<lambda>i. i_id i = i_id iv)
                (\<lambda>i. i\<lparr>i_use_count := i_use_count i + 1, i_used_by := Some (u_id v)\<rparr>) (invites w)))) w"
  unfolding users_RegisterWithInvite_def
  apply (simp add: wp_rules wp_insert_user Let_def)
  by (simp add: wp_def)

lemma Register_wp:
  "wp (Register L sid pw code) (\<lambda>r w'. peers w' = peers w \<and> pool w' = pool w \<and> device w' = device w \<and>
     (case r of Inl _ \<Rightarrow> users w' = users w \<and> invites w' = invites w
      | Inr u \<Rightarrow> registers L sid code w u w')) w"
  unfolding Register_def HashPassword_def users_FindByStudentID_def users_Count_def invites_FindByCode_def Let_def
  by (auto simp add: wp_rules registers_def intro!: wp_mono [OF RegisterBootstrapAdmin_wp]
      wp_mono [OF RegisterWithInvite_wp] split: sum.splits)


text \<open>The reference server with one invite of which one use is left.\<close>

definition ref_invite :: invite where
  "ref_invite = \<lparr>i_id = 70, i_code = ''SCNET-AAAA-BBBB'', i_created_by = 1, i_used_by = None,
     i_max_uses = 1, i_use_count = 0, i_expires_at = None, i_created_at = 0\<rparr>"


section \<open>Login\<close>

text \<open>
  C19: \<open>Login\<close> changes nothing, and returns a token only for an existing active user whose stored
  hash accepts the password. Under the same secret that token validates to that user's id,
  student id and role as long as its expiry (cut to seconds) is ahead, and is reported as
  expired from then on.
\<close>

theorem Login_token_roundtrip:
  assumes jwt: "jwt_lib L" and run: "Login L c sid pw w = (Inr (tok, expiry), w')"
  shows "stutters w w' \<and>
     (\<exists>u \<in> set (users w). u_student_id u = sid \<and> u_status u = ''active'' \<and>
        CheckPassword L (u_password u) pw \<and>
        (\<forall>v. fst (ValidateToken L c tok v) =
          (if clock v < NewNumericDate expiry
           then Inr \<lparr>cl_subject = uuid_string L (u_id u), cl_issued_at = NewNumericDate (clock w'),
                  cl_expires_at = NewNumericDate expiry, cl_student_id = sid, cl_role = u_role u\<rparr>
           else Inl ErrTokenExpired)))"
proof -
  have "wp (Login L c sid pw) (\<lambda>r v. \<forall>tok expiry. r = Inr (tok, expiry) \<longrightarrow>
      (\<exists>u \<in> set (users w). u_student_id u = sid \<and> u_status u = ''active'' \<and> CheckPassword L (u_password u) pw \<and>
        expiry = token_expiry c (clock v) \<and> jwt_sign L (jwtSecret c) (user_claims L c u (clock v)) = Some tok)) w"
    by (auto simp add: Login_def users_FindByStudentID_def wp_rules dest: find_SomeD)
  from wp_I [OF this run] obtain u where u: "u \<in> set (users w)" "u_student_id u = sid" "u_status u = ''active''"
      "CheckPassword L (u_password u) pw" "expiry = token_expiry c (clock w')"
      "jwt_sign L (jwtSecret c) (user_claims L c u (clock w')) = Some tok" by blast
  have "fst (ValidateToken L c tok v) =
      (if clock v < NewNumericDate expiry then Inr (user_claims L c u (clock w')) else Inl ErrTokenExpired)" for v
    using jwt u(5,6)
    by (simp add: ValidateToken_def jwt_lib_def tryE_def caseE_def time_now_def gets_def user_claims_def ret_def fail_def)
  with u readonlyD [OF readonly_Login run] show ?thesis
    by (intro conjI bexI [OF _ u(1)]) (simp_all add: user_claims_def)
qed

lemma ref_jwt_lib: "jwt_lib ref_libs"
  unfolding jwt_lib_def by (simp add: ref_libs_def ref_jwt_roundtrip)

definition ref_auth :: auth_config where
  "ref_auth = \<lparr>jwtSecret = ''secret'', expiryHours = 24\<rparr>"

theorem Login_token_roundtrip_witness:
  "\<exists>tok expiry w'. Login ref_libs ref_auth ''2024001'' ''Password1234'' ref_world = (Inr (tok, expiry), w') \<and>
     (\<exists>cl. fst (ValidateToken ref_libs ref_auth tok ref_world) = Inr cl \<and> cl_role cl = ''admin'')"
proof -
  let ?run = "Login ref_libs ref_auth ''2024001'' ''Password1234'' ref_world"
  have "case fst ?run of Inr (tok, e) \<Rightarrow> clock ref_world < NewNumericDate e | _ \<Rightarrow> False"
    by (simp add: Login_def users_FindByStudentID_def caseE_def ext_call_def tryE_def time_now_def gets_def
        ret_def ref_world_def ref_admin_def ref_libs_def CheckPassword_def ref_jwt_sign_def next_outcome_def
        tick_def token_expiry_def ref_auth_def wrap_int_def NewNumericDate_def)
  then obtain tok e w' where run: "?run = (Inr (tok, e), w')" and e: "clock ref_world < NewNumericDate e"
    by (cases ?run) (auto split: sum.splits)
  from Login_token_roundtrip [OF ref_jwt_lib run] e run show ?thesis
    by (auto simp add: ref_world_def ref_admin_def)
qed

end
