(* ===== verification/AccountProperties.thy ===== *)
theory AccountProperties
  imports Account Reference
begin

text \<open>The properties of the account service.\<close>

section \<open>UpdateMe\<close>

definition same_identity :: "user \<Rightarrow> user \<Rightarrow> bool" where
  "same_identity u v \<longleftrightarrow>
     u_id v = u_id u \<and> u_student_id v = u_student_id u \<and> u_password v = u_password u \<and>
     u_role v = u_role u \<and> u_invite_id v = u_invite_id u \<and> u_max_peers v = u_max_peers u \<and>
     u_status v = u_status u \<and> u_created_at v = u_created_at u"

text \<open>The profile values an update asks for: trimmed, a blank one clears the column.\<close>

definition new_value :: "(string \<Rightarrow> string) \<Rightarrow> string option \<Rightarrow> string option \<Rightarrow> string option" where
  "new_value norm v old =
     (case v of None \<Rightarrow> old | Some s \<Rightarrow> if TrimSpace s = '''' then None else Some (norm (TrimSpace s)))"

lemma field_updates_value:
  "display_name_update v = Inr d \<Longrightarrow> opt_field d x = new_value id v x"
  "email_update t v = Inr d \<Longrightarrow> opt_field d x = new_value (ToLower t) v x"
  "phone_update v = Inr d \<Longrightarrow> opt_field d x = new_value id v x"
  "wechat_update v = Inr d \<Longrightarrow> opt_field d x = new_value id v x"
  "telegram_update v = Inr d \<Longrightarrow> opt_field d x = new_value id v x"
  by (auto simp add: display_name_update_def email_update_def phone_update_def wechat_update_def
      telegram_update_def no_update_def nullableUpdate_def opt_field_def new_value_def Let_def
      split: option.splits if_splits)

lemma wp_users_Update:
  "user_fields_ok f \<Longrightarrow>
   wp (users_Update i f) Q w =
     (if no_fields f then Q (Inr ()) w
      else (next_outcome w = Failed \<longrightarrow> Q (Inl (Wrapped ''update user'' PgError)) (tick w)) \<and>
           (next_outcome w \<noteq> Failed \<longrightarrow> Q (Inr ()) ((tick w)\<lparr>users :=
              update_rows (\<lambda>u. u_id u = i) (apply_user_fields f (clock (tick w))) (users w)\<rparr>)))"
  by (simp add: users_Update_effect wp_rules)

text \<open>The row an update leaves, also when there was nothing to set.\<close>

definition profile_row :: "libs \<Rightarrow> SelfUpdateFields \<Rightarrow> user \<Rightarrow> user \<Rightarrow> bool" where
  "profile_row L f u v \<longleftrightarrow> same_identity u v \<and>
     u_display_name v = new_value id (s_display_name f) (u_display_name u) \<and>
     u_email v = new_value (ToLower (uni L)) (s_email f) (u_email u) \<and>
     u_phone v = new_value id (s_phone f) (u_phone u) \<and>
     u_wechat v = new_value id (s_wechat f) (u_wechat u) \<and>
     u_telegram v = new_value id (s_telegram f) (u_telegram u)"

lemma profile_row_apply:
  assumes "self_update_fields L f = Inr g"
  shows "profile_row L f u (apply_user_fields g t u)" "no_fields g \<Longrightarrow> profile_row L f u u"
proof -
  note g = self_update_fields_Inr [OF assms]
  note val = field_updates_value(1) [OF g(7)] field_updates_value(2) [OF g(4)] field_updates_value(3) [OF g(5)]
    field_updates_value(4) [OF g(6)] field_updates_value(5) [OF g(8)]
  show "profile_row L f u (apply_user_fields g t u)"
    by (simp add: profile_row_def same_identity_def apply_user_fields_def g(2,3) opt_val_def val)
  assume "no_fields g"
  then show "profile_row L f u u"
    using val [of "u_display_name u"] val [of "u_email u"] val [of "u_phone u"] val [of "u_wechat u"]
      val [of "u_telegram u"]
    by (auto simp add: profile_row_def same_identity_def no_fields_def opt_field_def)
qed

definition own_rows :: "libs \<Rightarrow> string \<Rightarrow> SelfUpdateFields \<Rightarrow> user list \<Rightarrow> user list \<Rightarrow> bool" where
  "own_rows L userID f us us' \<longleftrightarrow>
     list_all2 (\<lambda>u v. v = u \<or> (uuid_parse L userID = Some (u_id u) \<and> profile_row L f u v)) us us'"

definition own_row :: "libs \<Rightarrow> string \<Rightarrow> SelfUpdateFields \<Rightarrow> user list \<Rightarrow> user \<Rightarrow> bool" where
  "own_row L userID f us v \<longleftrightarrow> (\<exists>u \<in> set us. uuid_parse L userID = Some (u_id u) \<and> profile_row L f u v)"

lemma UpdateMe_wp:
  "wp (UpdateMe L userID f) (\<lambda>r w'.
     peers w' = peers w \<and> invites w' = invites w \<and> pool w' = pool w \<and> device w' = device w \<and>
     own_rows L userID f (users w) (users w') \<and>
     (\<forall>v. r = Inr (Some v) \<longrightarrow> v \<in> set (users w') \<and> own_row L userID f (users w) v)) w"
proof -
  have upd: "own_rows L userID f us
      (update_rows (\<lambda>u. u_id u = i) (apply_user_fields g t) us)"
    if "self_update_fields L f = Inr g" "uuid_parse L userID = Some i" for us g t i
    using that profile_row_apply(1) by (auto simp add: own_rows_def update_rows_def list_all2_conv_all_nth)
  have refl: "own_rows L userID f us us" for us
    by (simp add: own_rows_def list_all2_same)
  have found: "v \<in> set us' \<and> own_row L userID f us v"
    if fields: "self_update_fields L f = Inr g" "uuid_parse L userID = Some i"
      and us': "us' = update_rows (\<lambda>u. u_id u = i) (apply_user_fields g t) us"
      and v: "find (\<lambda>u. u_id u = i) us' = Some v" for us us' g t i v
  proof -
    from find_SomeD [OF v] have v: "v \<in> set us'" "u_id v = i" by auto
    then obtain u where "u \<in> set us" "v = (if u_id u = i then apply_user_fields g t u else u)"
      by (auto simp add: us' in_update_rows)
    with v fields profile_row_apply(1) show ?thesis
      unfolding own_row_def by (intro conjI bexI [of _ u]) (auto split: if_splits)
  qed
  have found0: "v \<in> set us \<and> own_row L userID f us v"
    if "self_update_fields L f = Inr g" "no_fields g" "uuid_parse L userID = Some i"
      "find (\<lambda>u. u_id u = i) us = Some v" for us g i v
    using find_SomeD [OF that(4)] profile_row_apply(2) [OF that(1,2)] that(3) by (auto simp add: own_row_def)
  show ?thesis
    by (auto simp add: UpdateMe_def users_FindByID_def wp_rules wp_users_Update self_update_fields_Inr(1)
        refl upd found found0)
qed

text \<open>
  C36: a user's own update touches only the row of that user, in it only the five profile columns
  (never id, student id, password, role, limit, status or the invite), and no other table; when
  it succeeds the profile has the trimmed values asked for, a blank value clears the column, an
  absent one keeps it.
\<close>

theorem UpdateMe_scope:
  assumes run: "UpdateMe L userID f w = (r, w')"
  shows "peers w' = peers w \<and> invites w' = invites w \<and> pool w' = pool w \<and> device w' = device w \<and>
     own_rows L userID f (users w) (users w') \<and>
     (\<forall>v. r = Inr (Some v) \<longrightarrow> v \<in> set (users w') \<and> own_row L userID f (users w) v)"
  using wp_I [OF UpdateMe_wp run] .

theorem UpdateMe_scope_witness:
  "\<exists>v w'. UpdateMe ref_libs ''1'' (\<lparr>s_display_name = Some '' Ada '', s_email = Some ''ADA@SHU'',
       s_phone = None, s_wechat = None, s_telegram = None\<rparr>) ref_world = (Inr (Some v), w') \<and>
     u_display_name v = Some ''Ada'' \<and> u_email v = Some ''ada@shu'' \<and> u_role v = ''admin''"
proof -
  let ?f = "\<lparr>s_display_name = Some '' Ada '', s_email = Some ''ADA@SHU'', s_phone = None,
     s_wechat = None, s_telegram = None\<rparr>"
  let ?run = "UpdateMe ref_libs ''1'' ?f ref_world"
  have "case fst ?run of Inr (Some v) \<Rightarrow> True | _ \<Rightarrow> False" by code_simp
  then obtain v w' where run: "?run = (Inr (Some v), w')"
    by (cases ?run) (auto split: sum.splits option.splits)
  have t: "TrimSpace '' Ada '' = ''Ada''" "TrimSpace ''ADA@SHU'' = ''ADA@SHU''"
    "ToLower (uni ref_libs) ''ADA@SHU'' = ''ada@shu''" by code_simp+
  from UpdateMe_scope [OF run] obtain u where "u \<in> set (users ref_world)" "profile_row ref_libs ?f u v"
    by (auto simp add: own_row_def)
  then have "u_display_name v = Some ''Ada'' \<and> u_email v = Some ''ada@shu'' \<and> u_role v = ''admin''"
    by (auto simp add: ref_world_def ref_admin_def profile_row_def same_identity_def new_value_def t)
  with run show ?thesis by blast
qed

section \<open>ChangePassword\<close>

lemma ChangePassword_wp:
  assumes bc: "bcrypt_lib L"
  shows "wp (ChangePassword L userID cur new) (\<lambda>r w'. peers w' = peers w \<and> invites w' = invites w \<and>
     (case r of Inl _ \<Rightarrow> users w' = users w
      | Inr _ \<Rightarrow> \<exists>u h t i. find (\<lambda>v. u_id v = i) (users w) = Some u \<and> uuid_parse L userID = Some i \<and> IsActive u \<and>
          CheckPassword L (u_password u) cur \<and> TrimSpace cur \<noteq> TrimSpace new \<and>
          ValidatePassword (uni L) new = None \<and> CheckPassword L h new \<and>
          users w' = update_rows (\<lambda>v. u_id v = i) (\<lambda>v. v\<lparr>u_password := h, u_updated_at := t\<rparr>) (users w))) w"
  using bc unfolding ChangePassword_def HashPassword_def users_FindByID_def users_UpdatePassword_def
  by (simp add: wp_rules) (auto simp add: wp_def bcrypt_lib_def CheckPassword_def)

text \<open>
  C37: \<open>ChangePassword\<close> succeeds only for an active user who gave the current password and a
  different new one that passes the policy; then only that user's password column changes, to a
  hash that accepts the new password. When it fails no row changes.
\<close>

theorem ChangePassword_spec:
  assumes bc: "bcrypt_lib L" and wf: "users_wf (users w)"
    and run: "ChangePassword L userID cur new w = (r, w')"
  shows "peers w' = peers w \<and> invites w' = invites w \<and>
     (case r of Inl _ \<Rightarrow> users w' = users w
      | Inr _ \<Rightarrow> \<exists>u \<in> set (users w). \<exists>h t. uuid_parse L userID = Some (u_id u) \<and> IsActive u \<and>
          CheckPassword L (u_password u) cur \<and> TrimSpace cur \<noteq> TrimSpace new \<and>
          ValidatePassword (uni L) new = None \<and> CheckPassword L h new \<and>
          set (users w') = insert (u\<lparr>u_password := h, u_updated_at := t\<rparr>) (set (users w) - {u}))"
proof -
  have upd: "set (update_rows (\<lambda>v. u_id v = i) (\<lambda>v. v\<lparr>u_password := h, u_updated_at := t\<rparr>) (users w)) =
      insert (u\<lparr>u_password := h, u_updated_at := t\<rparr>) (set (users w) - {u})"
    if "find (\<lambda>v. u_id v = i) (users w) = Some u" for i u h t
  proof -
    from find_SomeD [OF that] have u: "u \<in> set (users w)" "u_id u = i" by auto
    from users_by_id.update_unique [OF _ u(1), of "\<lambda>v. v\<lparr>u_password := h, u_updated_at := t\<rparr>"] wf u(2)
    show ?thesis by (simp add: users_wf_def)
  qed
  note res = wp_I [OF ChangePassword_wp [OF bc] run]
  show ?thesis
  proof (cases r)
    case (Inr x)
    with res obtain u h t i where u: "find (\<lambda>v. u_id v = i) (users w) = Some u"
      "uuid_parse L userID = Some i" "IsActive u" "CheckPassword L (u_password u) cur"
      "TrimSpace cur \<noteq> TrimSpace new" "ValidatePassword (uni L) new = None" "CheckPassword L h new"
      "users w' = update_rows (\<lambda>v. u_id v = i) (\<lambda>v. v\<lparr>u_password := h, u_updated_at := t\<rparr>) (users w)"
      and rest: "peers w' = peers w" "invites w' = invites w" by auto
    from find_SomeD [OF u(1)] have "u \<in> set (users w)" "u_id u = i" by auto
    with u upd [OF u(1), of t h] rest Inr show ?thesis
      by (simp, intro bexI [of _ u] exI [of _ h] conjI) auto
  qed (use res in simp)
qed

theorem ChangePassword_spec_witness:
  "\<exists>w'. ChangePassword ref_libs ''1'' ''Password1234'' ''NewPassword5'' ref_world = (Inr (), w') \<and>
     (\<exists>u h t. users w' = [u] \<and> u = ref_admin\<lparr>u_password := h, u_updated_at := t\<rparr> \<and>
        CheckPassword ref_libs h ''NewPassword5'')"
proof -
  let ?run = "ChangePassword ref_libs ''1'' ''Password1234'' ''NewPassword5'' ref_world"
  have bc: "bcrypt_lib ref_libs" by (auto simp add: bcrypt_lib_def ref_libs_def split: if_splits)
  have wf: "users_wf (users ref_world)" by (simp add: users_wf_def ref_world_def)
  have "fst ?run = Inr ()" by code_simp
  then obtain w' where run: "?run = (Inr (), w')" by (metis prod.collapse)
  have "wp (ChangePassword ref_libs ''1'' ''Password1234'' ''NewPassword5'')
      (\<lambda>_ v. length (users v) = length (users ref_world)) ref_world"
    by (simp add: ChangePassword_def HashPassword_def users_FindByID_def users_UpdatePassword_def wp_rules)
       (simp add: wp_def)
  from wp_I [OF this run] have one: "length (users w') = 1" by (simp add: ref_world_def)
  from ChangePassword_spec [OF bc wf run] obtain h t where
    "set (users w') = {ref_admin\<lparr>u_password := h, u_updated_at := t\<rparr>}" "CheckPassword ref_libs h ''NewPassword5''"
    by (auto simp add: ref_world_def)
  moreover from one obtain u where "users w' = [u]" by (cases "users w'") auto
  ultimately show ?thesis using run by auto
qed

end
