(* ===== verification/AdminProperties.thy ===== *)
theory AdminProperties
  imports Admin Reference
begin

text \<open>The properties of the administration service.\<close>

section \<open>Invites stay within their limits\<close>

definition invite_ok :: "invite \<Rightarrow> bool" where
  "invite_ok i \<longleftrightarrow> 0 \<le> i_use_count i \<and> i_use_count i \<le> i_max_uses i \<and>
     (i_used_by i = None \<longleftrightarrow> i_use_count i = 0)"

definition invites_ok :: "world \<Rightarrow> bool" where
  "invites_ok w \<longleftrightarrow> invites_wf (invites w) \<and> (\<forall>i \<in> set (invites w). invite_ok i)"

lemma invites_ok_cong: "invites w' = invites w \<Longrightarrow> invites_ok w' = invites_ok w"
  by (simp add: invites_ok_def)

lemma invites_ok_simps [simp]:
  "invites_ok (tick w) = invites_ok w" "invites_ok (w\<lparr>users := us\<rparr>) = invites_ok w"
  "invites_ok (w\<lparr>peers := ps\<rparr>) = invites_ok w" "invites_ok (w\<lparr>pool := i\<rparr>) = invites_ok w"
  "invites_ok (w\<lparr>device := d\<rparr>) = invites_ok w" "invites_ok (w\<lparr>server_key := k\<rparr>) = invites_ok w"
  "invites_ok (w\<lparr>nrnd := n\<rparr>) = invites_ok w"
  by (simp_all add: invites_ok_def)

lemma invites_ok_stutters: "invites_ok w \<Longrightarrow> stutters w w' \<Longrightarrow> invites_ok w'"
  using invites_ok_cong stutters_same by blast

lemma invites_ok_update:
  assumes "invites_ok w" "i_id iv = k" "iv \<in> set (invites w)" "invite_ok (f iv)"
    and "\<And>i. i_id (f i) = i_id i" "\<And>i. i_code (f i) = i_code i"
  shows "invites_ok (v\<lparr>invites := update_rows (\<lambda>i. i_id i = k) f (invites w)\<rparr>)"
proof -
  have wf: "invites_wf (invites w)" using assms(1) by (simp add: invites_ok_def)
  then have "set (update_rows (\<lambda>i. i_id i = i_id iv) f (invites w)) = insert (f iv) (set (invites w) - {iv})"
    using assms(3) by (intro invites_by_id.update_unique) (auto simp add: invites_wf_def)
  with assms wf show ?thesis
    by (auto simp add: invites_ok_def intro: invites_wf_update)
qed

lemma CreateInvite_ok: "preserves invites_ok (CreateInvite L by_id n d)"
proof (rule preservesI)
  fix w
  assume I: "invites_ok w"
  have ins: "invites_ok (v\<lparr>invites := invites w @ [i]\<rparr>)"
    if "\<not> (\<exists>j \<in> set (invites w). i_code j = i_code i \<or> i_id j = i_id i)" "invite_ok i" for v i
    using I that by (auto simp add: invites_ok_def invites_wf_def)
  show "wp (CreateInvite L by_id n d) (\<lambda>_. invites_ok) w"
    using I unfolding CreateInvite_def
    by (auto simp add: wp_rules invites_Create_def drew_def invites_ok_def [of w] intro!: wp_mono [OF generateInviteCode_wp])
       (auto simp add: wp_def invites_ok_def invites_wf_def invite_ok_def)
qed

lemma UpdateInvite_ok: "preserves invites_ok (UpdateInvite L i f)"
proof (rule preservesI)
  fix w
  assume I: "invites_ok w"
  have upd: "invites_ok (v\<lparr>invites := update_rows (\<lambda>j. i_id j = k) (apply_invite_fields f) (invites w)\<rparr>)"
    if "find (\<lambda>j. i_id j = k) (invites w) = Some iv"
      "\<not> (case f_max_uses f of None \<Rightarrow> False | Some n \<Rightarrow> n < 1 \<or> n < i_use_count iv)" for k iv v
  proof (rule invites_ok_update [OF I])
    show "i_id iv = k" "iv \<in> set (invites w)" using find_SomeD [OF that(1)] by auto
    then have "invite_ok iv" using I by (auto simp add: invites_ok_def)
    with that(2) show "invite_ok (apply_invite_fields f iv)"
      by (auto simp add: invite_ok_def apply_invite_fields_def split: option.splits)
  qed (simp_all add: apply_invite_fields_def)
  show "wp (UpdateInvite L i f) (\<lambda>_. invites_ok) w"
    using I upd
    by (auto simp add: UpdateInvite_def invites_FindByID_def wp_rules intro!: invites_Update_wp)
qed

lemma DeleteInvite_ok: "preserves invites_ok (DeleteInvite L i)"
proof (rule preservesI)
  fix w
  assume I: "invites_ok w"
  have "invites_ok (v\<lparr>invites := filter P (invites w)\<rparr>)" for v P
    using I by (auto simp add: invites_ok_def invites_wf_def intro: distinct_map_filter)
  with I show "wp (DeleteInvite L i) (\<lambda>_. invites_ok) w"
    by (auto simp add: DeleteInvite_def invites_FindByID_def invites_Delete_def wp_rules)
qed

section \<open>Summary\<close>

text \<open>
  When no call fails, the numbers of \<open>GetSummary\<close> are the numbers of rows of the tables with
  the status in question; the invite figures count by the state at the time of the query and the
  invite total is the number of all invites.
\<close>

theorem GetSummary_counts:
  assumes nf: "no_faults w" and run: "GetSummary w = (r, w')"
  shows "\<exists>s. r = Inr s \<and>
     UsersActive s = int (length (filter (\<lambda>u. u_status u = ''active'') (users w))) \<and>
     UsersSuspended s = int (length (filter (\<lambda>u. u_status u = ''suspended'') (users w))) \<and>
     UsersTotal s = int (length (filter (\<lambda>u. u_status u \<in> ValidStatuses) (users w))) \<and>
     PeersActive s = int (length (filter (\<lambda>p. p_status p = ''active'') (peers w))) \<and>
     PeersDisconnected s = int (length (filter (\<lambda>p. p_status p = ''disconnected'') (peers w))) \<and>
     PeersRevoked s = int (length (filter (\<lambda>p. p_status p = ''revoked'') (peers w))) \<and>
     InvitesTotal s = int (length (invites w)) \<and>
     InvitesAvailable s = int (length (filter (\<lambda>i. sql_invite_state (clock w') i = ''available'') (invites w))) \<and>
     InvitesExpired s = int (length (filter (\<lambda>i. sql_invite_state (clock w') i = ''expired'') (invites w)))"
proof -
  have three: "length (filter (\<lambda>x. f x = a) xs) + length (filter (\<lambda>x. f x = b) xs) + length (filter (\<lambda>x. f x = c) xs) =
      length (filter (\<lambda>x. f x \<in> {a, b, c}) xs)" if "distinct [a, b, c]" for f :: "'r \<Rightarrow> string" and a b c xs
    using that by (induction xs) auto
  have us: "length (filter (\<lambda>u. u_status u = ''active'') (users w)) + length (filter (\<lambda>u. u_status u = ''suspended'') (users w)) +
      length (filter (\<lambda>u. u_status u = ''deleted'') (users w)) = length (filter (\<lambda>u. u_status u \<in> ValidStatuses) (users w))"
    unfolding ValidStatuses_def by (rule three) simp
  have all: "filter (\<lambda>i. sql_invite_state t i \<in> {''available'', ''used_up'', ''expired''}) is = is" for t "is"
    by (rule filter_True) (simp add: sql_invite_state_def)
  have iv: "length (filter (\<lambda>i. sql_invite_state t i = ''available'') (invites w)) +
      length (filter (\<lambda>i. sql_invite_state t i = ''used_up'') (invites w)) +
      length (filter (\<lambda>i. sql_invite_state t i = ''expired'') (invites w)) = length (invites w)" for t
    using three [of "''available''" "''used_up''" "''expired''" "sql_invite_state t" "invites w"] by (simp only: all) simp
  have "GetSummary w = (Inr \<lparr>
      UsersTotal = int (length (filter (\<lambda>u. u_status u \<in> ValidStatuses) (users w))),
      UsersActive = int (length (filter (\<lambda>u. u_status u = ''active'') (users w))),
      UsersSuspended = int (length (filter (\<lambda>u. u_status u = ''suspended'') (users w))),
      PeersActive = int (length (filter (\<lambda>p. p_status p = ''active'') (peers w))),
      PeersDisconnected = int (length (filter (\<lambda>p. p_status p = ''disconnected'') (peers w))),
      PeersRevoked = int (length (filter (\<lambda>p. p_status p = ''revoked'') (peers w))),
      InvitesTotal = int (length (invites w)),
      InvitesAvailable = int (length (filter (\<lambda>i. sql_invite_state (clock (tick (tick (tick w)))) i = ''available'') (invites w))),
      InvitesExpired = int (length (filter (\<lambda>i. sql_invite_state (clock (tick (tick (tick w)))) i = ''expired'') (invites w)))\<rparr>,
      tick (tick (tick w)))"
    by (simp add: GetSummary_def users_CountByStatus_def peers_CountByStatus_def invites_CountByState_def
        tryE_def caseE_def ext_rows_def ret_def no_faults_next nf fill_zero_get map_get_group_count
        flip: us iv [of "clock (tick (tick (tick w)))"])
  then show ?thesis using run by auto
qed

theorem GetSummary_counts_witness:
  "\<exists>s. fst (GetSummary ref_world1) = Inr s \<and> UsersTotal s = 1 \<and> PeersActive s = 1 \<and> InvitesTotal s = 0"
proof -
  obtain r w' where run: "GetSummary ref_world1 = (r, w')" by force
  from GetSummary_counts [OF ref_no_faults(2) run] run show ?thesis
    by (auto simp add: ref_world1_def ref_world_def ref_admin_def ref_peer_def ValidStatuses_def)
qed

section \<open>Creating and deleting invites\<close>

text \<open>
  A successful \<open>CreateInvite\<close> adds one unused invite with the limit and creator asked for and
  a new code of the form \<open>SCNET-XXXX-XXXX\<close> over capital letters and digits; it expires after the
  days asked for. A failing one adds nothing.
\<close>

theorem CreateInvite_spec:
  assumes run: "CreateInvite L creator n d w = (r, w')"
  shows "users w' = users w \<and> peers w' = peers w \<and>
     (case r of Inl _ \<Rightarrow> invites w' = invites w
      | Inr i \<Rightarrow> invites w' = invites w @ [i] \<and> 1 \<le> n \<and> 1 \<le> d \<and> i_max_uses i = n \<and> i_use_count i = 0 \<and>
          i_used_by i = None \<and> uuid_parse L creator = Some (i_created_by i) \<and>
          (\<forall>j \<in> set (invites w). i_code j \<noteq> i_code i) \<and>
          (\<exists>now. i_expires_at i = Some (add_days now d)) \<and>
          (\<exists>p q. i_code i = ''SCNET-'' @ p @ ''-'' @ q \<and> length p = 4 \<and> length q = 4 \<and>
             set p \<union> set q \<subseteq> set inviteCodeCharset))"
proof -
  have "wp (CreateInvite L creator n d) (\<lambda>r w'. users w' = users w \<and> peers w' = peers w \<and>
     (case r of Inl _ \<Rightarrow> invites w' = invites w
      | Inr i \<Rightarrow> invites w' = invites w @ [i] \<and> 1 \<le> n \<and> 1 \<le> d \<and> i_max_uses i = n \<and> i_use_count i = 0 \<and>
          i_used_by i = None \<and> uuid_parse L creator = Some (i_created_by i) \<and>
          (\<forall>j \<in> set (invites w). i_code j \<noteq> i_code i) \<and>
          (\<exists>now. i_expires_at i = Some (add_days now d)) \<and>
          (\<exists>p q. i_code i = ''SCNET-'' @ p @ ''-'' @ q \<and> length p = 4 \<and> length q = 4 \<and>
             set p \<union> set q \<subseteq> set inviteCodeCharset))) w"
    unfolding CreateInvite_def
    by (auto simp add: wp_rules invites_Create_def drew_def intro!: wp_mono [OF generateInviteCode_wp])
       (auto simp add: wp_def)
  from wp_I [OF this run] show ?thesis .
qed

theorem CreateInvite_spec_witness:
  "\<exists>i w'. CreateInvite ref_libs ''1'' 3 7 ref_world = (Inr i, w') \<and> invites w' = [i] \<and> i_max_uses i = 3"
proof -
  let ?run = "CreateInvite ref_libs ''1'' 3 7 ref_world"
  have "case fst ?run of Inr _ \<Rightarrow> True | _ \<Rightarrow> False" by code_simp
  then obtain i w' where run: "?run = (Inr i, w')" by (cases ?run) (auto split: sum.splits)
  from CreateInvite_spec [OF run] run show ?thesis by (simp add: ref_world_def)
qed

text \<open>
  \<open>DeleteInvite\<close> removes exactly the invite named, and only one that was never used; a used,
  unknown or malformed one is refused and every failure leaves the invites as they are.
\<close>

theorem DeleteInvite_spec:
  assumes run: "DeleteInvite L inviteID w = (r, w')"
  shows "users w' = users w \<and> peers w' = peers w \<and>
     (case r of Inl _ \<Rightarrow> invites w' = invites w
      | Inr _ \<Rightarrow> \<exists>iv \<in> set (invites w). uuid_parse L inviteID = Some (i_id iv) \<and> i_use_count iv \<le> 0 \<and>
          i_used_by iv = None \<and> invites w' = filter (\<lambda>i. i_id i \<noteq> i_id iv) (invites w))"
proof -
  have "wp (DeleteInvite L inviteID) (\<lambda>r w'. users w' = users w \<and> peers w' = peers w \<and>
     (case r of Inl _ \<Rightarrow> invites w' = invites w
      | Inr _ \<Rightarrow> \<exists>iv \<in> set (invites w). uuid_parse L inviteID = Some (i_id iv) \<and> i_use_count iv \<le> 0 \<and>
          i_used_by iv = None \<and> invites w' = filter (\<lambda>i. i_id i \<noteq> i_id iv) (invites w))) w"
    by (auto simp add: DeleteInvite_def invites_FindByID_def invites_Delete_def wp_rules dest!: find_SomeD)
  from wp_I [OF this run] show ?thesis .
qed

definition ref_unused :: invite where
  "ref_unused = \<lparr>i_id = 70, i_code = ''SCNET-AAAA-BBBB'', i_created_by = 1, i_used_by = None,
     i_max_uses = 1, i_use_count = 0, i_expires_at = None, i_created_at = 0\<rparr>"

theorem DeleteInvite_spec_witness:
  "\<exists>w'. DeleteInvite ref_libs ''70'' (ref_world\<lparr>invites := [ref_unused]\<rparr>) = (Inr (), w') \<and> invites w' = []"
proof -
  let ?run = "DeleteInvite ref_libs ''70'' (ref_world\<lparr>invites := [ref_unused]\<rparr>)"
  have "fst ?run = Inr ()" by code_simp
  then obtain w' where run: "?run = (Inr (), w')" by (metis prod.collapse)
  from DeleteInvite_spec [OF run] run show ?thesis by auto
qed

section \<open>Updating users\<close>

text \<open>A limit that does not fit the column makes the statement fail, if it meets a row.\<close>

lemma users_Update_overflow:
  assumes "\<not> (- 2147483648 \<le> n \<and> n \<le> 2147483647)"
  shows "wp (users_Update i (empty_fields\<lparr>UserUpdateFields.f_max_peers := Some n, f_status := st\<rparr>))
     (\<lambda>r w'. users w' = users w \<and> peers w' = peers w \<and> invites w' = invites w) w"
proof -
  let ?f = "empty_fields\<lparr>UserUpdateFields.f_max_peers := Some n, f_status := st\<rparr>"
  obtain cs args k where b: "build_user_update ?f = (SetArg ''max_peers'' 1 # cs, SInt n # args, k)"
    by (cases st) (simp_all add: build_user_update_def empty_fields_def no_update_def)
  have "run_user_sets ((SetArg ''max_peers'' 1 # cs) @ ds) ((SInt n # args) @ es) now u = None" for ds es now u
    using assms by (auto simp add: sql_arg_def set_user_col_def)
  then show ?thesis
    by (auto simp add: users_Update_def b wp_rules Let_def update_rows_none simp del: run_user_sets.simps append.simps)
       (auto simp add: wp_def update_rows_none simp del: run_user_sets.simps append.simps split: option.splits sqlval.splits)
qed

definition admin_row :: "libs \<Rightarrow> string \<Rightarrow> AdminUserUpdateFields \<Rightarrow> user \<Rightarrow> user \<Rightarrow> bool" where
  "admin_row L userID f u v \<longleftrightarrow> v = u \<or> (uuid_parse L userID = Some (u_id u) \<and>
       (\<exists>t. v = u\<lparr>u_max_peers := opt_val (au_max_peers f) (u_max_peers u),
                 u_status := opt_val (au_status f) (u_status u), u_updated_at := t\<rparr>) \<and>
       (0 \<le> u_max_peers u \<longrightarrow> 0 \<le> u_max_peers v) \<and>
       (u_status u \<in> ValidStatuses \<longrightarrow> u_status v \<in> ValidStatuses))"

lemma UpdateUser_wp:
  "wp (UpdateUser L userID f) (\<lambda>r w'. list_all2 (admin_row L userID f) (users w) (users w') \<and>
     peers w' = peers w \<and> invites w' = invites w) w"
proof -
  let ?R = "admin_row L userID f"
  have refl: "list_all2 ?R us us" for us by (simp add: list_all2_same admin_row_def)
  let ?g = "empty_fields\<lparr>UserUpdateFields.f_max_peers := au_max_peers f, f_status := au_status f\<rparr>"
  let ?bad_max = "case au_max_peers f of None \<Rightarrow> False | Some n \<Rightarrow> n < 0"
  let ?bad_status = "case au_status f of None \<Rightarrow> False | Some s \<Rightarrow> s \<noteq> ''active'' \<and> s \<noteq> ''suspended''"
  have ok: "user_fields_ok ?g" if "\<not> ?bad_max" "\<not> ?bad_status" "\<forall>n. au_max_peers f = Some n \<longrightarrow> n \<le> 2147483647"
  proof -
    have "varchar_ok 16 ''active''" "varchar_ok 16 ''suspended''" by code_simp+
    with that show ?thesis
      by (auto simp add: user_fields_ok_def empty_fields_def no_update_def opt_field_ok_def split: option.splits)
  qed
  have upd: "list_all2 ?R us (update_rows (\<lambda>u. u_id u = i) (apply_user_fields ?g t) us)"
    if i: "uuid_parse L userID = Some i" and good: "\<not> ?bad_max" "\<not> ?bad_status" for us i t
  proof -
    have app: "apply_user_fields ?g t u = u\<lparr>u_max_peers := opt_val (au_max_peers f) (u_max_peers u),
        u_status := opt_val (au_status f) (u_status u), u_updated_at := t\<rparr>" for u
      by (cases u) (simp add: apply_user_fields_def empty_fields_def no_update_def opt_field_def)
    have lim: "0 \<le> opt_val (au_max_peers f) (u_max_peers u)" if "0 \<le> u_max_peers u" for u
      using that good by (cases "au_max_peers f") (simp_all add: opt_val_def)
    have st: "opt_val (au_status f) (u_status u) \<in> ValidStatuses" if "u_status u \<in> ValidStatuses" for u
      using that good by (cases "au_status f") (auto simp add: opt_val_def ValidStatuses_def)
    have "?R u (apply_user_fields ?g t u)" if "u_id u = i" for u
      unfolding admin_row_def using that i lim [of u] st [of u]
      by (intro disjI2 conjI impI exI [of _ t]) (simp_all add: app)
    then show ?thesis by (auto simp add: update_rows_def list_all2_conv_all_nth) (simp add: admin_row_def)
  qed
  show ?thesis
  proof (cases "\<forall>n. au_max_peers f = Some n \<longrightarrow> n \<le> 2147483647")
    case True
    then show ?thesis
      using ok upd by (auto simp add: UpdateUser_def users_FindByID_def wp_rules users_Update_effect refl)
  next
    case False
    then obtain n where n: "au_max_peers f = Some n" "\<not> (- 2147483648 \<le> n \<and> n \<le> 2147483647)" by auto
    show ?thesis
      using n(1) by (auto simp add: UpdateUser_def users_FindByID_def wp_rules refl
          intro!: wp_mono [OF users_Update_overflow [OF n(2)]])
  qed
qed

text \<open>
  An \<open>UpdateUser\<close> can only set the peer limit (not below 0) and the status (to active or
  suspended) of the user named; role, password, ids and profile stay, other users stay, and a
  refused request changes nothing.
\<close>

theorem UpdateUser_scope:
  assumes run: "UpdateUser L userID f w = (r, w')"
  shows "list_all2 (admin_row L userID f) (users w) (users w') \<and> peers w' = peers w \<and> invites w' = invites w"
  using wp_I [OF UpdateUser_wp run] .

theorem UpdateUser_scope_witness:
  "\<exists>u w'. UpdateUser ref_libs ''1'' \<lparr>au_max_peers = Some 9, au_status = Some ''suspended''\<rparr> ref_world = (Inr u, w') \<and>
     (\<forall>v \<in> set (users w'). u_role v = ''admin'')"
proof -
  let ?run = "UpdateUser ref_libs ''1'' \<lparr>au_max_peers = Some 9, au_status = Some ''suspended''\<rparr> ref_world"
  have "case fst ?run of Inr _ \<Rightarrow> True | _ \<Rightarrow> False" by code_simp
  then obtain u w' where run: "?run = (Inr u, w')" by (cases ?run) (auto split: sum.splits)
  from UpdateUser_scope [OF run] run show ?thesis
    by (auto simp add: ref_world_def ref_admin_def list_all2_Cons1 admin_row_def)
qed

end
