(* ===== verification/SystemInvariant.thy ===== *)
theory SystemInvariant
  imports Frames AuthProperties AccountProperties AdminProperties
begin

text \<open>
  The invariant of the whole server and its preservation by every operation of the services and
  of the peer manager: the leases of \<open>PeerInvariants\<close>, the invites of \<open>AdminProperties\<close>, and the
  tables of users and peers (unique ids and student ids, values in their ranges, every peer owned
  by an existing user).
\<close>

section \<open>Users and peers\<close>

definition user_ok :: "user \<Rightarrow> bool" where
  "user_ok u \<longleftrightarrow> u_role u \<in> ValidRoles \<and> u_status u \<in> ValidStatuses \<and> 0 \<le> u_max_peers u"

definition peer_ok :: "user list \<Rightarrow> peer \<Rightarrow> bool" where
  "peer_ok us p \<longleftrightarrow> p_status p \<in> ValidPeerStatuses \<and> p_user_id p \<in> u_id ` set us"

definition tables_ok :: "world \<Rightarrow> bool" where
  "tables_ok w \<longleftrightarrow> users_wf (users w) \<and> (\<forall>u \<in> set (users w). user_ok u) \<and>
     (\<forall>p \<in> set (peers w). peer_ok (users w) p)"

definition sys_inv :: "string \<Rightarrow> world \<Rightarrow> bool" where
  "sys_inv gw w \<longleftrightarrow> leases_ok gw w \<and> invites_ok w \<and> tables_ok w"

lemma tables_ok_cong: "users w' = users w \<Longrightarrow> peers w' = peers w \<Longrightarrow> tables_ok w' = tables_ok w"
  by (simp add: tables_ok_def)

lemma tables_ok_frame [simp]:
  "tables_ok (tick w) = tables_ok w" "tables_ok (w\<lparr>invites := vs\<rparr>) = tables_ok w"
  "tables_ok (w\<lparr>pool := i\<rparr>) = tables_ok w" "tables_ok (w\<lparr>device := d\<rparr>) = tables_ok w"
  "tables_ok (w\<lparr>server_key := k\<rparr>) = tables_ok w" "tables_ok (w\<lparr>nrnd := n\<rparr>) = tables_ok w"
  "tables_ok (w\<lparr>limits := l\<rparr>) = tables_ok w"
  by (simp_all add: tables_ok_def)

lemma tables_ok_stutters: "tables_ok w \<Longrightarrow> stutters w w' \<Longrightarrow> tables_ok w'"
  using tables_ok_cong [of w' w] stutters_same(1,3) [of w w'] by simp

lemma sys_inv_cong:
  "users w' = users w \<Longrightarrow> invites w' = invites w \<Longrightarrow> peers w' = peers w \<Longrightarrow> pool w' = pool w \<Longrightarrow>
   sys_inv gw w' = sys_inv gw w"
  using leases_ok_cong [of w' w gw] invites_ok_cong [of w' w] tables_ok_cong [of w' w]
  by (simp add: sys_inv_def)

lemma sys_inv_stutters: "sys_inv gw w \<Longrightarrow> stutters w w' \<Longrightarrow> sys_inv gw w'"
  using sys_inv_cong [of w' w gw] stutters_same(1-4) [of w w'] by simp

lemma sys_inv_readonly: "readonly m \<Longrightarrow> preserves (sys_inv gw) m"
  by (rule readonly_preserves) (auto intro: sys_inv_stutters)

lemma sys_invI:
  "preserves (leases_ok gw) m \<Longrightarrow> preserves invites_ok m \<Longrightarrow> preserves tables_ok m \<Longrightarrow> preserves (sys_inv gw) m"
  by (auto simp add: sys_inv_def preserves_def)

text \<open>The three parts, for an operation that keeps the other side.\<close>

lemma leases_ok_keeps: "keeps peer_side m \<Longrightarrow> preserves (leases_ok gw) m"
  by (erule keeps_preserves) (auto simp add: peer_side_def leases_ok_def)

lemma invites_ok_keeps: "keeps invites m \<Longrightarrow> preserves invites_ok m"
  by (erule keeps_preserves) (auto simp add: invites_ok_def)

lemma invites_ok_keeps_side: "keeps user_side m \<Longrightarrow> preserves invites_ok m"
  by (erule keeps_preserves) (auto simp add: user_side_def invites_ok_def)

lemma tables_ok_keeps: "keeps users m \<Longrightarrow> keeps peer_side m \<Longrightarrow> preserves tables_ok m"
  by (auto simp add: keeps_def preserves_def tables_ok_def peer_side_def)

section \<open>Changes of the table of users\<close>

text \<open>Rows that keep their ids and stay in range.\<close>

definition row_kept :: "user \<Rightarrow> user \<Rightarrow> bool" where
  "row_kept u v \<longleftrightarrow> u_id v = u_id u \<and> u_student_id v = u_student_id u \<and> (user_ok u \<longrightarrow> user_ok v)"

lemma rows_kept_tables:
  assumes I: "tables_ok w" and rows: "list_all2 row_kept (users w) (users w')" and ps: "peers w' = peers w"
  shows "tables_ok w'"
proof -
  have same: "map f (users w') = map f (users w)" if "\<And>u v. row_kept u v \<Longrightarrow> f v = f u" for f :: "user \<Rightarrow> 'b"
    using rows that by (induction rule: list_all2_induct) auto
  have ids: "map u_id (users w') = map u_id (users w)" "map u_student_id (users w') = map u_student_id (users w)"
    by (intro same; simp add: row_kept_def)+
  have "user_ok v" if "v \<in> set (users w')" for v
  proof -
    from that rows obtain u where "u \<in> set (users w)" "row_kept u v"
      by (metis in_set_conv_nth list_all2_conv_all_nth)
    with I show ?thesis by (auto simp add: tables_ok_def row_kept_def)
  qed
  moreover have "users_wf (users w')" using I ids by (simp add: tables_ok_def users_wf_def)
  moreover have "u_id ` set (users w') = u_id ` set (users w)" using ids(1) by (metis set_map)
  ultimately show ?thesis using I ps by (auto simp add: tables_ok_def peer_ok_def)
qed

lemma UpdateMe_tables: "preserves tables_ok (UpdateMe L i f)"
proof (rule preservesI)
  fix w
  assume I: "tables_ok w"
  have "list_all2 row_kept us us'" if "own_rows L i f us us'" for us us'
    using that unfolding own_rows_def
    by (rule list_all2_mono) (auto simp add: profile_row_def same_identity_def row_kept_def user_ok_def)
  with I show "wp (UpdateMe L i f) (\<lambda>_. tables_ok) w"
    by (intro wp_mono [OF UpdateMe_wp]) (auto intro: rows_kept_tables)
qed

lemma UpdateUser_tables: "preserves tables_ok (UpdateUser L i f)"
proof (rule preservesI)
  fix w
  assume I: "tables_ok w"
  have "list_all2 row_kept us us'" if "list_all2 (admin_row L i f) us us'" for us us'
    using that by (rule list_all2_mono) (auto simp add: admin_row_def row_kept_def user_ok_def)
  with I show "wp (UpdateUser L i f) (\<lambda>_. tables_ok) w"
    by (intro wp_mono [OF UpdateUser_wp]) (auto intro: rows_kept_tables)
qed

lemma users_UpdatePassword_tables: "preserves tables_ok (users_UpdatePassword i h)"
proof (rule preservesI)
  fix w
  assume I: "tables_ok w"
  have "list_all2 row_kept us (update_rows P (\<lambda>u. u\<lparr>u_password := h, u_updated_at := t\<rparr>) us)" for us P t
    by (auto simp add: update_rows_def list_all2_conv_all_nth row_kept_def user_ok_def)
  then have "tables_ok ((tick w)\<lparr>users := update_rows P (\<lambda>u. u\<lparr>u_password := h, u_updated_at := t\<rparr>) (users w)\<rparr>)" for P t
    by (intro rows_kept_tables [OF I]) simp_all
  with I show "wp (users_UpdatePassword i h) (\<lambda>_. tables_ok) w"
    unfolding users_UpdatePassword_def wp_ext_call by (simp add: wp_def)
qed

lemma tables_ok_FindByID: "preserves tables_ok (users_FindByID i)"
  using readonly_users_FindByID by (rule readonly_preserves) (rule tables_ok_stutters)

lemma ChangePassword_tables: "preserves tables_ok (ChangePassword L i c n)"
  unfolding ChangePassword_def HashPassword_def
  by (intro preserves_intros users_UpdatePassword_tables tables_ok_FindByID) simp_all

lemma tables_ok_append:
  assumes "tables_ok w" "users w' = users w @ [u]" "peers w' = peers w" "user_ok u"
    "\<forall>v \<in> set (users w). u_student_id v \<noteq> u_student_id u \<and> u_id v \<noteq> u_id u"
  shows "tables_ok w'"
  using assms by (auto simp add: tables_ok_def peer_ok_def users_wf_def)

lemma Register_tables: "preserves tables_ok (Register L s p c)"
proof (rule preservesI)
  fix w
  assume I: "tables_ok w"
  have "tables_ok w'" if "registers L s c w u w'" "peers w' = peers w" for u w'
    using that by (intro tables_ok_append [OF I, of w' u])
      (auto simp add: registers_def user_ok_def ValidRoles_def ValidStatuses_def split: if_splits)
  with I show "wp (Register L s p c) (\<lambda>_. tables_ok) w"
    by (intro wp_mono [OF Register_wp]) (auto split: sum.splits simp add: tables_ok_def)
qed

lemma Register_invites: "preserves invites_ok (Register L s p c)"
proof (rule preservesI)
  fix w
  assume I: "invites_ok w"
  have "invites_ok w'" if "registers L s c w u w'" for u w'
  proof (cases "users w = []")
    case True
    with that I show ?thesis by (auto simp add: registers_def invites_ok_def)
  next
    case False
    with that obtain iv where iv: "find (\<lambda>i. i_code i = TrimSpace c) (invites w) = Some iv"
      "i_use_count iv < i_max_uses iv"
      "invites w' = update_rows (\<lambda>i. i_id i = i_id iv)
         (\<lambda>i. i\<lparr>i_use_count := i_use_count i + 1, i_used_by := Some (u_id u)\<rparr>) (invites w)"
      by (auto simp add: registers_def)
    have "iv \<in> set (invites w)" using find_SomeD [OF iv(1)] by blast
    moreover from this I have "invite_ok iv" by (auto simp add: invites_ok_def)
    ultimately have "invites_ok (w\<lparr>invites := invites w'\<rparr>)"
      unfolding iv(3) using iv(2) by (intro invites_ok_update [OF I refl]) (auto simp add: invite_ok_def)
    then show ?thesis by (simp add: invites_ok_def)
  qed
  with I show "wp (Register L s p c) (\<lambda>_. invites_ok) w"
    by (intro wp_mono [OF Register_wp]) (auto split: sum.splits simp add: invites_ok_def)
qed

section \<open>Changes of the table of peers\<close>

lemma tables_ok_peer_rows:
  assumes I: "tables_ok w"
    and f: "\<And>p. p_user_id (f p) = p_user_id p"
    and st: "\<And>p. p_status p \<in> ValidPeerStatuses \<Longrightarrow> p_status (f p) \<in> ValidPeerStatuses"
  shows "tables_ok ((tick w)\<lparr>peers := update_rows P f (peers w)\<rparr>)"
  using I f st by (auto simp add: tables_ok_def peer_ok_def in_update_rows)

lemma peers_store_tables:
  "preserves tables_ok (peers_Activate i a)"
  "preserves tables_ok (peers_UpdatePublicKey i k)"
  "preserves tables_ok (peers_UpdateLastSeen i t)"
  "s \<in> ValidPeerStatuses \<Longrightarrow> preserves tables_ok (peers_UpdateStatus i s)"
  "p_status p \<in> ValidPeerStatuses \<Longrightarrow> preserves tables_ok (peers_Create p)"
proof -
  show "preserves tables_ok (peers_Activate i a)"
    by (rule preservesI) (simp add: wp_rules tables_ok_peer_rows ValidPeerStatuses_def)
  show "preserves tables_ok (peers_UpdatePublicKey i k)"
    by (rule preservesI, unfold peers_UpdatePublicKey_def wp_ext_call) (simp add: wp_def tables_ok_peer_rows)
  show "preserves tables_ok (peers_UpdateLastSeen i t)"
    by (rule preservesI) (simp add: peers_UpdateLastSeen_def wp_rules tables_ok_peer_rows)
  show "preserves tables_ok (peers_UpdateStatus i s)" if "s \<in> ValidPeerStatuses"
    using that by (intro preservesI, unfold peers_UpdateStatus_def wp_ext_call) (simp add: wp_def tables_ok_peer_rows)
  show "preserves tables_ok (peers_Create p)" if "p_status p \<in> ValidPeerStatuses"
    using that by (intro preservesI) (auto simp add: wp_peers_Create Let_def tables_ok_def peer_ok_def intro: rev_image_eqI)
qed

lemma tables_ok_readonly: "readonly m \<Longrightarrow> preserves tables_ok m"
  by (rule readonly_preserves) (auto intro: tables_ok_stutters)

lemma tables_ok_on_pool: "preserves tables_ok (on_pool m)"
  by (auto simp add: preserves_def on_pool_def split: prod.splits)

lemma tables_ok_ConfigureDevice: "preserves tables_ok (ConfigureDevice L cfg)"
  by (rule preservesI) (simp add: wp_rules)

lemmas tables_intros = preserves_intros peers_store_tables tables_ok_on_pool tables_ok_ConfigureDevice
  tables_ok_readonly [OF readonly_AddPeer_admit] tables_ok_readonly [OF readonly_find_target]
  tables_ok_readonly [OF readonly_Device] tables_ok_readonly [OF readonly_peers_ListActive]
  tables_ok_readonly [OF readonly_peers_FindByID]

lemma AddPeer_tables: "preserves tables_ok (AddPeer L i k)"
  unfolding AddPeer_def AddPeer_register_def AddPeer_undo_def
  by (intro tables_intros preserves_tryE)
     (auto simp add: ValidPeerStatuses_def split: prod.splits intro!: tables_intros)

lemma RemovePeer_tables: "preserves tables_ok (RemovePeer L i k)"
  unfolding RemovePeer_def RemovePeer_commit_def
  by (intro tables_intros) (simp add: ValidPeerStatuses_def)

lemma ReplaceKey_tables: "preserves tables_ok (ReplaceKey L i k1 k2)"
  unfolding ReplaceKey_def by (intro tables_intros)

lemma reconcile_db_tables: "preserves tables_ok (reconcile_db L m ps cs)"
proof (induction L m ps cs rule: reconcile_db.induct)
  case (2 L m p ps changes)
  then show ?case by (auto intro!: tables_intros split: option.splits)
qed (simp add: preserves_ret)

lemma Reconcile_tables: "preserves tables_ok (Reconcile L)"
  unfolding Reconcile_def Let_def by (intro tables_intros reconcile_db_tables)

lemma RotateServerKey_tables: "preserves tables_ok (RotateServerKey L k)"
  unfolding RotateServerKey_def by (intro tables_intros) (simp add: preserves_def modify_def)

lemma SetWGEnabled_tables: "preserves tables_ok (SetWGEnabled L b)"
  unfolding SetWGEnabled_def enableWG_def disableWG_def by (intro tables_intros)

lemma peer_status_tables: "preserves tables_ok (DisconnectPeer L i)" "preserves tables_ok (RevokePeer L i)"
  unfolding DisconnectPeer_def RevokePeer_def
  by (intro tables_intros; simp add: ValidPeerStatuses_def)+

lemma leases_ok_FindPeer: "preserves (leases_ok gw) (peers_FindByID i)"
  by (intro leases_ok_readonly readonly_intros)

lemma peer_status_leases: "preserves (leases_ok gw) (DisconnectPeer L i)" "preserves (leases_ok gw) (RevokePeer L i)"
  unfolding DisconnectPeer_def RevokePeer_def
  by (intro preserves_intros leases_ok_FindPeer peers_UpdateStatus_leases; simp)+

section \<open>The invariant, operation by operation\<close>

lemma sys_inv_manager:
  "preserves (sys_inv gw) (AddPeer L i k)" "preserves (sys_inv gw) (RemovePeer L i s)"
  "preserves (sys_inv gw) (ReplaceKey L i k1 k2)" "preserves (sys_inv gw) (Reconcile L)"
  "preserves (sys_inv gw) (RotateServerKey L k)" "preserves (sys_inv gw) (SetWGEnabled L b)"
  by (intro sys_invI manager_leases invites_ok_keeps_side manager_user_side AddPeer_tables RemovePeer_tables
      ReplaceKey_tables Reconcile_tables RotateServerKey_tables SetWGEnabled_tables)+

lemma sys_inv_peer_status:
  "preserves (sys_inv gw) (DisconnectPeer L i)" "preserves (sys_inv gw) (RevokePeer L i)"
  by (intro sys_invI peer_status_leases invites_ok_keeps_side peer_status_user_side peer_status_tables)+

lemma sys_inv_account:
  "preserves (sys_inv gw) (Register L s p c)" "preserves (sys_inv gw) (UpdateMe L i f)"
  "preserves (sys_inv gw) (ChangePassword L i c n)" "preserves (sys_inv gw) (UpdateUser L i g)"
  by (intro sys_invI leases_ok_keeps Register_peer_side account_frames admin_frames Register_invites
      invites_ok_keeps Register_tables UpdateMe_tables ChangePassword_tables UpdateUser_tables)+

lemma sys_inv_invites:
  "preserves (sys_inv gw) (CreateInvite L i n d)" "preserves (sys_inv gw) (UpdateInvite L i h)"
  "preserves (sys_inv gw) (DeleteInvite L i)"
  by (intro sys_invI leases_ok_keeps admin_frames CreateInvite_ok UpdateInvite_ok DeleteInvite_ok tables_ok_keeps)+

lemmas sys_inv_services = sys_inv_manager sys_inv_peer_status sys_inv_account sys_inv_invites

end
