(* ===== verification/Serving.thy ===== *)
theory Serving
  imports Router SystemInvariant
begin

text \<open>
  One request through the whole server: every handler, behind every chain of middlewares, keeps
  the invariant, and every request is answered.
\<close>

section \<open>Handlers that only read\<close>

lemma readonly_GetPeerConfig: "readonly (GetPeerConfig L i k)"
  unfolding GetPeerConfig_def by (intro readonly_intros readonly_find_target)

lemma readonly_device_status: "readonly WGEnabled" "readonly ActivePeerCount" "readonly ListenPort"
  unfolding WGEnabled_def ActivePeerCount_def ListenPort_def by (intro readonly_intros)+

lemmas service_reads = readonly_intros readonly_GetMe readonly_ListMyPeers readonly_Login readonly_GetPeerConfig
  readonly_device_status

lemma readonly_handlers:
  "readonly (h_Login L ac rq)" "readonly (h_GetMe L cx)" "readonly (h_ListMyPeers L rq cx)"
  "readonly (h_GetPeerConfig L rq cx)" "readonly (h_AdminMe L cx)" "readonly h_AdminSummary"
  "readonly (h_AdminListUsers L rq)" "readonly (h_AdminGetUser L s)" "readonly (h_AdminListUserPeers L rq s)"
  "readonly (h_AdminListPeers L rq)" "readonly (h_AdminListInvites rq)" "readonly (h_AdminGetWGStatus L)"
  "readonly h_Health" "readonly h_Version"
  unfolding h_Login_def h_GetMe_def h_ListMyPeers_def h_GetPeerConfig_def h_AdminMe_def h_AdminSummary_def
    h_AdminListUsers_def h_AdminGetUser_def h_AdminListUserPeers_def h_AdminListPeers_def h_AdminListInvites_def
    h_AdminGetWGStatus_def h_Health_def h_Version_def no_active_peer_def Let_def
  by (auto intro!: service_reads split: prod.splits option.splits)

section \<open>The chain of middlewares\<close>

text \<open>
  What the clock, the count of calls and the rate limits do not touch is kept by a chain when its
  handler keeps it.
\<close>

definition calm :: "(world \<Rightarrow> bool) \<Rightarrow> bool" where
  "calm I \<longleftrightarrow> (\<forall>w w'. I w \<longrightarrow> stutters w w' \<longrightarrow> I w') \<and> (\<forall>w l. I w \<longrightarrow> I (w\<lparr>limits := l\<rparr>))"

lemma calm_readonly: "calm I \<Longrightarrow> readonly m \<Longrightarrow> preserves I m"
  by (rule readonly_preserves) (auto simp add: calm_def)

text \<open>
  A chain of middlewares establishes \<open>Q\<close> when its refusals do, from any state that is \<open>P\<close> up to
  the calm part, and its handler does.
\<close>

lemma guards_wp:
  assumes calm: "calm P" and Q: "\<And>v. P v \<Longrightarrow> Q v" and m: "\<And>v. P v \<Longrightarrow> wp m (\<lambda>_. Q) v" and v: "P v"
  shows "wp (RequireAdmin cx m) (\<lambda>_. Q) v" "wp (RequireActiveUser cx m) (\<lambda>_. Q) v"
    "wp (RegisterRateLimit rq m) (\<lambda>_. Q) v" "wp (LoginRateLimit rq m) (\<lambda>_. Q) v"
    "wp (PeerRateLimit cx m) (\<lambda>_. Q) v"
proof -
  have l: "P (v\<lparr>limits := l\<rparr>)" for l using calm v by (simp add: calm_def)
  note k = v l Q [OF v] Q [OF l] m [OF v] m [OF l]
  show "wp (RequireAdmin cx m) (\<lambda>_. Q) v" "wp (RequireActiveUser cx m) (\<lambda>_. Q) v"
    "wp (RegisterRateLimit rq m) (\<lambda>_. Q) v" "wp (LoginRateLimit rq m) (\<lambda>_. Q) v"
    "wp (PeerRateLimit cx m) (\<lambda>_. Q) v"
    unfolding RequireAdmin_def RequireActiveUser_def RegisterRateLimit_def LoginRateLimit_def PeerRateLimit_def
      wp_case_option wp_if wp_tryE wp_limit_op forbidden_def rate_limited_def wp_respond
    using k by simp_all
qed

lemma chain_wp:
  assumes calm: "calm P" and Q: "\<And>v. P v \<Longrightarrow> Q v" and h: "\<And>cx v. P v \<Longrightarrow> wp (h cx) (\<lambda>_. Q) v"
  shows "P v \<Longrightarrow> wp (run_chain S rq gs h cx) (\<lambda>_. Q) v"
proof (induction gs arbitrary: cx v)
  case Nil
  then show ?case using h by simp
next
  case (Cons g gs)
  have st: "P v'" if "stutters v v'" for v' using calm Cons.prems that by (auto simp add: calm_def)
  have "wp (AuthMiddleware (srv_libs S) (srv_auth S) rq (run_chain S rq gs h)) (\<lambda>_. Q) v"
    by (rule wp_AuthMiddleware) (auto intro: st Q Cons.IH)
  with guards_wp [OF calm Q Cons.IH Cons.prems] show ?case by (cases g) simp_all
qed

lemma calm_run_chain:
  assumes "calm I" "\<And>cx. preserves I (h cx)"
  shows "preserves I (run_chain S rq gs h cx)"
  using assms by (intro preservesI chain_wp [of I]) (auto intro: preserves_wp)

section \<open>Invariants of the server\<close>

text \<open>
  What a predicate on the world must promise for every request to keep it: it speaks about the
  tables and the pool only, and every operation of the services keeps it.
\<close>

locale service_invariant =
  fixes I :: "world \<Rightarrow> bool"
  assumes tables: "I w \<Longrightarrow> users w' = users w \<Longrightarrow> invites w' = invites w \<Longrightarrow> peers w' = peers w \<Longrightarrow>
      pool w' = pool w \<Longrightarrow> I w'"
    and manager: "preserves I (AddPeer L i k)" "preserves I (RemovePeer L i s)" "preserves I (ReplaceKey L i k1 k2)"
      "preserves I (Reconcile L)" "preserves I (RotateServerKey L k)" "preserves I (SetWGEnabled L b)"
    and peer_status: "preserves I (DisconnectPeer L i)" "preserves I (RevokePeer L i)"
    and account: "preserves I (Register L s p c)" "preserves I (UpdateMe L i f)"
      "preserves I (ChangePassword L i c n)" "preserves I (UpdateUser L i g)"
    and invitations: "preserves I (CreateInvite L i m d)" "preserves I (UpdateInvite L i h)"
      "preserves I (DeleteInvite L i)"
begin

lemma calm_I: "calm I"
  using tables stutters_same(1-4) by (auto simp add: calm_def)

lemmas services = manager peer_status account invitations

lemma respond:
  "preserves I (respond st code p)" "preserves I (ok p)" "preserves I bad_request"
  "preserves I auth_failed" "preserves I forbidden" "preserves I internal_error"
  "preserves I rate_limited" "preserves I (error_response err cs)"
  "preserves I invalid_key" "preserves I (no_active_peer err)"
  "preserves I (peer_not_found err)" "preserves I time_now" "preserves I (GetPeer L i)"
  unfolding invalid_key_def no_active_peer_def peer_not_found_def
  by (intro calm_readonly [OF calm_I] readonly_intros)+

lemmas kept = preserves_intros services respond

lemma user_handlers:
  "preserves I (h_Register L rq)" "preserves I (h_UpdateMe L rq cx)"
  "preserves I (h_ChangePassword L rq cx)" "preserves I (h_RegisterPeer L rq cx)"
  "preserves I (h_DisconnectPeer L rq cx)" "preserves I (h_ReplaceKey L rq cx)"
  unfolding h_Register_def h_UpdateMe_def h_ChangePassword_def h_RegisterPeer_def h_DisconnectPeer_def
    h_ReplaceKey_def
  by (auto intro!: kept split: prod.splits option.splits)

lemma take_off: "preserves I rest \<Longrightarrow> preserves I (take_off_device L p rest)"
  unfolding take_off_device_def by (auto intro!: kept)

lemma admin_handlers:
  "preserves I (h_AdminUpdateUser L rq s)" "preserves I (h_AdminDisconnectPeer L s)"
  "preserves I (h_AdminRevokePeer L s)" "preserves I (h_AdminCreateInvite L dc rq cx)"
  "preserves I (h_AdminUpdateInvite L rq s)" "preserves I (h_AdminDeleteInvite L s)"
  "preserves I (h_AdminRotateWGKey L rq)" "preserves I (h_AdminToggleWG L rq)"
  unfolding h_AdminUpdateUser_def h_AdminDisconnectPeer_def h_AdminRevokePeer_def h_AdminCreateInvite_def
    h_AdminUpdateInvite_def h_AdminDeleteInvite_def h_AdminRotateWGKey_def h_AdminToggleWG_def Let_def
  by (auto intro!: kept take_off split: prod.splits option.splits)

lemma handler: "preserves I (call_handler S rq ps h cx)"
  by (cases h) (simp_all add: calm_readonly [OF calm_I] readonly_handlers user_handlers admin_handlers)

lemma served: "preserves I (serve S rq)"
  unfolding serve_def corsMiddleware_def NoRoute_def TrailingSlash_def
  by (auto intro!: kept calm_run_chain [OF calm_I] handler split: prod.splits option.splits)

end

interpretation sys: service_invariant "sys_inv gw" for gw
  by (unfold_locales, rule sys_inv_cong [THEN iffD2], assumption+) (rule sys_inv_services)+

section \<open>Every request is answered\<close>

text \<open>The only statuses the handlers and middlewares send.\<close>

definition http_statuses :: "int set" where
  "http_statuses = {200, 204, 301, 307, 400, 401, 403, 404, 409, 429, 500}"

definition total_op :: "'a wop \<Rightarrow> bool" where
  "total_op m \<longleftrightarrow> (\<forall>w. \<exists>x. fst (m w) = Inr x)"

definition answers :: "response wop \<Rightarrow> bool" where
  "answers m \<longleftrightarrow> (\<forall>w. \<exists>rs. fst (m w) = Inr rs \<and> rs_status rs \<in> http_statuses)"

named_theorems answers_intros \<open>operations that end in a response\<close>

lemma answers_caseE [answers_intros]:
  "(\<And>e. answers (h e)) \<Longrightarrow> (\<And>x. answers (k x)) \<Longrightarrow> answers (caseE m h k)"
  by (auto simp add: answers_def caseE_def split: prod.splits sum.splits)

lemma answers_ignoreE [answers_intros]: "answers k \<Longrightarrow> answers (ignoreE m k)"
  unfolding ignoreE_def by (intro answers_intros)

lemma answers_tryE: "total_op m \<Longrightarrow> (\<And>x. answers (k x)) \<Longrightarrow> answers (tryE m k)"
  unfolding total_op_def answers_def tryE_def caseE_def by (simp split: prod.splits sum.splits) (metis fst_conv Inr_Inl_False)

lemma answers_respond [answers_intros]:
  "st \<in> http_statuses \<Longrightarrow> answers (respond st code p)" "answers (ok p)" "answers bad_request" "answers auth_failed"
  "answers forbidden" "answers internal_error" "answers rate_limited" "answers invalid_key"
  by (simp_all add: answers_def respond_def ret_def ok_def bad_request_def auth_failed_def forbidden_def
      internal_error_def rate_limited_def invalid_key_def http_statuses_def)

lemma answers_error_response [answers_intros]:
  "(\<forall>(e, st, code) \<in> set cs. st \<in> http_statuses) \<Longrightarrow> answers (error_response err cs)"
  by (induction err cs rule: error_response.induct) (auto intro: answers_intros)

lemma answers_peer_errors [answers_intros]: "answers (no_active_peer err)" "answers (peer_not_found err)"
  unfolding no_active_peer_def peer_not_found_def
  by (intro answers_intros; simp add: http_statuses_def)+

lemma total_ops:
  "total_op (gets f)" "total_op time_now" "total_op ActivePeerCount" "total_op WGEnabled" "total_op ListenPort"
  "total_op (limit_op key lim window)"
  by (auto simp add: total_op_def gets_def time_now_def ActivePeerCount_def WGEnabled_def ListenPort_def caseE_def
      ret_def limit_op_def split: prod.splits sum.splits)

lemma total_caseE_ret: "total_op (caseE m (\<lambda>_. ret a) (\<lambda>_. ret b))"
  by (auto simp add: total_op_def caseE_def ret_def split: prod.splits sum.splits)

lemmas answers_tries [answers_intros] = answers_tryE [OF total_ops(1)] answers_tryE [OF total_ops(2)]
  answers_tryE [OF total_ops(3)] answers_tryE [OF total_ops(4)] answers_tryE [OF total_ops(5)]
  answers_tryE [OF total_ops(6)] answers_tryE [OF total_caseE_ret]

lemma answers_take_off_device [answers_intros]: "answers rest \<Longrightarrow> answers (take_off_device L p rest)"
  unfolding take_off_device_def by (auto intro: answers_intros)

lemma answers_call_handler: "answers (call_handler S rq ps h cx)"
  by (cases h; simp add: h_Register_def h_UpdateMe_def h_ChangePassword_def h_RegisterPeer_def h_DisconnectPeer_def
      h_ReplaceKey_def h_AdminUpdateUser_def h_AdminDisconnectPeer_def h_AdminRevokePeer_def h_AdminCreateInvite_def
      h_AdminUpdateInvite_def h_AdminDeleteInvite_def h_AdminRotateWGKey_def h_AdminToggleWG_def h_Login_def
      h_GetMe_def h_ListMyPeers_def h_GetPeerConfig_def h_AdminMe_def h_AdminSummary_def h_AdminListUsers_def
      h_AdminGetUser_def h_AdminListUserPeers_def h_AdminListPeers_def h_AdminListInvites_def h_AdminGetWGStatus_def
      h_Health_def h_Version_def Let_def)
     (auto intro!: answers_intros simp add: http_statuses_def split: prod.splits option.splits)

lemma answers_run_chain: "(\<And>cx. answers (h cx)) \<Longrightarrow> answers (run_chain S rq gs h cx)"
proof (induction gs arbitrary: cx)
  case (Cons g gs)
  then have "answers (run_chain S rq gs h cx)" for cx by blast
  then show ?case
    by (cases g)
       (auto simp add: AuthMiddleware_def RequireAdmin_def RequireActiveUser_def RegisterRateLimit_def
         LoginRateLimit_def PeerRateLimit_def Let_def intro!: answers_intros split: list.splits option.splits)
qed simp

lemma answers_serve: "answers (serve S rq)"
  unfolding serve_def corsMiddleware_def NoRoute_def TrailingSlash_def
  by (auto intro!: answers_intros answers_run_chain answers_call_handler simp add: http_statuses_def
      split: option.splits prod.splits)

end
