(* ===== verification/PeerProperties.thy ===== *)
theory PeerProperties
  imports PeerInvariants Reference
begin

text \<open>
  The properties of the address allocator and of the peer manager, with a run of the model on
  the reference instance as the witness of each property that has hypotheses.
\<close>

section \<open>Reconciliation\<close>

lemma reserve_rows:
  assumes "net4 (subnet (pool w))" "p_assigned_ip ` set ps \<subseteq> host_ips (subnet (pool w))"
  shows "forE (\<lambda>p. on_pool (Reserve t (p_assigned_ip p))) ps w =
     (Inr (), w\<lparr>pool := (pool w)\<lparr>used := p_assigned_ip ` set ps \<union> used (pool w)\<rparr>\<rparr>)"
  using assms
proof (induction ps arbitrary: w)
  case Nil
  then show ?case by (simp add: ret_def)
next
  case (Cons p ps)
  let ?w = "w\<lparr>pool := (pool w)\<lparr>used := insert (p_assigned_ip p) (used (pool w))\<rparr>\<rparr>"
  have "on_pool (Reserve t (p_assigned_ip p)) w = (Inr (), ?w)"
    using Cons.prems by (simp add: on_pool_def Reserve_host)
  moreover have "forE (\<lambda>p. on_pool (Reserve t (p_assigned_ip p))) ps ?w =
      (Inr (), ?w\<lparr>pool := (pool ?w)\<lparr>used := p_assigned_ip ` set ps \<union> used (pool ?w)\<rparr>\<rparr>)"
    using Cons.prems by (intro Cons.IH) auto
  ultimately show ?case by (simp add: tryE_def caseE_def)
qed

text \<open>What the device holds after the changes of one pass.\<close>

definition db_keys :: "libs \<Rightarrow> peer list \<Rightarrow> wgkey set" where
  "db_keys L ps = {k. \<exists>p \<in> set ps. p_status p = ''active'' \<and> p_public_key p = key_string L k}"

lemma reconcile_adds_keys:
  assumes kl: "key_lib L"
    and ps: "\<And>p. p \<in> set ps \<Longrightarrow> (\<exists>k. p_public_key p = key_string L k) \<and> ParseIP (ip6 L) (p_assigned_ip p) \<noteq> None"
  shows "pc_key ` set (reconcile_adds L (wgPeersByKey L d) ps) =
      {k. key_string L k \<in> p_public_key ` set ps} - dev_keys d"
    and "\<forall>c \<in> set (reconcile_adds L (wgPeersByKey L d) ps). \<not> pc_remove c"
proof -
  have conf: "\<exists>ip. row_configs L False [p] = [add_config k (Some ip)]"
    if "p \<in> set ps" "p_public_key p = key_string L k" for p k
    using ps [OF that(1)] that(2) kl
    by (auto simp add: row_configs_def map_filter_simps key_lib_def add_config_def)
  have split: "reconcile_adds L m qs =
      concat (map (\<lambda>p. if m (p_public_key p) = None then row_configs L False [p] else []) qs)" for m qs
    by (induction qs) (simp_all add: reconcile_adds_def row_configs_def map_filter_simps split: option.splits)
  have none: "wgPeersByKey L d (key_string L k) = None \<longleftrightarrow> k \<notin> dev_keys d" for k
    using key_lib_inj [OF kl] by (auto simp add: wgPeersByKey_None)
  show "pc_key ` set (reconcile_adds L (wgPeersByKey L d) ps) =
      {k. key_string L k \<in> p_public_key ` set ps} - dev_keys d"
  proof (intro set_eqI iffI)
    fix k
    assume "k \<in> pc_key ` set (reconcile_adds L (wgPeersByKey L d) ps)"
    then obtain p c where p: "p \<in> set ps" "wgPeersByKey L d (p_public_key p) = None"
        "c \<in> set (row_configs L False [p])" "k = pc_key c"
      by (auto simp add: split split: if_splits)
    from ps [OF p(1)] obtain j where j: "p_public_key p = key_string L j" by blast
    from conf [OF p(1) j] p(3,4) have "k = j" by (auto simp add: add_config_def)
    with j p(1,2) none [of j] show "k \<in> {k. key_string L k \<in> p_public_key ` set ps} - dev_keys d"
      by (auto simp add: image_iff) metis
  next
    fix k
    assume k: "k \<in> {k. key_string L k \<in> p_public_key ` set ps} - dev_keys d"
    then obtain p where p: "p \<in> set ps" "p_public_key p = key_string L k" by (auto simp add: image_iff)
    from conf [OF p] obtain ip where c: "row_configs L False [p] = [add_config k (Some ip)]" by blast
    with p k none [of k] have "add_config k (Some ip) \<in> set (reconcile_adds L (wgPeersByKey L d) ps)"
      by (auto simp add: split intro!: bexI [of _ p])
    then show "k \<in> pc_key ` set (reconcile_adds L (wgPeersByKey L d) ps)"
      by (rule rev_image_eqI) (simp add: add_config_def)
  qed
  show "\<forall>c \<in> set (reconcile_adds L (wgPeersByKey L d) ps). \<not> pc_remove c"
    by (auto simp add: reconcile_adds_def row_configs_def map_filter_def add_config_def split: option.splits)
qed

lemma reconcile_removal_keys:
  assumes kl: "key_lib L" and keys: "set keys = key_string L ` dev_keys d"
  shows "pc_key ` set (reconcile_removals (wgPeersByKey L d) db keys) = {k \<in> dev_keys d. key_string L k \<notin> db}"
    and "\<forall>c \<in> set (reconcile_removals (wgPeersByKey L d) db keys). pc_remove c"
proof -
  have some: "\<exists>p. wgPeersByKey L d (key_string L k) = Some p \<and> wp_key p = k" if "k \<in> dev_keys d" for k
  proof -
    from that have "wgPeersByKey L d (key_string L k) \<noteq> None" by (simp add: wgPeersByKey_None)
    then obtain p where p: "wgPeersByKey L d (key_string L k) = Some p" by blast
    with wgPeersByKey_Some [OF p] key_lib_inj [OF kl] show ?thesis by blast
  qed
  have mem: "c \<in> set (reconcile_removals (wgPeersByKey L d) db keys) \<longleftrightarrow>
      (\<exists>k \<in> dev_keys d. key_string L k \<notin> db \<and> c = remove_config k)" for c
  proof
    assume "c \<in> set (reconcile_removals (wgPeersByKey L d) db keys)"
    then obtain k p where "k \<in> dev_keys d" "key_string L k \<notin> db" "wgPeersByKey L d (key_string L k) = Some p"
        "c = remove_config (wp_key p)"
      by (auto simp add: reconcile_removals_def set_map_filter keys split: if_splits)
    with some [of k] show "\<exists>k \<in> dev_keys d. key_string L k \<notin> db \<and> c = remove_config k" by auto
  next
    assume "\<exists>k \<in> dev_keys d. key_string L k \<notin> db \<and> c = remove_config k"
    then obtain k where k: "k \<in> dev_keys d" "key_string L k \<notin> db" "c = remove_config k" by blast
    with some [OF k(1)] show "c \<in> set (reconcile_removals (wgPeersByKey L d) db keys)"
      by (auto simp add: reconcile_removals_def set_map_filter keys intro!: bexI [of _ "key_string L k"])
  qed
  show "pc_key ` set (reconcile_removals (wgPeersByKey L d) db keys) = {k \<in> dev_keys d. key_string L k \<notin> db}"
  proof (intro set_eqI iffI)
    fix k
    assume "k \<in> pc_key ` set (reconcile_removals (wgPeersByKey L d) db keys)"
    then show "k \<in> {k \<in> dev_keys d. key_string L k \<notin> db}" by (auto simp add: mem remove_config_def)
  next
    fix k
    assume "k \<in> {k \<in> dev_keys d. key_string L k \<notin> db}"
    then have "remove_config k \<in> set (reconcile_removals (wgPeersByKey L d) db keys)" by (auto simp add: mem)
    then show "k \<in> pc_key ` set (reconcile_removals (wgPeersByKey L d) db keys)"
      by (rule rev_image_eqI) (simp add: remove_config_def)
  qed
  show "\<forall>c \<in> set (reconcile_removals (wgPeersByKey L d) db keys). pc_remove c"
    by (auto simp add: mem remove_config_def)
qed

lemma cfg_keys_peers_config:
  assumes "\<forall>c \<in> set as. \<not> pc_remove c" "\<forall>c \<in> set rs. pc_remove c"
  shows "cfg_keys (peers_config (as @ rs)) K = (K \<union> pc_key ` set as) - pc_key ` set rs"
  using assms by (simp add: cfg_keys_def peers_config_def fold_adds fold_removes)

lemma set_map_order:
  "map_order_lib L \<Longrightarrow> set (map_order L n (remdups ks)) = set ks"
  by (metis distinct_remdups map_order_lib_def set_remdups)

definition readable_rows :: "libs \<Rightarrow> world \<Rightarrow> bool" where
  "readable_rows L w \<longleftrightarrow> net4 (subnet (pool w)) \<and>
     (\<forall>p \<in> set (peers w). p_status p = ''active'' \<longrightarrow>
        (\<exists>k. p_public_key p = key_string L k) \<and> p_assigned_ip p \<in> host_ips (subnet (pool w)))"

text \<open>
  C8: when no call fails, \<open>Reconcile\<close> succeeds, and afterwards the WireGuard device has exactly
  the keys of the active rows, and every active row's address is marked as used: whatever the
  device held before, and in whatever order Go visits the map of its peers.
\<close>

theorem Reconcile_converges:
  assumes libs: "key_lib L" "wg_lib L" "map_order_lib L"
    and nf: "no_faults w" and rows: "readable_rows L w"
  shows "case Reconcile L w of (r, w') \<Rightarrow>
     r = Inr () \<and> dev_keys (device w') = db_keys L (peers w) \<and>
     (\<forall>p \<in> set (peers w). p_status p = ''active'' \<longrightarrow> p_assigned_ip p \<in> used (pool w'))"
proof -
  let ?act = "filter (\<lambda>p. p_status p = ''active'') (peers w)"
  let ?m = "wgPeersByKey L (device w)"
  let ?adds = "reconcile_adds L ?m ?act"
  let ?rems = "\<lambda>n. reconcile_removals ?m (p_public_key ` set ?act)
      (map_order L n (remdups (map (\<lambda>p. key_string L (wp_key p)) (dev_peers (device w)))))"
  have n: "net4 (subnet (pool w))" using rows by (simp add: readable_rows_def)
  have ips: "p_assigned_ip ` set ?act \<subseteq> host_ips (subnet (pool w))"
    using rows by (auto simp add: readable_rows_def)
  have parse: "ParseIP (ip6 L) (p_assigned_ip p) \<noteq> None" if "p \<in> set ?act" for p
    using ips that host_in_net [OF n] by (force simp add: image_subset_iff)
  have readable: "(\<exists>k. p_public_key p = key_string L k) \<and> ParseIP (ip6 L) (p_assigned_ip p) \<noteq> None"
    if "p \<in> set ?act" for p
    using rows parse [OF that] that by (auto simp add: readable_rows_def)
  have adds: "pc_key ` set ?adds = {k. key_string L k \<in> p_public_key ` set ?act} - dev_keys (device w)"
    "\<forall>c \<in> set ?adds. \<not> pc_remove c"
    by (rule reconcile_adds_keys [OF libs(1)], rule readable, assumption)+
  have keys: "set (map_order L i (remdups (map (\<lambda>p. key_string L (wp_key p)) (dev_peers (device w))))) =
      key_string L ` dev_keys (device w)" for i
    by (simp add: set_map_order [OF libs(3)] dev_keys_def image_image)
  note rems = reconcile_removal_keys [OF libs(1) keys]
  have final: "dev_keys (wg_apply L (peers_config (?adds @ ?rems i)) (device w)) = db_keys L (peers w)" for i
  proof -
    have "dev_keys (wg_apply L (peers_config (?adds @ ?rems i)) (device w)) =
        (dev_keys (device w) \<union> pc_key ` set ?adds) - pc_key ` set (?rems i)"
      using libs(2) cfg_keys_peers_config [OF adds(2) rems(2)] by (simp add: wg_lib_def)
    also have "\<dots> = {k. key_string L k \<in> p_public_key ` set ?act}"
      unfolding adds(1) rems(1) by blast
    also have "\<dots> = db_keys L (peers w)" by (auto simp add: db_keys_def image_iff)
    finally show ?thesis .
  qed
  have idle: "dev_keys (device w) = db_keys L (peers w)" if "?adds = []" "?rems i = []" for i
    using final [of i] that libs(2) by (simp add: wg_lib_def cfg_keys_def peers_config_def)
  have used: "p_assigned_ip p \<in> p_assigned_ip ` set ?act \<union> used (pool w)"
    if "p \<in> set (peers w)" "p_status p = ''active''" for p
    using that by simp
  define w2 where "w2 = (tick w)\<lparr>pool := (pool w)\<lparr>used := p_assigned_ip ` set ?act \<union> used (pool w)\<rparr>\<rparr>"
  have s1: "peers_ListActive w = (Inr ?act, tick w)"
    using no_faults_next [OF nf] by (simp add: peers_ListActive_def ext_rows_def)
  have s2: "forE (\<lambda>p. on_pool (Reserve (ip6 L) (p_assigned_ip p))) ?act (tick w) = (Inr (), w2)"
    unfolding w2_def using reserve_rows [of "tick w" ?act "ip6 L"] n ips by simp
  have nf2: "no_faults w2" using nf by (simp add: w2_def)
  then have s3: "Device w2 = (Inr (device w), tick w2)"
    using no_faults_next [OF nf2] by (simp add: Device_def ext_call_def gets_def w2_def)
  obtain r4 w4 where s4: "reconcile_db L ?m ?act [] (tick w2) = (r4, w4)" by force
  have p4: "r4 = Inr ?adds \<and> device w4 = device w \<and> pool w4 = pool w2 \<and> no_faults w4"
    using wp_I [OF reconcile_db_wp s4] nf2 by (simp add: w2_def)
  have out: "Reconcile L w =
      (let ch = ?adds @ ?rems (ncalls w4) in if ch = [] then ret () else ConfigureDevice L (peers_config ch)) w4"
    using p4 by (simp add: Reconcile_def tryE_def caseE_def s1 s2 s3 s4 gets_def Let_def)
  have used': "\<forall>p \<in> set (peers w). p_status p = ''active'' \<longrightarrow> p_assigned_ip p \<in> used (pool w4)"
    using used p4 by (simp add: w2_def)
  show ?thesis
  proof (cases "?adds = [] \<and> ?rems (ncalls w4) = []")
    case True
    with idle have "dev_keys (device w) = db_keys L (peers w)" by blast
    with out True p4 used' show ?thesis by (simp add: Let_def ret_def)
  next
    case False
    then have "Reconcile L w = (Inr (), (tick w4)\<lparr>device :=
        wg_apply L (peers_config (?adds @ ?rems (ncalls w4))) (device w)\<rparr>)"
      using out p4 no_faults_next [of w4] by (auto simp add: Let_def ConfigureDevice_def ext_call_def modify_def)
    with final [of "ncalls w4"] used' show ?thesis by simp
  qed
qed

theorem Reconcile_converges_witness:
  "case Reconcile ref_libs (ref_world1\<lparr>device := \<lparr>dev_key = 9, dev_port = 51820, dev_peers =
       [\<lparr>wp_key = 8, wp_ips = [], wp_handshake = None\<rparr>]\<rparr>\<rparr>) of (r, w') \<Rightarrow>
     r = Inr () \<and> dev_keys (device w') = db_keys ref_libs [ref_peer] \<and>
     (\<forall>p \<in> {ref_peer}. p_assigned_ip p \<in> used (pool w'))"
proof -
  let ?w = "ref_world1\<lparr>device := \<lparr>dev_key = 9, dev_port = 51820, dev_peers =
       [\<lparr>wp_key = 8, wp_ips = [], wp_handshake = None\<rparr>]\<rparr>\<rparr>"
  have net: "net4 (subnet (pool ?w))" by (simp add: ref_world1_def ref_pool_def net4_def) code_simp
  have "(0x0A080002 :: 32 word) \<in> host_words (subnet (pool ?w))"
    by (simp add: host_words_def ref_world1_def ref_pool_def) code_simp
  moreover have "ip4_string 0x0A080002 = ''10.8.0.2''" by code_simp
  ultimately have host: "''10.8.0.2'' \<in> host_ips (subnet (pool ?w))"
    unfolding host_ips_def by (metis imageI)
  have key: "key_string ref_libs 7 = ''7''" by code_simp
  have "readable_rows ref_libs ?w"
    unfolding readable_rows_def using net host key [symmetric]
    by (auto simp add: ref_world1_def ref_peer_def)
  from Reconcile_converges [OF ref_key_lib ref_wg_lib ref_map_order_lib _ this]
  have "case Reconcile ref_libs ?w of (r, w') \<Rightarrow>
     r = Inr () \<and> dev_keys (device w') = db_keys ref_libs (peers ?w) \<and>
     (\<forall>p \<in> set (peers ?w). p_status p = ''active'' \<longrightarrow> p_assigned_ip p \<in> used (pool w'))"
    by (simp add: ref_no_faults)
  then show ?thesis by (simp add: ref_world1_def ref_peer_def)
qed

section \<open>AddPeer\<close>

lemma AddPeer_Inl:
  assumes "net4 (subnet (pool w))" and "AddPeer L userID k w = (Inl e, w')"
  shows "peers w' = peers w \<and> pool w' = pool w \<and> users w' = users w \<and> invites w' = invites w \<and>
     server_key w' = server_key w"
proof -
  obtain r v where ad: "AddPeer_admit L userID k w = (r, v)" by force
  note same = stutters_same [OF readonlyD [OF readonly_AddPeer_admit ad]]
  show ?thesis
  proof (cases r)
    case (Inl e')
    with ad assms(2) same show ?thesis by (simp add: AddPeer_def tryE_def caseE_def fail_def)
  next
    case (Inr x)
    obtain uid ex where x: "x = (uid, ex)" by force
    with ad assms(2) Inr have "AddPeer_register L k uid ex v = (Inl e, w')"
      by (simp add: AddPeer_def tryE_def caseE_def)
    from wp_I [OF AddPeer_register_wp this] assms(1) same show ?thesis by auto
  qed
qed



text \<open>The number of active rows of a user after a registration.\<close>

lemma active_of_registered:
  assumes wf: "peers_wf ps"
    and ex: "\<forall>q. ex = Some q \<longrightarrow> q \<in> set ps \<and> p_user_id q = uid \<and> p_status q = ''disconnected''"
  shows "length (active_of uid (registered ex uid k a i t ps)) = length (active_of uid ps) + 1"
proof (cases ex)
  case None
  then show ?thesis by (simp add: registered_def active_of_def)
next
  case (Some q)
  let ?f = "\<lambda>p. p\<lparr>p_assigned_ip := a, p_status := ''active'', p_updated_at := t\<rparr>"
  have "distinct (map p_id ps)" using wf by (simp add: peers_wf_def)
  moreover have "q \<in> set ps" "p_user_id q = uid" "p_status q = ''disconnected''" using ex Some by auto
  ultimately have "length (active_of uid (update_rows (\<lambda>p. p_id p = p_id q) ?f ps)) = length (active_of uid ps) + 1"
  proof (induction ps)
    case (Cons p ps)
    show ?case
    proof (cases "q = p")
      case True
      then have "p_id p \<notin> p_id ` set ps" using Cons.prems by simp
      then have "update_rows (\<lambda>r. p_id r = p_id p) ?f ps = ps"
        by (auto simp add: update_rows_def image_iff intro!: map_idI)
      with True Cons.prems show ?thesis by (simp add: update_rows_def active_of_def)
    next
      case False
      then have "q \<in> set ps" "p_id p \<noteq> p_id q" using Cons.prems by (auto simp add: image_iff)
      with Cons show ?thesis by (simp add: update_rows_def active_of_def)
    qed
  qed simp
  with Some show ?thesis by (simp add: registered_def)
qed

lemma AddPeer_Inr:
  assumes "net4 (subnet (pool w))" and "AddPeer L userID k w = (Inr reg, w')"
  obtains uid ex a i t where "admitted L userID k w uid ex"
    "a \<in> host_ips (subnet (pool w))" "a \<notin> used (pool w)"
    "pool w' = (pool w)\<lparr>used := insert a (used (pool w))\<rparr>"
    "peers w' = registered ex uid (key_string L k) a i t (peers w)"
    "users w' = users w"
    "device w' = wg_apply L (peers_config [add_config k (ParseIP (ip6 L) a)]) (device w)"
    "r_assigned_ip reg = a" "r_public_key reg = key_string L k"
proof -
  obtain r v where ad: "AddPeer_admit L userID k w = (r, v)" by force
  note same = stutters_same [OF readonlyD [OF readonly_AddPeer_admit ad]]
  obtain uid ex where r: "r = Inr (uid, ex)"
    using ad assms(2) by (cases r) (auto simp add: AddPeer_def tryE_def caseE_def fail_def)
  note adm = AddPeer_admit_Inr(2) [OF ad [unfolded r]]
  have "AddPeer_register L k uid ex v = (Inr reg, w')"
    using ad assms(2) r by (simp add: AddPeer_def tryE_def caseE_def)
  from wp_I [OF AddPeer_register_wp this] assms(1) same obtain a i t where
    o: "a \<in> host_ips (subnet (pool w))" "a \<notin> used (pool w)"
    "pool w' = (pool w)\<lparr>used := insert a (used (pool w))\<rparr>"
    "peers w' = registered ex uid (key_string L k) a i t (peers w)" "users w' = users w"
    "device w' = wg_apply L (peers_config [add_config k (ParseIP (ip6 L) a)]) (device w)"
    "reg = registration L (case ex of None \<Rightarrow> key_string L k | Some q \<Rightarrow> p_public_key q) a False w'"
    by auto
  have "r_public_key reg = key_string L k"
    using adm o(7) by (auto simp add: admitted_def registration_def dest!: find_SomeD split: option.splits)
  moreover have "r_assigned_ip reg = a" using o(7) by (simp add: registration_def)
  ultimately show thesis using that [OF adm o(1-6)] by blast
qed

text \<open>
  C22: a successful \<open>AddPeer\<close> was for an active user below the limit, stays within the limit, and
  leaves one active row of that user with the key; its address is a host address of the subnet
  that was free before and is marked as used now; the device has the key; and the registration
  returned names that key and address.
\<close>

theorem AddPeer_success:
  assumes n: "net4 (subnet (pool w))" and wf: "peers_wf (peers w)" and wg: "wg_lib L"
    and ok: "AddPeer L userID k w = (Inr reg, w')"
  shows "\<exists>u \<in> set (users w). uuid_parse L userID = Some (u_id u) \<and> IsActive u \<and>
     length (active_of (u_id u) (peers w')) = length (active_of (u_id u) (peers w)) + 1 \<and>
     int (length (active_of (u_id u) (peers w'))) \<le> u_max_peers u \<and>
     (\<exists>p \<in> set (peers w'). p_user_id p = u_id u \<and> p_status p = ''active'' \<and>
        p_public_key p = key_string L k \<and> p_assigned_ip p = r_assigned_ip reg) \<and>
     r_public_key reg = key_string L k \<and>
     r_assigned_ip reg \<in> host_ips (subnet (pool w)) - used (pool w) \<and>
     used (pool w') = insert (r_assigned_ip reg) (used (pool w)) \<and>
     dev_keys (device w') = insert k (dev_keys (device w))"
proof -
  from AddPeer_Inr [OF n ok] obtain uid ex a i t where adm: "admitted L userID k w uid ex"
    and a: "a \<in> host_ips (subnet (pool w))" "a \<notin> used (pool w)"
    and pool: "pool w' = (pool w)\<lparr>used := insert a (used (pool w))\<rparr>"
    and peers: "peers w' = registered ex uid (key_string L k) a i t (peers w)"
    and dev: "device w' = wg_apply L (peers_config [add_config k (ParseIP (ip6 L) a)]) (device w)"
    and reg: "r_assigned_ip reg = a" "r_public_key reg = key_string L k" .
  from adm obtain u where u: "u \<in> set (users w)" "u_id u = uid" "IsActive u"
      "int (length (active_of uid (peers w))) < u_max_peers u" and uid: "uuid_parse L userID = Some uid"
    by (auto simp add: admitted_def dest: find_SomeD)
  have exq: "\<forall>q. ex = Some q \<longrightarrow> q \<in> set (peers w) \<and> p_user_id q = uid \<and> p_status q = ''disconnected''"
    and key: "\<forall>q. ex = Some q \<longrightarrow> p_public_key q = key_string L k"
    using adm by (auto simp add: admitted_def dest: find_SomeD)
  have len: "length (active_of uid (peers w')) = length (active_of uid (peers w)) + 1"
    unfolding peers by (rule active_of_registered [OF wf exq])
  have row: "\<exists>p \<in> set (peers w'). p_user_id p = uid \<and> p_status p = ''active'' \<and>
      p_public_key p = key_string L k \<and> p_assigned_ip p = a"
  proof (cases ex)
    case None
    then show ?thesis by (auto simp add: peers registered_def)
  next
    case (Some q)
    with exq key have q: "q \<in> set (peers w)" "p_user_id q = uid" "p_public_key q = key_string L k" by auto
    let ?q = "q\<lparr>p_assigned_ip := a, p_status := ''active'', p_updated_at := t\<rparr>"
    have "?q \<in> set (peers w')"
      using q(1) Some by (auto simp add: peers registered_def in_update_rows intro!: bexI [of _ q])
    with q(2,3) show ?thesis by (intro bexI [of _ ?q]) simp_all
  qed
  have "dev_keys (device w') = insert k (dev_keys (device w))"
    using wg by (simp add: dev wg_lib_def cfg_keys_def peers_config_def add_config_def)
  with u uid len row reg a pool show ?thesis by (intro bexI [OF _ u(1)]) auto
qed

theorem AddPeer_success_witness:
  "case AddPeer ref_libs ''1'' 7 ref_world of (r, w') \<Rightarrow>
     length (active_of 1 (peers w')) = 1 \<and> dev_keys (device w') = {7} \<and>
     used (pool w') = {''10.8.0.1'', ''10.8.0.2''}"
proof -
  have net: "net4 (subnet (pool ref_world))" by (simp add: ref_world_def ref_pool_def net4_def) code_simp
  have wf: "peers_wf (peers ref_world)" by (simp add: ref_world_def peers_wf_def)
  have r: "case fst (AddPeer ref_libs ''1'' 7 ref_world) of Inr reg \<Rightarrow> r_assigned_ip reg = ''10.8.0.2'' | _ \<Rightarrow> False"
    by code_simp
  then obtain reg w' where w': "AddPeer ref_libs ''1'' 7 ref_world = (Inr reg, w')"
    and ip: "r_assigned_ip reg = ''10.8.0.2''"
    by (cases "AddPeer ref_libs ''1'' 7 ref_world") (auto split: sum.splits)
  from AddPeer_success [OF net wf ref_wg_lib w'] w' ip show ?thesis
    by (auto simp add: ref_world_def ref_admin_def ref_pool_def active_of_def dev_keys_def)
qed

end
