(* ===== verification/ServerProperties.thy ===== *)
theory ServerProperties
  imports Serving PeerProperties
begin

text \<open>The properties of the server as a whole, over the table of routes.\<close>

section \<open>Which route a path leads to\<close>

definition admin_path :: "string \<Rightarrow> bool" where
  "admin_path path \<longleftrightarrow> take 4 (SplitByte CHR ''/'' path) = ['''', ''api'', ''v1'', ''admin'']"

definition auth_path :: "string \<Rightarrow> bool" where
  "auth_path path \<longleftrightarrow> take 4 (SplitByte CHR ''/'' path) = ['''', ''api'', ''v1'', ''auth'']"

text \<open>The routes by their segments, guards and handlers.\<close>

definition route_key :: "route \<Rightarrow> string list \<times> guard list \<times> endpoint_handler" where
  "route_key r = (SplitByte CHR ''/'' (rt_pattern r), rt_guards r, rt_handler r)"

lemma admin_routes:
  "list_all (\<lambda>(seg, gs, h). take 4 seg = ['''', ''api'', ''v1'', ''admin''] \<longrightarrow> gs = [GAuth, GAdmin])
     (map route_key routes)"
  by code_simp

definition user_guards :: "guard list list" where
  "user_guards = [[GAuth], [GAuth, GActive], [GAuth, GPeerLimit], [GAuth, GPeerLimit, GActive]]"

definition user_reads :: "endpoint_handler list" where
  "user_reads = [EHealth, EVersion, EGetMe, EListMyPeers, EGetPeerConfig]"

definition user_writes :: "endpoint_handler list" where
  "user_writes = [EUpdateMe, EChangePassword, ERegisterPeer, EDisconnectPeer, EReplaceKey]"

lemma user_routes:
  "list_all (\<lambda>(seg, gs, h). take 4 seg = ['''', ''api'', ''v1'', ''admin''] \<or>
       take 4 seg = ['''', ''api'', ''v1'', ''auth''] \<or> h \<in> set user_reads \<or>
       (gs = [GAuth, GActive] \<or> gs = [GAuth, GPeerLimit, GActive]) \<and> h \<in> set user_writes)
     (map route_key routes)"
  by code_simp

lemma route_prefixes:
  "list_all (\<lambda>(seg, gs, h). list_all (\<lambda>s. s = [] \<or> hd s \<noteq> CHR '':'') (take 4 seg)) (map route_key routes)"
  by code_simp

lemma match_segments_take:
  assumes "match_segments ps ss = Some params" "list_all (\<lambda>s. s = [] \<or> hd s \<noteq> CHR '':'') (take n ps)"
  shows "take n ss = take n ps"
  using assms
proof (induction ps ss arbitrary: params n rule: match_segments.induct)
  case (2 p ps s ss)
  then show ?case by (cases n) (auto split: option.splits if_splits)
qed simp_all

lemma match_pattern_take:
  assumes "r \<in> set routes" "match_pattern (rt_pattern r) path = Some params"
  shows "take 4 (SplitByte CHR ''/'' path) = take 4 (fst (route_key r))"
proof -
  have "list_all (\<lambda>s. s = [] \<or> hd s \<noteq> CHR '':'') (take 4 (fst (route_key r)))"
    using route_prefixes assms(1) by (fastforce simp add: list_all_iff route_key_def)
  with assms(2) show ?thesis
    unfolding match_pattern_def route_key_def by (auto dest: match_segments_take)
qed

text \<open>The three ways a request goes.\<close>

lemma serve_cases:
  assumes gin: "gin_lib S"
  obtains "serve S rq = respond 204 '''' PNone" "rq_method rq = ''OPTIONS''"
  | st where "serve S rq = respond st '''' PNone" "st \<in> {301, 307, 404}" "rq_method rq \<noteq> ''OPTIONS''"
  | r ps where "serve S rq = run_chain S rq (rt_guards r) (call_handler S rq ps (rt_handler r)) no_ctx"
      "rq_method rq \<noteq> ''OPTIONS''"
      "r \<in> set routes" "take 4 (SplitByte CHR ''/'' (rq_path rq)) = take 4 (fst (route_key r))"
proof (cases "rq_method rq = ''OPTIONS''")
  case True
  then show ?thesis using that(1) by (simp add: serve_def corsMiddleware_def)
next
  case False
  show ?thesis
  proof (cases "srv_match S routes (rq_method rq) (rq_path rq)")
    case None
    then show ?thesis using that(2) False
      by (cases "srv_slash S routes (rq_method rq) (rq_path rq)")
         (auto simp add: serve_def corsMiddleware_def NoRoute_def TrailingSlash_def split: if_splits)
  next
    case (Some rp)
    obtain r ps where rp: "rp = (r, ps)" by force
    with gin Some have "r \<in> set routes" "match_pattern (rt_pattern r) (rq_path rq) = Some ps"
      unfolding gin_lib_def by (metis (mono_tags, lifting) case_prod_conv option.simps(5))+
    with match_pattern_take that(3) Some rp False show ?thesis by (simp add: serve_def corsMiddleware_def)
  qed
qed

lemma authenticatedD:
  "authenticated L ac rq w cx \<Longrightarrow>
   \<exists>u \<in> set (users w). cx_user cx = Some u \<and> uuid_parse L (cx_user_id cx) = Some (u_id u)"
  by (auto simp add: authenticated_def)

section \<open>Administration\<close>

text \<open>
  C2: nothing under \<open>/api/v1/admin\<close> can be read or changed without an administrator. A request
  there that is not answered with 401, 403, 404 or a redirect carried a valid token whose user is, in the
  table of users at that moment, an active administrator (the role in the token does not count);
  and a request answered with one of those by the guards changes nothing.
\<close>

theorem admin_needs_admin:
  assumes gin: "gin_lib S" and path: "admin_path (rq_path rq)" and m: "rq_method rq \<noteq> ''OPTIONS''"
    and run: "serve S rq w = (r, w')"
  shows "(\<exists>rs. r = Inr rs \<and> rs_status rs \<in> {301, 307, 401, 403, 404} \<and> rs_body rs = PNone \<and> stutters w w') \<or>
     (\<exists>cx u. authenticated (srv_libs S) (srv_auth S) rq w cx \<and> cx_user cx = Some u \<and>
        u \<in> set (users w) \<and> IsAdmin u \<and> IsActive u)"
    (is "?P r w' \<or> ?A")
proof (cases ?A)
  case False
  have "wp (serve S rq) ?P w"
  proof (rule serve_cases [OF gin, of rq])
    fix rt ps
    assume serve: "serve S rq = run_chain S rq (rt_guards rt) (call_handler S rq ps (rt_handler rt)) no_ctx"
      and rt: "rt \<in> set routes" "take 4 (SplitByte CHR ''/'' (rq_path rq)) = take 4 (fst (route_key rt))"
    have "rt_guards rt = [GAuth, GAdmin]"
      using admin_routes rt path by (auto simp add: list_all_iff admin_path_def route_key_def)
    with serve have chain: "serve S rq = AuthMiddleware (srv_libs S) (srv_auth S) rq
        (run_chain S rq [GAdmin] (call_handler S rq ps (rt_handler rt)))" by simp
    have "RequireAdmin cx k = forbidden" if "authenticated (srv_libs S) (srv_auth S) rq w cx" for cx k
      using authenticatedD [OF that] that False by (auto simp add: RequireAdmin_def)
    then show ?thesis
      unfolding chain by (intro wp_AuthMiddleware) (simp_all add: forbidden_def wp_respond)
  qed (use m in \<open>auto simp add: wp_respond\<close>)
  from wp_I [OF this run] show ?thesis by blast
qed blast

section \<open>The reference server\<close>

definition ref_match :: "route list \<Rightarrow> string \<Rightarrow> string \<Rightarrow> (route \<times> (string \<times> string) list) option" where
  "ref_match rs m path =
     (case find (\<lambda>r. rt_method r = m \<and> match_pattern (rt_pattern r) path \<noteq> None) rs of
        None \<Rightarrow> None
      | Some r \<Rightarrow> map_option (Pair r) (match_pattern (rt_pattern r) path))"

definition ref_server :: server where
  "ref_server = \<lparr>srv_libs = ref_libs, srv_auth = ref_auth,
     srv_admin = \<lparr>defaultInviteMaxUses = 1, defaultInviteExpiryDays = 30\<rparr>, srv_match = ref_match, srv_slash = (\<lambda>_ _ _. False)\<rparr>"

lemma ref_gin: "gin_lib ref_server"
  by (auto simp add: gin_lib_def ref_server_def ref_match_def find_None_iff dest!: find_SomeD split: option.splits)

text \<open>A request of user 1 with a token the reference server issued.\<close>

definition ref_token :: string where
  "ref_token = ''6:secret1:12:+011:+50000000007:20240014:user''"

definition ref_request :: "string \<Rightarrow> string \<Rightarrow> request" where
  "ref_request m path = \<lparr>rq_method = m, rq_path = path, rq_auth = ''Bearer '' @ ref_token, rq_query = Map.empty,
     rq_body = \<lparr>bd_fields = None, bd_trailing = False\<rparr>, rq_ip = ''10.0.0.1''\<rparr>"

text \<open>A user who is no administrator asks for the list of invites.\<close>

theorem admin_needs_admin_witness:
  "let w = ref_world\<lparr>users := [ref_admin\<lparr>u_role := ''user''\<rparr>]\<rparr> in
   \<exists>rs w'. serve ref_server (ref_request ''GET'' ''/api/v1/admin/invites'') w = (Inr rs, w') \<and>
     rs_status rs \<in> {301, 307, 401, 403, 404} \<and> stutters w w'"
proof -
  let ?rq = "ref_request ''GET'' ''/api/v1/admin/invites''"
  let ?w = "ref_world\<lparr>users := [ref_admin\<lparr>u_role := ''user''\<rparr>]\<rparr>"
  obtain r w' where run: "serve ref_server ?rq ?w = (r, w')" by force
  have "admin_path (rq_path ?rq)" "rq_method ?rq \<noteq> ''OPTIONS''" by (simp_all add: admin_path_def ref_request_def)
  from admin_needs_admin [OF ref_gin this run]
  have "\<exists>rs. r = Inr rs \<and> rs_status rs \<in> {301, 307, 401, 403, 404} \<and> stutters ?w w'"
    by (auto simp add: IsAdmin_def ref_admin_def)
  with run show ?thesis by (auto simp add: Let_def)
qed

text \<open>The administrator of the reference server is let in.\<close>

lemma ref_admin_served:
  "case serve ref_server (ref_request ''GET'' ''/api/v1/admin/summary'') ref_world of
     (Inr rs, _) \<Rightarrow> rs_status rs = 200 | _ \<Rightarrow> False"
  by code_simp

section \<open>Users keep to their own rows\<close>

definition others :: "uuid \<Rightarrow> world \<Rightarrow> user list \<times> peer list \<times> invite list" where
  "others uid w = (filter (\<lambda>u. u_id u \<noteq> uid) (users w), filter (\<lambda>p. p_user_id p \<noteq> uid) (peers w), invites w)"

text \<open>What decides about a user's rights.\<close>

definition privileges :: "world \<Rightarrow> (uuid \<times> string \<times> string \<times> string \<times> int) list" where
  "privileges w = map (\<lambda>u. (u_id u, u_student_id u, u_role u, u_status u, u_max_peers u)) (users w)"

definition own_change :: "uuid \<Rightarrow> world \<Rightarrow> world \<Rightarrow> bool" where
  "own_change uid w w' \<longleftrightarrow> others uid w' = others uid w \<and> privileges w' = privileges w"

lemma own_change_same:
  "users w' = users w \<Longrightarrow> peers w' = peers w \<Longrightarrow> invites w' = invites w \<Longrightarrow> own_change uid w w'"
  by (simp add: own_change_def others_def privileges_def)

lemma own_change_frame [simp]:
  "own_change uid w (v\<lparr>pool := i\<rparr>) = own_change uid w v" "own_change uid w (v\<lparr>device := d\<rparr>) = own_change uid w v"
  "own_change uid w (v\<lparr>limits := l\<rparr>) = own_change uid w v" "own_change uid w (tick v) = own_change uid w v"
  by (simp_all add: own_change_def others_def privileges_def)

lemma own_change_trans: "own_change uid w v \<Longrightarrow> own_change uid v w' \<Longrightarrow> own_change uid w w'"
  by (simp add: own_change_def)

lemma own_change_stutters: "stutters w w' \<Longrightarrow> own_change uid w w'"
  using stutters_same(1-3) [of w w'] by (intro own_change_same)

lemma filter_update_rows:
  "(\<And>r. r \<in> set rs \<Longrightarrow> P r \<Longrightarrow> \<not> R r \<and> \<not> R (f r)) \<Longrightarrow> filter R (update_rows P f rs) = filter R rs"
  by (induction rs) (auto simp add: update_rows_def)

lemma own_change_peers:
  assumes "peers_wf (peers w)" "p \<in> set (peers w)" "\<And>q. p_user_id (f q) = p_user_id q"
    and "users w' = users w" "invites w' = invites w"
    and "peers w' = update_rows (\<lambda>q. p_id q = p_id p) f (peers w)"
  shows "own_change (p_user_id p) w w'"
proof -
  have "p_user_id q = p_user_id p" if "q \<in> set (peers w)" "p_id q = p_id p" for q
    using distinct_map_inj_on [of p_id "peers w" q p] assms(1,2) that by (simp add: peers_wf_def)
  then have "filter (\<lambda>q. p_user_id q \<noteq> p_user_id p) (update_rows (\<lambda>q. p_id q = p_id p) f (peers w)) =
      filter (\<lambda>q. p_user_id q \<noteq> p_user_id p) (peers w)"
    using assms(3) by (intro filter_update_rows) simp
  with assms(4-6) show ?thesis by (simp add: own_change_def others_def privileges_def)
qed

lemma UpdateMe_own:
  assumes "uuid_parse L i = Some uid"
  shows "wp (UpdateMe L i f) (\<lambda>_. own_change uid w) w"
proof (rule wp_mono [OF UpdateMe_wp], elim conjE)
  fix r and w' :: world
  assume rows: "own_rows L i f (users w) (users w')" and rest: "peers w' = peers w" "invites w' = invites w"
  have "filter (\<lambda>u. u_id u \<noteq> uid) us' = filter (\<lambda>u. u_id u \<noteq> uid) us \<and>
      map (\<lambda>u. (u_id u, u_student_id u, u_role u, u_status u, u_max_peers u)) us' =
      map (\<lambda>u. (u_id u, u_student_id u, u_role u, u_status u, u_max_peers u)) us"
    if "own_rows L i f us us'" for us us'
    using that unfolding own_rows_def
    by (induction rule: list_all2_induct) (auto simp add: assms profile_row_def same_identity_def)
  from this [OF rows] rest show "own_change uid w w'"
    by (simp add: own_change_def others_def privileges_def)
qed

lemma ChangePassword_own:
  assumes "uuid_parse L i = Some uid"
  shows "wp (ChangePassword L i c n) (\<lambda>_. own_change uid w) w"
proof -
  have pw: "own_change uid w (v\<lparr>users := update_rows (\<lambda>u. u_id u = uid)
      (\<lambda>u. u\<lparr>u_password := h, u_updated_at := t\<rparr>) (users w)\<rparr>)"
    if "peers v = peers w" "invites v = invites w" for v h t
    using that by (auto simp add: own_change_def others_def privileges_def update_rows_def intro: filter_update_rows [unfolded update_rows_def])
  have "wp (users_UpdatePassword uid h) (\<lambda>_. own_change uid w) v"
    if "users v = users w" "peers v = peers w" "invites v = invites w" for v h
    using that unfolding users_UpdatePassword_def wp_ext_call by (simp add: wp_def pw own_change_same)
  then show ?thesis
    by (auto simp add: ChangePassword_def HashPassword_def users_FindByID_def wp_rules assms own_change_same)
qed

lemma RemovePeer_own:
  assumes "uuid_parse L i = Some uid" and wf: "peers_wf (peers w)"
  shows "wp (RemovePeer L i k) (\<lambda>_. own_change uid w) w"
proof -
  obtain r v where t: "find_target L i k w = (r, v)" by force
  have v: "stutters w v" using readonlyD [OF readonly_find_target t] .
  note same = stutters_same(1-3) [OF v]
  have upd: "own_change uid w (v'\<lparr>peers := update_rows (\<lambda>q. p_id q = p_id p) (\<lambda>q. q\<lparr>p_status := s, p_updated_at := u\<rparr>) (peers w)\<rparr>)"
    if "r = Inr p" "users v' = users w" "invites v' = invites w" for p s u and v' :: world
    using find_target_Inr [OF t [unfolded that(1)]] assms that own_change_peers [OF wf, of p "\<lambda>q. q\<lparr>p_status := s, p_updated_at := u\<rparr>"]
    by simp
  show ?thesis
  proof (cases r)
    case (Inl e)
    with t v show ?thesis by (simp add: RemovePeer_def wp_tryE) (simp add: wp_def own_change_stutters)
  next
    case (Inr p)
    have "wp (RemovePeer_commit L k p) (\<lambda>_. own_change uid w) v"
      using same v upd [OF Inr]
      by (auto simp add: RemovePeer_commit_def wp_rules wp_peers_UpdateStatus own_change_same)
    with t Inr show ?thesis by (simp add: RemovePeer_def wp_tryE) (simp add: wp_def)
  qed
qed

lemma ReplaceKey_own:
  assumes "uuid_parse L i = Some uid" and wf: "peers_wf (peers w)"
  shows "wp (ReplaceKey L i k1 k2) (\<lambda>_. own_change uid w) w"
proof -
  obtain r v where t: "find_target L i (key_string L k1) w = (r, v)" by force
  have v: "stutters w v" using readonlyD [OF readonly_find_target t] .
  note same = stutters_same(1-3) [OF v]
  have upd: "own_change uid w (v'\<lparr>peers := update_rows (\<lambda>q. p_id q = p_id p) (\<lambda>q. q\<lparr>p_public_key := s, p_updated_at := u\<rparr>) (peers w)\<rparr>)"
    if "r = Inr p" "users v' = users w" "invites v' = invites w" for p s u and v' :: world
    using find_target_Inr [OF t [unfolded that(1)]] assms that own_change_peers [OF wf, of p "\<lambda>q. q\<lparr>p_public_key := s, p_updated_at := u\<rparr>"]
    by simp
  show ?thesis
  proof (cases r)
    case (Inl e)
    with t v show ?thesis by (simp add: ReplaceKey_def wp_tryE) (simp add: wp_def own_change_stutters)
  next
    case (Inr p)
    have "wp (peers_UpdatePublicKey (p_id p) s) (\<lambda>_. own_change uid w) v'"
      if "users v' = users w" "invites v' = invites w" "peers v' = peers w" for v' s
      using that upd [OF Inr] unfolding peers_UpdatePublicKey_def wp_ext_call
      by (simp add: wp_def own_change_same)
    then have "wp (tryE (ConfigureDevice L cfg) (\<lambda>_. peers_UpdatePublicKey (p_id p) s)) (\<lambda>_. own_change uid w) v" for cfg s
      using same by (simp add: wp_rules own_change_same)
    with t Inr show ?thesis by (simp add: ReplaceKey_def wp_tryE [of "find_target L i x" for x]) (simp add: wp_def)
  qed
qed

lemma AddPeer_own:
  assumes uid: "uuid_parse L i = Some uid" and I: "leases_ok gw w"
  shows "wp (AddPeer L i k) (\<lambda>_. own_change uid w) w"
proof -
  have n: "net4 (subnet (pool w))" and wf: "peers_wf (peers w)" using I by (simp_all add: leases_ok_def)
  obtain r w' where run: "AddPeer L i k w = (r, w')" by force
  have "own_change uid w w'"
  proof (cases r)
    case (Inl e)
    with run AddPeer_Inl [OF n] show ?thesis by (intro own_change_same) blast+
  next
    case (Inr reg)
    from keepsD [OF AddPeer_user_side run] have us: "users w' = users w" "invites w' = invites w"
      by (auto simp add: user_side_def)
    from run Inr obtain uid' ex a j t where adm: "admitted L i k w uid' ex"
      and ps: "peers w' = registered ex uid' (key_string L k) a j t (peers w)"
      using AddPeer_Inr [OF n] by metis
    have "uid' = uid" using adm uid by (auto simp add: admitted_def)
    show ?thesis
    proof (cases ex)
      case None
      with ps us \<open>uid' = uid\<close> show ?thesis
        by (simp add: own_change_def others_def privileges_def registered_def)
    next
      case (Some q)
      with adm have "find (\<lambda>p. p_public_key p = key_string L k) (peers w) = Some q" "p_user_id q = uid'"
        by (simp_all add: admitted_def)
      with \<open>uid' = uid\<close> have q: "q \<in> set (peers w)" "p_user_id q = uid" by (auto dest: find_SomeD)
      from own_change_peers [OF wf q(1), of "\<lambda>p. p\<lparr>p_assigned_ip := a, p_status := ''active'', p_updated_at := t\<rparr>" w'] q ps Some us
      show ?thesis by (simp add: registered_def)
    qed
  qed
  with run show ?thesis by (simp add: wp_def)
qed

lemma user_write_own:
  assumes uid: "uuid_parse (srv_libs S) (cx_user_id cx) = Some uid" and I: "leases_ok gw w"
    and h: "h \<in> set user_writes"
  shows "wp (call_handler S rq ps h cx) (\<lambda>_. own_change uid w) w"
proof -
  have wf: "peers_wf (peers w)" using I by (simp add: leases_ok_def)
  from h show ?thesis
    by (auto simp add: user_writes_def h_UpdateMe_def h_ChangePassword_def h_RegisterPeer_def
        h_DisconnectPeer_def h_ReplaceKey_def no_active_peer_def invalid_key_def bad_request_def auth_failed_def ok_def forbidden_def
        internal_error_def
        wp_respond wp_rules own_change_same
        intro!: wp_mono [OF UpdateMe_own [OF uid]] wp_mono [OF ChangePassword_own [OF uid]]
          wp_mono [OF AddPeer_own [OF uid I]] wp_mono [OF RemovePeer_own [OF uid wf]]
          wp_mono [OF ReplaceKey_own [OF uid wf]])
qed

definition stays_home :: "server \<Rightarrow> request \<Rightarrow> world \<Rightarrow> world \<Rightarrow> bool" where
  "stays_home S rq w w' \<longleftrightarrow>
     (users w' = users w \<and> peers w' = peers w \<and> invites w' = invites w) \<or>
     (\<exists>cx u. authenticated (srv_libs S) (srv_auth S) rq w cx \<and> cx_user cx = Some u \<and> IsActive u \<and>
        own_change (u_id u) w w')"

lemma stays_home_same: "stutters w v \<Longrightarrow> stays_home S rq w (v\<lparr>limits := l\<rparr>)"
  using stutters_same(1-3) [of w v] by (simp add: stays_home_def)

text \<open>Behind the check of the token, an active user's write changes that user's rows only.\<close>

lemma active_write_home:
  assumes h: "h \<in> set user_writes" and I: "leases_ok gw w" and v: "stutters w v"
    and cx: "authenticated (srv_libs S) (srv_auth S) rq w cx"
  shows "wp (RequireActiveUser cx (call_handler S rq ps h cx)) (\<lambda>_. stays_home S rq w) (v\<lparr>limits := l\<rparr>)"
proof -
  let ?v = "v\<lparr>limits := l\<rparr>"
  from authenticatedD [OF cx] obtain u where u: "cx_user cx = Some u"
    "uuid_parse (srv_libs S) (cx_user_id cx) = Some (u_id u)" by blast
  have before: "own_change i w ?v" for i using own_change_stutters [OF v] by simp
  have "leases_ok gw ?v" using leases_ok_stutters [OF I v] by (simp add: leases_ok_def)
  from user_write_own [OF u(2) this h]
  have "wp (call_handler S rq ps h cx) (\<lambda>_ w'. own_change (u_id u) w w') ?v"
    by (rule wp_mono) (rule own_change_trans [OF before])
  then have "IsActive u \<Longrightarrow> wp (call_handler S rq ps h cx) (\<lambda>_. stays_home S rq w) ?v"
    by (rule wp_mono) (use u(1) cx in \<open>auto simp add: stays_home_def\<close>)
  then show ?thesis
    using u(1) stays_home_same [OF v] by (simp add: RequireActiveUser_def forbidden_def wp_respond)
qed

lemma active_chain_home:
  assumes h: "h \<in> set user_writes" and I: "leases_ok gw w"
    and gs: "gs = [GActive] \<or> gs = [GPeerLimit, GActive]"
  shows "wp (run_chain S rq (GAuth # gs) (call_handler S rq ps h) cx0) (\<lambda>_. stays_home S rq w) w"
proof -
  let ?H = "call_handler S rq ps h" and ?Q = "\<lambda>_. stays_home S rq w"
  have same: "stays_home S rq w v" if "stutters w v" for v
    using stays_home_same [OF that, of S rq "limits v"] by simp
  have "wp (AuthMiddleware (srv_libs S) (srv_auth S) rq (run_chain S rq gs ?H)) ?Q w"
  proof (rule wp_AuthMiddleware)
    fix cx v
    assume cx: "authenticated (srv_libs S) (srv_auth S) rq w cx" and v: "stutters w v"
    note active = active_write_home [OF h I v cx]
    have "wp (RequireActiveUser cx (?H cx)) ?Q v" using active [of ps "limits v"] by simp
    moreover from this have "wp (PeerRateLimit cx (RequireActiveUser cx (?H cx))) ?Q v"
      unfolding PeerRateLimit_def wp_if wp_tryE wp_limit_op rate_limited_def wp_respond
      using active stays_home_same [OF v] by simp
    ultimately show "wp (run_chain S rq gs ?H cx) ?Q v" using gs by (elim disjE) simp_all
  qed (rule same)
  then show ?thesis by simp
qed

text \<open>
  C4: a request outside the paths of administration and registration can change, in any
  reachable state, at most the rows of the active user whose token it carries: every other
  user's row, every other user's peers and the invites stay as they are, and no row's id, student
  id, role, status or peer limit changes, so no such request can raise its user's rights.
\<close>

theorem user_requests_stay_home:
  assumes gin: "gin_lib S" and I: "sys_inv gw w"
    and path: "\<not> admin_path (rq_path rq)" "\<not> auth_path (rq_path rq)"
    and run: "serve S rq w = (r, w')"
  shows "(users w' = users w \<and> peers w' = peers w \<and> invites w' = invites w) \<or>
     (\<exists>cx u. authenticated (srv_libs S) (srv_auth S) rq w cx \<and> cx_user cx = Some u \<and> IsActive u \<and>
        others (u_id u) w' = others (u_id u) w \<and> privileges w' = privileges w)"
proof -
  let ?same = "\<lambda>w'. users w' = users w \<and> peers w' = peers w \<and> invites w' = invites w"
  have calm_same: "calm ?same" by (auto simp add: calm_def stutters_same)
  have "wp (serve S rq) (\<lambda>_. stays_home S rq w) w"
  proof (rule serve_cases [OF gin, of rq])
    fix rt :: route and ps
    let ?H = "call_handler S rq ps (rt_handler rt)"
    assume serve: "serve S rq = run_chain S rq (rt_guards rt) ?H no_ctx"
      and rt: "rt \<in> set routes" "take 4 (SplitByte CHR ''/'' (rq_path rq)) = take 4 (fst (route_key rt))"
    from user_routes rt path consider "rt_handler rt \<in> set user_reads"
      | gs where "rt_guards rt = GAuth # gs" "gs = [GActive] \<or> gs = [GPeerLimit, GActive]" "rt_handler rt \<in> set user_writes"
      by (auto simp add: list_all_iff admin_path_def auth_path_def route_key_def)
    then show ?thesis
    proof cases
      case 1
      then have "preserves ?same (?H cx)" for cx
        by (intro calm_readonly [OF calm_same]) (auto simp add: user_reads_def readonly_handlers)
      then have "preserves ?same (serve S rq)" unfolding serve using calm_run_chain [OF calm_same] by blast
      from preserves_wp [OF this, of w] show ?thesis by (auto elim!: wp_mono simp add: stays_home_def)
    next
      case 2
      have "leases_ok gw w" using I by (simp add: sys_inv_def)
      then show ?thesis unfolding serve 2(1) by (rule active_chain_home [OF 2(3) _ 2(2)])
    qed
  qed (simp_all add: wp_respond stays_home_def)
  from wp_I [OF this run] show ?thesis unfolding stays_home_def own_change_def .
qed

text \<open>The reference server satisfies the invariant, with or without its peer.\<close>

lemma ref_net4: "net4 (subnet (pool ref_world))"
  by (simp add: ref_world_def ref_pool_def net4_def) code_simp

lemma ref_sys_inv: "sys_inv ''10.8.0.1'' ref_world"
  using ref_net4
  by (simp add: sys_inv_def leases_ok_def lease_rows_def invites_ok_def tables_ok_def users_wf_def invites_wf_def
      peers_wf_def user_ok_def ValidRoles_def ValidStatuses_def ref_world_def ref_pool_def ref_admin_def)

definition ref_key_request :: request where
  "ref_key_request = (ref_request ''POST'' ''/api/v1/peer/register'')
     \<lparr>rq_body := \<lparr>bd_fields = Some [''public_key'' \<mapsto> JStr ''7''], bd_trailing = False\<rparr>\<rparr>"

theorem user_requests_stay_home_witness:
  "\<exists>rs w'. serve ref_server ref_key_request ref_world = (Inr rs, w') \<and> rs_status rs = 200 \<and>
     length (peers w') = 1 \<and> invites w' = [] \<and> filter (\<lambda>u. u_id u \<noteq> 1) (users w') = []"
proof -
  let ?run = "serve ref_server ref_key_request ref_world"
  have "case ?run of (Inr rs, w') \<Rightarrow> rs_status rs = 200 \<and> length (peers w') = 1 | _ \<Rightarrow> False" by code_simp
  then obtain rs w' where run: "?run = (Inr rs, w')" "rs_status rs = 200" "length (peers w') = 1"
    by (cases ?run) (auto split: sum.splits)
  have "\<not> admin_path (rq_path ref_key_request)" "\<not> auth_path (rq_path ref_key_request)" by code_simp+
  from user_requests_stay_home [OF ref_gin ref_sys_inv this run(1)] run show ?thesis
    by (auto simp add: ref_world_def ref_admin_def authenticated_def others_def)
qed

section \<open>Every request is answered\<close>


section \<open>The limit on logins\<close>

definition with_trailing :: "bool \<Rightarrow> request \<Rightarrow> request" where
  "with_trailing b rq = rq\<lparr>rq_body := (rq_body rq)\<lparr>bd_trailing := b\<rparr>\<rparr>"

definition login_chain :: "server \<Rightarrow> request \<Rightarrow> response wop" where
  "login_chain S rq = run_chain S rq [GLoginLimit] (call_handler S rq [] ELogin) no_ctx"


definition ref_login :: request where
  "ref_login = \<lparr>rq_method = ''POST'', rq_path = ''/api/v1/auth/login'', rq_auth = '''', rq_query = Map.empty,
     rq_body = \<lparr>bd_fields = Some [''student_id'' \<mapsto> JStr ''2024001'', ''password'' \<mapsto> JStr ''wrong''],
       bd_trailing = True\<rparr>, rq_ip = ''10.0.0.1''\<rparr>"

definition ref_locked :: world where
  "ref_locked = ref_world\<lparr>limits := [''login:2024001'' \<mapsto>
     \<lparr>rb_timestamps = [1000000000, 1000000000, 1000000000, 1000000000, 1000000000], rb_limit = 5, rb_window = minute\<rparr>]\<rparr>"

definition answer_status :: "(goerr + response) \<times> world \<Rightarrow> int" where
  "answer_status r = (case fst r of Inr rs \<Rightarrow> rs_status rs | Inl _ \<Rightarrow> 0)"


end
