(* ===== verification/LeaseBook.thy ===== *)
theory LeaseBook
  imports ServerProperties
begin

text \<open>
  What the server promises about tunnel addresses, as a machine of its own: a book of leases, in
  which a lease is granted, dropped or gets another key. The lemmas show that serving a request
  does at most one step of that machine, and reconciling none.
\<close>

section \<open>The book of leases\<close>

record lease =
  ls_peer :: uuid
  ls_user :: uuid
  ls_key :: string
  ls_ip :: string

inductive lease_step :: "ipnet \<Rightarrow> string \<Rightarrow> lease set \<Rightarrow> lease set \<Rightarrow> bool" for n gw where
  grant: "ls_ip l \<in> host_ips n \<Longrightarrow> ls_ip l \<noteq> gw \<Longrightarrow>
     \<forall>m \<in> B. ls_ip m \<noteq> ls_ip l \<and> ls_key m \<noteq> ls_key l \<and> ls_peer m \<noteq> ls_peer l \<Longrightarrow>
     lease_step n gw B (insert l B)"
| drop: "l \<in> B \<Longrightarrow> lease_step n gw B (B - {l})"
| rekey: "l \<in> B \<Longrightarrow> \<forall>m \<in> B. ls_key m \<noteq> k \<Longrightarrow> lease_step n gw B (insert (l\<lparr>ls_key := k\<rparr>) (B - {l}))"

definition lease_of :: "peer \<Rightarrow> lease" where
  "lease_of p = \<lparr>ls_peer = p_id p, ls_user = p_user_id p, ls_key = p_public_key p, ls_ip = p_assigned_ip p\<rparr>"

definition book :: "peer list \<Rightarrow> lease set" where
  "book ps = lease_of ` {p \<in> set ps. p_status p = ''active''}"

text \<open>Nothing is promised twice in a book, and nothing outside the subnet.\<close>

definition book_ok :: "ipnet \<Rightarrow> string \<Rightarrow> lease set \<Rightarrow> bool" where
  "book_ok n gw B \<longleftrightarrow> finite B \<and> inj_on ls_ip B \<and> inj_on ls_key B \<and> inj_on ls_peer B \<and>
     ls_ip ` B \<subseteq> host_ips n - {gw}"

lemma lease_of_simps [simp]:
  "ls_peer (lease_of p) = p_id p" "ls_user (lease_of p) = p_user_id p" "ls_key (lease_of p) = p_public_key p"
  "ls_ip (lease_of p) = p_assigned_ip p"
  by (simp_all add: lease_of_def)

lemma inj_on_insertI: "inj_on f B \<Longrightarrow> \<forall>m \<in> B. f m \<noteq> f l \<Longrightarrow> inj_on f (insert l B)"
  by (auto simp add: inj_on_def)

lemma book_ok_insert:
  assumes "book_ok n gw B" "ls_ip l \<in> host_ips n" "ls_ip l \<noteq> gw"
    and "\<forall>m \<in> B. ls_ip m \<noteq> ls_ip l" "\<forall>m \<in> B. ls_key m \<noteq> ls_key l" "\<forall>m \<in> B. ls_peer m \<noteq> ls_peer l"
  shows "book_ok n gw (insert l B)"
  using assms by (auto simp add: book_ok_def inj_on_insertI simp del: inj_on_insert)

lemma book_ok_subset: "book_ok n gw B \<Longrightarrow> C \<subseteq> B \<Longrightarrow> book_ok n gw C"
  unfolding book_ok_def by (meson finite_subset image_mono inj_on_subset subset_trans)

lemma book_ok_step: "lease_step n gw B C \<Longrightarrow> book_ok n gw B \<Longrightarrow> book_ok n gw C"
proof (induction rule: lease_step.induct)
  case (grant l B)
  then show ?case by (intro book_ok_insert) auto
next
  case (drop l B)
  then show ?case by (auto intro: book_ok_subset)
next
  case (rekey l B k)
  then have inj: "inj_on ls_ip B" "inj_on ls_peer B" and ip: "ls_ip l \<in> host_ips n" "ls_ip l \<noteq> gw"
    by (auto simp add: book_ok_def)
  have "ls_ip m \<noteq> ls_ip l" "ls_peer m \<noteq> ls_peer l" if "m \<in> B - {l}" for m
    using that rekey(1) inj by (auto dest: inj_onD)
  with rekey ip show ?case by (intro book_ok_insert) (auto intro: book_ok_subset)
qed

text \<open>A book holds at most as many leases as the subnet has addresses for clients.\<close>

lemma book_ok_card:
  assumes "book_ok n gw B"
  shows "card B \<le> card (host_ips n - {gw})"
  using assms finite_host_ips [of n] by (auto simp add: book_ok_def intro!: card_inj_on_le [of ls_ip])

section \<open>Rows and leases\<close>

definition lease_view :: "world \<Rightarrow> lease set \<times> ipnet" where
  "lease_view w = (book (peers w), subnet (pool w))"

lemma lease_view_frames [simp]:
  "lease_view (tick w) = lease_view w" "lease_view (w\<lparr>users := us\<rparr>) = lease_view w"
  "lease_view (w\<lparr>invites := vs\<rparr>) = lease_view w" "lease_view (w\<lparr>device := d\<rparr>) = lease_view w"
  "lease_view (w\<lparr>server_key := k\<rparr>) = lease_view w" "lease_view (w\<lparr>nrnd := i\<rparr>) = lease_view w"
  "lease_view (w\<lparr>limits := l\<rparr>) = lease_view w"
  by (simp_all add: lease_view_def)

lemma lease_view_side: "peer_side w' = peer_side w \<Longrightarrow> lease_view w' = lease_view w"
  by (simp add: lease_view_def peer_side_def)

lemma lease_view_stutters: "stutters w w' \<Longrightarrow> lease_view w' = lease_view w"
  by (intro lease_view_side side_stutters)

lemma lease_view_readonly: "readonly m \<Longrightarrow> keeps lease_view m"
  by (erule keeps_readonly [rotated]) (rule lease_view_stutters)

lemma keeps_lease_view: "keeps peer_side m \<Longrightarrow> keeps lease_view m"
  by (auto simp add: keeps_def intro: lease_view_side)

text \<open>An update that changes neither the status nor the lease, and one that ends the lease.\<close>

lemma book_update:
  "book (update_rows P f ps) = (\<lambda>p. lease_of (if P p then f p else p)) `
     {p \<in> set ps. p_status (if P p then f p else p) = ''active''}"
  by (auto simp only: book_def set_update_rows image_iff)

lemma book_update_same:
  assumes "\<And>p. p_status (f p) = p_status p" "\<And>p. lease_of (f p) = lease_of p"
  shows "book (update_rows P f ps) = book ps"
proof -
  have "p_status (if P p then f p else p) = p_status p" "lease_of (if P p then f p else p) = lease_of p" for p
    using assms by simp_all
  then show ?thesis by (simp only: book_update) (simp only: book_def)
qed

lemma book_update_off:
  assumes "\<And>p. p_status (f p) \<noteq> ''active''"
  shows "book (update_rows (\<lambda>p. p_id p = i) f ps) = {l \<in> book ps. ls_peer l \<noteq> i}"
proof -
  have "{p \<in> set ps. p_status (if p_id p = i then f p else p) = ''active''} =
      {p \<in> set ps. p_status p = ''active'' \<and> p_id p \<noteq> i}"
    using assms by auto
  then show ?thesis by (auto simp add: book_update) (auto simp add: book_def)
qed

text \<open>Ending the lease of one peer, or of none.\<close>

definition drops :: "uuid \<Rightarrow> world \<Rightarrow> world \<Rightarrow> bool" where
  "drops i w w' \<longleftrightarrow> subnet (pool w') = subnet (pool w) \<and>
     (book (peers w') = book (peers w) \<or> book (peers w') = {l \<in> book (peers w). ls_peer l \<noteq> i})"

lemma drops_same: "lease_view w' = lease_view w \<Longrightarrow> drops i w w'"
  by (simp add: drops_def lease_view_def)

lemma drops_trans: "drops i w v \<Longrightarrow> drops i v w' \<Longrightarrow> drops i w w'"
  unfolding drops_def by auto

definition book_step :: "string \<Rightarrow> world \<Rightarrow> world \<Rightarrow> bool" where
  "book_step gw w w' \<longleftrightarrow> subnet (pool w') = subnet (pool w) \<and>
     (book (peers w') = book (peers w) \<or> lease_step (subnet (pool w)) gw (book (peers w)) (book (peers w')))"

lemma book_step_same: "lease_view w' = lease_view w \<Longrightarrow> book_step gw w w'"
  by (simp add: book_step_def lease_view_def)

lemma inj_book: "peers_wf ps \<Longrightarrow> inj_on ls_peer (book ps)" "peers_wf ps \<Longrightarrow> inj_on ls_key (book ps)"
  unfolding peers_wf_def book_def by (auto simp add: inj_on_def distinct_map)

lemma drops_book_step:
  assumes "leases_ok gw w" "drops i w w'"
  shows "book_step gw w w'"
proof (cases "\<exists>l \<in> book (peers w). ls_peer l = i")
  case True
  then obtain l where l: "l \<in> book (peers w)" "ls_peer l = i" by blast
  then have "{l \<in> book (peers w). ls_peer l \<noteq> i} = book (peers w) - {l}"
    using inj_book(1) assms(1) by (auto simp add: leases_ok_def dest: inj_onD)
  with assms(2) lease_step.drop [OF l(1)] show ?thesis by (auto simp add: drops_def book_step_def)
next
  case False
  then have "{l \<in> book (peers w). ls_peer l \<noteq> i} = book (peers w)" by auto
  with assms(2) show ?thesis by (auto simp add: drops_def book_step_def)
qed

section \<open>The operations on peers\<close>

lemma UpdateStatus_drops:
  "s \<noteq> ''active'' \<Longrightarrow> varchar_ok 16 s \<Longrightarrow> wp (peers_UpdateStatus i s) (\<lambda>_. drops i w) w"
  by (simp add: wp_peers_UpdateStatus drops_same) (simp add: drops_def book_update_off)

lemma peer_status_drops:
  assumes "uuid_parse L s = Some i"
  shows "wp (DisconnectPeer L s) (\<lambda>_. drops i w) w" "wp (RevokePeer L s) (\<lambda>_. drops i w) w"
proof -
  have upd: "wp (peers_UpdateStatus i st) (\<lambda>_. drops i w) v" if "stutters w v" "st \<noteq> ''active''" "varchar_ok 16 st" for v st
    using UpdateStatus_drops [OF that(2,3)]
    by (rule wp_mono) (rule drops_trans [OF drops_same [OF lease_view_stutters [OF that(1)]]])
  show "wp (DisconnectPeer L s) (\<lambda>_. drops i w) w" "wp (RevokePeer L s) (\<lambda>_. drops i w) w"
    using upd
    by (simp_all add: DisconnectPeer_def RevokePeer_def assms peers_FindByID_def wp_rules drops_same)
qed

lemma RemovePeer_commit_view:
  "wp (RemovePeer_commit L k p) (\<lambda>_. drops (p_id p) w) w"
proof -
  have off: "drops (p_id p) w (v\<lparr>peers := update_rows (\<lambda>q. p_id q = p_id p)
      (\<lambda>q. q\<lparr>p_status := ''disconnected'', p_updated_at := t\<rparr>) (peers w), pool := i\<rparr>)"
    if "subnet i = subnet (pool w)" for v t i
    using that by (simp add: drops_def book_update_off)
  then have "drops (p_id p) w (v\<lparr>peers := update_rows (\<lambda>q. p_id q = p_id p)
      (\<lambda>q. q\<lparr>p_status := ''disconnected'', p_updated_at := t\<rparr>) (peers w)\<rparr>)"
    if "pool v = pool w" for v t
    using that by (simp add: drops_def book_update_off)
  with off show ?thesis
    by (simp add: RemovePeer_commit_def wp_rules wp_peers_UpdateStatus drops_same)
qed

lemma RemovePeer_drops:
  "wp (RemovePeer L i k) (\<lambda>_ w'. lease_view w' = lease_view w \<or>
     (\<exists>p \<in> set (peers w). p_public_key p = k \<and> drops (p_id p) w w')) w"
proof -
  obtain r v where t: "find_target L i k w = (r, v)" by force
  have v: "lease_view v = lease_view w" using lease_view_stutters [OF readonlyD [OF readonly_find_target t]] .
  show ?thesis
  proof (cases r)
    case (Inl e)
    with t v show ?thesis by (simp add: RemovePeer_def wp_tryE) (simp add: wp_def)
  next
    case (Inr p)
    note p = find_target_Inr [OF t [unfolded Inr]]
    have "wp (RemovePeer_commit L k p) (\<lambda>_ w'. lease_view w' = lease_view w \<or>
        (\<exists>p \<in> set (peers w). p_public_key p = k \<and> drops (p_id p) w w')) v"
      using RemovePeer_commit_view
    proof (rule wp_mono)
      fix r and w' :: world
      assume "drops (p_id p) v w'"
      with drops_trans [OF drops_same [OF v]] p show "lease_view w' = lease_view w \<or>
          (\<exists>p \<in> set (peers w). p_public_key p = k \<and> drops (p_id p) w w')" by blast
    qed
    with t Inr show ?thesis by (simp add: RemovePeer_def wp_tryE) (simp add: wp_def)
  qed
qed

text \<open>One row of the table replaced by an active one.\<close>

lemma book_replace:
  assumes wf: "peers_wf ps" and p: "p \<in> set ps" and f: "p_status (f p) = ''active''"
  shows "book (update_rows (\<lambda>q. p_id q = p_id p) f ps) = insert (lease_of (f p)) (book ps - {lease_of p})"
proof -
  have "set (update_rows (\<lambda>q. p_id q = p_id p) f ps) = insert (f p) (set ps - {p})"
    using wf p by (simp add: peers_by_id.update_unique peers_wf_def)
  then have "{q \<in> set (update_rows (\<lambda>q. p_id q = p_id p) f ps). p_status q = ''active''} =
      insert (f p) ({q \<in> set ps. p_status q = ''active''} - {p})"
    using f by auto
  moreover have "inj_on lease_of (set ps)"
    using wf by (auto simp add: peers_wf_def lease_of_def intro!: inj_onI dest: distinct_map_inj_on)
  then have "lease_of ` ({q \<in> set ps. p_status q = ''active''} - {p}) = book ps - {lease_of p}"
    using p inj_on_image_set_diff [of lease_of "set ps" "{q \<in> set ps. p_status q = ''active''}" "{p}"]
    by (auto simp add: book_def)
  ultimately show ?thesis by (simp add: book_def)
qed

text \<open>Another key for one active row.\<close>

lemma book_rekey:
  assumes wf: "peers_wf ps" and p: "p \<in> set ps" "p_status p = ''active''"
  shows "book (update_rows (\<lambda>q. p_id q = p_id p) (\<lambda>q. q\<lparr>p_public_key := k, p_updated_at := t\<rparr>) ps) =
     insert ((lease_of p)\<lparr>ls_key := k\<rparr>) (book ps - {lease_of p})"
  using book_replace [OF wf p(1), of "\<lambda>q. q\<lparr>p_public_key := k, p_updated_at := t\<rparr>"] p(2)
  by (simp add: lease_of_def)

lemma ReplaceKey_step:
  assumes I: "leases_ok gw w"
  shows "wp (ReplaceKey L i k1 k2) (\<lambda>_. book_step gw w) w"
proof -
  have wf: "peers_wf (peers w)" using I by (simp add: leases_ok_def)
  obtain r v where t: "find_target L i (key_string L k1) w = (r, v)" by force
  have st: "stutters w v" using readonlyD [OF readonly_find_target t] .
  note v = stutters_same(3,4) [OF st]
  show ?thesis
  proof (cases r)
    case (Inl e)
    with t lease_view_stutters [OF st] show ?thesis
      by (simp add: ReplaceKey_def wp_tryE) (simp add: wp_def book_step_same)
  next
    case (Inr p)
    note p = find_target_Inr(2,3) [OF t [unfolded Inr]]
    have upd: "book_step gw w (v'\<lparr>peers := update_rows (\<lambda>q. p_id q = p_id p)
          (\<lambda>q. q\<lparr>p_public_key := k, p_updated_at := u\<rparr>) (peers w)\<rparr>)"
      if "pool v' = pool w" and others: "\<forall>q \<in> set (peers w). p_id q \<noteq> p_id p \<longrightarrow> p_public_key q \<noteq> k" for v' k u
    proof (cases "k = p_public_key p")
      case True
      then have "(lease_of p)\<lparr>ls_key := k\<rparr> = lease_of p" by (simp add: lease_of_def)
      moreover have "lease_of p \<in> book (peers w)" using p by (auto simp add: book_def)
      ultimately show ?thesis using that(1) book_rekey [OF wf p] by (auto simp add: book_step_def insert_absorb)
    next
      case False
      have "lease_of p \<in> book (peers w)" using p by (auto simp add: book_def)
      moreover have "p_public_key q \<noteq> k" if "q \<in> set (peers w)" for q
        using that False others p(1) wf by (cases "q = p") (auto simp add: peers_wf_def dest: distinct_map_inj_on)
      then have "\<forall>m \<in> book (peers w). ls_key m \<noteq> k" by (auto simp add: book_def)
      ultimately show ?thesis
        using that(1) lease_step.rekey book_rekey [OF wf p] by (simp add: book_step_def)
    qed
    have "wp (peers_UpdatePublicKey (p_id p) s) (\<lambda>_. book_step gw w) v'"
      if "lease_view v' = lease_view w" "pool v' = pool w" "peers v' = peers w" for v' s
      using that p upd [of "tick v'"] unfolding peers_UpdatePublicKey_def wp_ext_call
      by (auto simp add: wp_def book_step_same)
    then have "wp (tryE (ConfigureDevice L cfg) (\<lambda>_. peers_UpdatePublicKey (p_id p) s)) (\<lambda>_. book_step gw w) v" for cfg s
      using v lease_view_stutters [OF st] by (simp add: wp_rules book_step_same)
    with t Inr show ?thesis by (simp add: ReplaceKey_def wp_tryE [of "find_target L i x" for x]) (simp add: wp_def)
  qed
qed

lemma AddPeer_step:
  assumes I: "leases_ok gw w"
  shows "wp (AddPeer L i k) (\<lambda>_. book_step gw w) w"
proof -
  have n: "net4 (subnet (pool w))" and wf: "peers_wf (peers w)" and gw: "gw \<in> used (pool w)"
    and lr: "lease_rows gw (pool w) (peers w)" using I by (simp_all add: leases_ok_def)
  obtain r w' where run: "AddPeer L i k w = (r, w')" by force
  have I': "leases_ok gw w'" using preservesD [OF AddPeer_leases I] run by (metis snd_conv)
  have "book_step gw w w'"
  proof (cases r)
    case (Inl e)
    with run AddPeer_Inl [OF n] show ?thesis
      by (intro book_step_same) (metis lease_view_side peer_side_def)
  next
    case (Inr reg)
    from run Inr obtain uid ex a j t where adm: "admitted L i k w uid ex"
      and a: "a \<in> host_ips (subnet (pool w))" "a \<notin> used (pool w)"
      and pool: "pool w' = (pool w)\<lparr>used := insert a (used (pool w))\<rparr>"
      and rows: "peers w' = registered ex uid (key_string L k) a j t (peers w)"
      using AddPeer_Inr [OF n] by metis
    obtain l where b: "book (peers w') = insert l (book (peers w))" and l: "ls_ip l = a" "ls_key l = key_string L k"
      and new: "\<forall>m \<in> book (peers w). ls_key m \<noteq> ls_key l \<and> ls_peer m \<noteq> ls_peer l"
    proof (cases ex)
      case None
      let ?p = "\<lparr>p_id = j, p_user_id = uid, p_public_key = key_string L k, p_assigned_ip = a, p_status = ''active'',
        p_last_seen = None, p_created_at = t, p_updated_at = t\<rparr>"
      have "peers w' = peers w @ [?p]" using rows None by (simp add: registered_def)
      with I' have "\<forall>q \<in> set (peers w). p_public_key q \<noteq> key_string L k \<and> p_id q \<noteq> j"
        and "book (peers w') = insert (lease_of ?p) (book (peers w))"
        by (auto simp add: leases_ok_def peers_wf_def book_def image_iff)
      then show thesis by (intro that [of "lease_of ?p"]) (auto simp add: book_def)
    next
      case (Some q)
      let ?p = "q\<lparr>p_assigned_ip := a, p_status := ''active'', p_updated_at := t\<rparr>"
      from adm Some have q: "q \<in> set (peers w)" "p_public_key q = key_string L k" "p_status q = ''disconnected''"
        by (auto simp add: admitted_def dest!: find_SomeD sym [of "Some q"])
      have "lease_of q \<notin> book (peers w)"
        using q wf by (auto simp add: book_def lease_of_def peers_wf_def dest: distinct_map_inj_on)
      with book_replace [OF wf q(1), of "\<lambda>p. p\<lparr>p_assigned_ip := a, p_status := ''active'', p_updated_at := t\<rparr>"] rows Some
      have "book (peers w') = insert (lease_of ?p) (book (peers w))" by (simp add: registered_def)
      moreover have "p_public_key p \<noteq> p_public_key q \<and> p_id p \<noteq> p_id q" if "p \<in> set (peers w)" "p_status p = ''active''" for p
        using that q wf by (auto simp add: peers_wf_def dest: distinct_map_inj_on)
      ultimately show thesis using q(2) by (intro that [of "lease_of ?p"]) (auto simp add: book_def)
    qed
    have "ls_ip m \<noteq> a" if "m \<in> book (peers w)" for m
      using that lease_rowsD(1) [OF lr] a(2) by (auto simp add: book_def)
    with lease_step.grant [of l "subnet (pool w)" gw "book (peers w)"] new l a gw
    have "lease_step (subnet (pool w)) gw (book (peers w)) (insert l (book (peers w)))" by auto
    with b pool show ?thesis by (simp add: book_step_def)
  qed
  with run show ?thesis by (simp add: wp_def)
qed

section \<open>Requests\<close>

lemma wg_peer_side: "keeps peer_side (RotateServerKey L k)" "keeps peer_side (SetWGEnabled L b)"
  unfolding RotateServerKey_def SetWGEnabled_def enableWG_def disableWG_def
  by (intro frame_rules side_frames)+

lemma respond_view:
  "keeps lease_view (respond st code p)" "keeps lease_view (ok p)" "keeps lease_view bad_request"
  "keeps lease_view auth_failed" "keeps lease_view forbidden" "keeps lease_view internal_error"
  "keeps lease_view rate_limited" "keeps lease_view (error_response err cs)"
  "keeps lease_view invalid_key" "keeps lease_view (no_active_peer err)"
  "keeps lease_view (peer_not_found err)" "keeps lease_view time_now" "keeps lease_view (GetPeer L i)"
  unfolding invalid_key_def no_active_peer_def peer_not_found_def
  by (intro lease_view_readonly readonly_intros)+

lemmas service_view = Register_peer_side [THEN keeps_lease_view] account_frames(1,3) [THEN keeps_lease_view]
  admin_frames(1,3,5,7) [THEN keeps_lease_view] wg_peer_side [THEN keeps_lease_view]

text \<open>The handlers that may change a lease, and all others.\<close>

definition lease_handlers :: "endpoint_handler list" where
  "lease_handlers = [ERegisterPeer, EDisconnectPeer, EReplaceKey, EAdminDisconnectPeer, EAdminRevokePeer]"

lemma handler_view: "h \<notin> set lease_handlers \<Longrightarrow> keeps lease_view (call_handler S rq ps h cx)"
  by (cases h) (simp_all add: lease_handlers_def lease_view_readonly readonly_handlers h_Register_def h_UpdateMe_def
      h_ChangePassword_def h_AdminUpdateUser_def h_AdminCreateInvite_def h_AdminUpdateInvite_def
      h_AdminDeleteInvite_def h_AdminRotateWGKey_def h_AdminToggleWG_def Let_def,
    (auto intro!: frame_rules respond_view service_view split: prod.splits option.splits)+)

lemma RemovePeer_step:
  assumes I: "leases_ok gw w"
  shows "wp (RemovePeer L i k) (\<lambda>_. book_step gw w) w"
  using RemovePeer_drops by (rule wp_mono) (auto intro: book_step_same drops_book_step [OF I])

lemma user_lease_handlers:
  assumes I: "leases_ok gw w"
  shows "wp (h_RegisterPeer L rq cx) (\<lambda>_. book_step gw w) w" "wp (h_DisconnectPeer L rq cx) (\<lambda>_. book_step gw w) w"
    "wp (h_ReplaceKey L rq cx) (\<lambda>_. book_step gw w) w"
  by (auto simp add: h_RegisterPeer_def h_DisconnectPeer_def h_ReplaceKey_def no_active_peer_def invalid_key_def
      bad_request_def auth_failed_def ok_def forbidden_def internal_error_def wp_respond wp_rules book_step_same
      intro!: wp_mono [OF AddPeer_step [OF I]] wp_mono [OF RemovePeer_step [OF I]] wp_mono [OF ReplaceKey_step [OF I]])

text \<open>An administrator's handlers touch the lease of the peer they name, twice at most.\<close>

lemma GetPeer_wp:
  "wp (GetPeer L s) (\<lambda>r v. stutters w v \<and>
     (\<forall>p. r = Inr p \<longrightarrow> p \<in> set (peers w) \<and> uuid_parse L s = Some (p_id p))) w"
  by (auto simp add: GetPeer_def peers_FindByID_def wp_rules dest: find_SomeD)

lemma take_off_drops:
  assumes wf: "peers_wf (peers w)" and p: "p \<in> set (peers w)"
    and rest: "\<And>v. wp rest (\<lambda>_. drops (p_id p) v) v"
  shows "wp (take_off_device L p rest) (\<lambda>_. drops (p_id p) w) w"
proof -
  have "wp (RemovePeer L i (p_public_key p)) (\<lambda>_. drops (p_id p) w) w" for i
    using RemovePeer_drops
  proof (rule wp_mono)
    fix r and w' :: world
    assume "lease_view w' = lease_view w \<or> (\<exists>q \<in> set (peers w). p_public_key q = p_public_key p \<and> drops (p_id q) w w')"
    moreover have "q = p" if "q \<in> set (peers w)" "p_public_key q = p_public_key p" for q
      using wf p that by (auto simp add: peers_wf_def dest: distinct_map_inj_on)
    ultimately show "drops (p_id p) w w'" by (auto intro: drops_same)
  qed
  then have "wp (ignoreE (RemovePeer L i (p_public_key p)) rest) (\<lambda>_. drops (p_id p) w) w" for i
    unfolding wp_ignoreE by (rule wp_mono) (rule wp_mono [OF rest], erule (1) drops_trans)
  with rest show ?thesis by (simp add: take_off_device_def)
qed

lemma admin_lease_handlers:
  assumes I: "leases_ok gw w"
  shows "wp (h_AdminDisconnectPeer L s) (\<lambda>_. book_step gw w) w" "wp (h_AdminRevokePeer L s) (\<lambda>_. book_step gw w) w"
proof -
  have inner: "wp (caseE (GetPeer L s) peer_not_found (\<lambda>p. take_off_device L p (caseE m peer_not_found (\<lambda>_. ok PNone))))
      (\<lambda>_. book_step gw w) w"
    if m: "\<And>i v. uuid_parse L s = Some i \<Longrightarrow> wp m (\<lambda>_. drops i v) v" for m :: "unit wop"
  proof -
    have last: "wp (caseE m peer_not_found (\<lambda>_. ok PNone)) (\<lambda>_. drops i v) v" if "uuid_parse L s = Some i" for i v
      unfolding wp_caseE using m [OF that]
      by (rule wp_mono) (auto simp add: peer_not_found_def ok_def internal_error_def wp_respond wp_rules)
    show ?thesis
      unfolding wp_caseE using GetPeer_wp
    proof (rule wp_mono, elim conjE, intro conjI allI impI)
      fix r :: "goerr + peer" and v :: world and e
      assume "stutters w v" "r = Inl e"
      then show "wp (peer_not_found e) (\<lambda>_. book_step gw w) v"
        using keeps_wp [OF respond_view(11), of e v] lease_view_stutters by (auto elim!: wp_mono intro: book_step_same)
    next
      fix r :: "goerr + peer" and v :: world and p
      assume v: "stutters w v" and "r = Inr p"
        and "\<forall>p. r = Inr p \<longrightarrow> p \<in> set (peers w) \<and> uuid_parse L s = Some (p_id p)"
      then have p: "p \<in> set (peers v)" "uuid_parse L s = Some (p_id p)" by (auto simp add: stutters_same)
      have "leases_ok gw v" using leases_ok_stutters [OF I v] .
      then have "peers_wf (peers v)" by (simp add: leases_ok_def)
      from take_off_drops [OF this p(1) last [OF p(2)]]
      show "wp (take_off_device L p (caseE m peer_not_found (\<lambda>_. ok PNone))) (\<lambda>_. book_step gw w) v"
        by (rule wp_mono) (rule drops_book_step [OF I drops_trans [OF drops_same [OF lease_view_stutters [OF v]]]])
    qed
  qed
  show "wp (h_AdminDisconnectPeer L s) (\<lambda>_. book_step gw w) w" "wp (h_AdminRevokePeer L s) (\<lambda>_. book_step gw w) w"
    using inner [OF peer_status_drops(1)] inner [OF peer_status_drops(2)]
    by (simp_all add: h_AdminDisconnectPeer_def h_AdminRevokePeer_def bad_request_def wp_respond book_step_same)
qed

lemma handler_step:
  assumes I: "leases_ok gw w"
  shows "wp (call_handler S rq ps h cx) (\<lambda>_. book_step gw w) w"
proof (cases "h \<in> set lease_handlers")
  case True
  then show ?thesis
    using user_lease_handlers [OF I] admin_lease_handlers [OF I] by (auto simp add: lease_handlers_def)
next
  case False
  from keeps_wp [OF handler_view [OF this]] show ?thesis by (rule wp_mono) (rule book_step_same)
qed

lemma serve_step:
  assumes I: "leases_ok gw w"
  shows "wp (serve S rq) (\<lambda>_. book_step gw w) w"
proof -
  let ?P = "\<lambda>v. leases_ok gw v \<and> lease_view v = lease_view w"
  have "?P v'" if "?P v" "stutters v v'" for v v'
    using leases_ok_stutters [of gw v v'] lease_view_stutters [OF that(2)] that by simp
  moreover have "?P (v\<lparr>limits := l\<rparr>)" if "?P v" for v l
    using that by (simp add: leases_ok_def)
  ultimately have calm: "calm ?P" unfolding calm_def by blast
  have chain: "wp (run_chain S rq gs (call_handler S rq ps h) cx) (\<lambda>_. book_step gw w) w" for gs ps h cx
  proof (rule chain_wp [OF calm])
    fix cx v
    assume v: "?P v"
    with handler_step [of gw v S rq ps h cx]
    show "wp (call_handler S rq ps h cx) (\<lambda>_. book_step gw w) v"
      by (auto simp add: book_step_def lease_view_def elim!: wp_mono)
  qed (use I in \<open>auto intro: book_step_same\<close>)
  show ?thesis
    by (auto simp add: serve_def corsMiddleware_def NoRoute_def TrailingSlash_def wp_respond book_step_same chain
        split: option.splits prod.splits)
qed

text \<open>Reconciliation changes no lease.\<close>

lemma UpdateLastSeen_view: "keeps lease_view (peers_UpdateLastSeen i t)"
proof (rule keepsI)
  fix w :: world
  have "book (update_rows P (\<lambda>p. p\<lparr>p_last_seen := s, p_updated_at := u\<rparr>) ps) = book ps" for P s u ps
    by (rule book_update_same) (simp_all add: lease_of_def)
  then show "wp (peers_UpdateLastSeen i t) (\<lambda>_ w'. lease_view w' = lease_view w) w"
    by (auto simp add: peers_UpdateLastSeen_def wp_rules lease_view_def)
qed

lemma reconcile_db_view: "keeps lease_view (reconcile_db L m ps cs)"
proof (induction L m ps cs rule: reconcile_db.induct)
  case (2 L m p ps changes)
  then show ?case by (auto intro!: frame_rules UpdateLastSeen_view split: option.splits)
qed (simp add: keeps_ret)

lemma Reserve_view: "keeps lease_view (on_pool (Reserve t ip))"
proof (rule keepsI)
  fix w :: world
  obtain r i where "Reserve t ip (pool w) = (r, i)" by force
  with Reserve_subnet [of t ip "pool w"]
  show "wp (on_pool (Reserve t ip)) (\<lambda>_ w'. lease_view w' = lease_view w) w"
    by (simp add: wp_on_pool) (simp add: wp_def lease_view_def)
qed

lemma Reconcile_view: "keeps lease_view (Reconcile L)"
  unfolding Reconcile_def Let_def
  by (intro frame_rules reconcile_db_view Reserve_view lease_view_readonly readonly_peers_ListActive readonly_Device
      lease_view_frames)

end
