(* ===== verification/ServerMain.thy ===== *)
theory ServerMain
  imports IPAM
begin

text \<open>
  \<open>cmd/scnet-server/main.go\<close>: how the server finds its own tunnel address, its pool of addresses
  and the endpoint it publishes, and how it sets up the interface. What the \<open>ip\<close> command does, and
  what the punch proxy returns at its start, are arguments.
\<close>

section \<open>The server's address\<close>

definition firstUsableIPv4 :: "ipnet \<Rightarrow> goip option" where
  "firstUsableIPv4 n =
     (case To4 (net_ip n) of
        None \<Rightarrow> None
      | Some networkNum \<Rightarrow>
          let hostBits = int (mask_bits n) - int (mask_ones n)
          in if hostBits < 2 then None else Some (IP4 (networkNum + 1)))"

text \<open>The value that is parsed: the configured one, or the first address with the subnet's prefix.\<close>

definition address_value :: "ip6_text \<Rightarrow> ipnet \<Rightarrow> string \<Rightarrow> goerr + string" where
  "address_value t n configured =
     (let value = TrimSpace configured in
      if value = '''' then
        (case firstUsableIPv4 n of
           None \<Rightarrow> Inl (ErrorString ''no usable server address'')
         | Some ip \<Rightarrow> Inr (ip_string t ip @ ''/'' @ decimal (mask_ones n)))
      else Inr value)"

definition parse_address :: "ip6_text \<Rightarrow> ipnet \<Rightarrow> string \<Rightarrow> goerr + (goip \<times> string)" where
  "parse_address t n value =
     (case ParseCIDR t value of
        Some (ip, _) \<Rightarrow> Inr (ip, value)
      | None \<Rightarrow>
          (case ParseIP t value of
             Some (IP4 w) \<Rightarrow> Inr (IP4 w, ip_string t (IP4 w) @ ''/'' @ decimal (mask_ones n))
           | _ \<Rightarrow> Inl (Wrapped ''parse wireguard address'' ErrCIDR)))"

definition resolveWireGuardAddress :: "ip6_text \<Rightarrow> string \<Rightarrow> string \<Rightarrow> goerr + (string \<times> string)" where
  "resolveWireGuardAddress t subnetCIDR configuredAddress =
     (case ParseCIDR t subnetCIDR of
        None \<Rightarrow> Inl (Wrapped ''parse wireguard subnet'' ErrCIDR)
      | Some (_, n) \<Rightarrow>
          if mask_bits n \<noteq> 32 then Inl (ErrorString ''wireguard subnet must be IPv4'')
          else
            (case address_value t n configuredAddress of
               Inl e \<Rightarrow> Inl e
             | Inr value \<Rightarrow>
                 (case parse_address t n value of
                    Inl e \<Rightarrow> Inl e
                  | Inr (ip, value') \<Rightarrow>
                      (case To4 ip of
                         None \<Rightarrow> Inl (ErrorString ''wireguard address must be IPv4'')
                       | Some ip4 \<Rightarrow>
                           if \<not> net_contains n (IP4 ip4) then Inl (ErrorString ''wireguard address is outside subnet'')
                           else if ParseCIDR t value' = None then Inl (Wrapped ''must include a valid prefix'' ErrCIDR)
                           else Inr (value', ip4_string ip4)))))"

text \<open>The pool the server starts with: the steps of \<open>main\<close> up to the reservation.\<close>

definition init_pool :: "ip6_text \<Rightarrow> string \<Rightarrow> string \<Rightarrow> goerr + (ipam \<times> string \<times> string)" where
  "init_pool t subnetCIDR address =
     (case NewIPAM t subnetCIDR of
        Inl e \<Rightarrow> Inl e
      | Inr i \<Rightarrow>
          (case resolveWireGuardAddress t subnetCIDR address of
             Inl e \<Rightarrow> Inl e
           | Inr (wgAddress, wgHostIP) \<Rightarrow>
               (case Reserve t wgHostIP i of
                  (Inl e, _) \<Rightarrow> Inl e
                | (Inr _, i') \<Rightarrow> Inr (i', wgAddress, wgHostIP))))"

section \<open>The endpoint\<close>

record endpoint_config =
  ec_wg_endpoint :: string
  ec_punch_enabled :: bool
  ec_punch_wg_port :: int
  ec_listen_port :: int
  ec_discovery_enabled :: bool

text \<open>\<open>punch p\<close> is what \<open>punch.Start\<close> returns for the WireGuard port \<open>p\<close>.\<close>

definition resolveWireGuardEndpoint ::
  "(int \<Rightarrow> goerr + string) \<Rightarrow> endpoint_config \<Rightarrow> goerr + (string \<times> string)" where
  "resolveWireGuardEndpoint punch cfg =
     (if TrimSpace (ec_wg_endpoint cfg) \<noteq> '''' then Inr (TrimSpace (ec_wg_endpoint cfg), ''manual'')
      else if ec_punch_enabled cfg then
        (let wgPort = (if ec_punch_wg_port cfg \<le> 0 then ec_listen_port cfg else ec_punch_wg_port cfg) in
         case punch wgPort of Inl e \<Rightarrow> Inl e | Inr endpoint \<Rightarrow> Inr (endpoint, ''punch''))
      else Inr (''localhost:'' @ Itoa (ec_listen_port cfg), ''fallback''))"

text \<open>\<open>main\<close> gives up when discovery is on and only the fallback endpoint is there to publish.\<close>

definition published_endpoint :: "(int \<Rightarrow> goerr + string) \<Rightarrow> endpoint_config \<Rightarrow> goerr + string" where
  "published_endpoint punch cfg =
     (case resolveWireGuardEndpoint punch cfg of
        Inl e \<Rightarrow> Inl e
      | Inr (endpoint, source) \<Rightarrow>
          if ec_discovery_enabled cfg \<and> source = ''fallback''
          then Inl (ErrorString ''discovery enabled but no publishable WireGuard endpoint is configured'')
          else Inr endpoint)"

section \<open>The interface\<close>

text \<open>
  \<open>ip args\<close> is what the command does to the host: nothing to report, or the error of the process
  and its output. The error of \<open>runIPCommand\<close> is its text.
\<close>

definition runIPCommand ::
  "(string list \<Rightarrow> ('h, string \<times> string, unit) op) \<Rightarrow> string list \<Rightarrow> ('h, string, unit) op" where
  "runIPCommand ip args =
     caseE (ip args)
       (\<lambda>(err, output). fail (''ip '' @ Join args '' '' @ '': '' @ err @ '': '' @ TrimSpace output)) ret"

definition ensureWireGuardInterface ::
  "goerr option \<Rightarrow> (string list \<Rightarrow> ('h, string \<times> string, unit) op) \<Rightarrow> string \<Rightarrow> string \<Rightarrow> ('h, goerr, unit) op" where
  "ensureWireGuardInterface lookPath ip iface address =
     (if TrimSpace iface = '''' then fail (ErrorString ''wireguard interface is required'')
      else if TrimSpace address = '''' then fail (ErrorString ''wireguard interface address is required'')
      else
        case lookPath of
          Some e \<Rightarrow> fail (Wrapped ''find ip command'' e)
        | None \<Rightarrow>
            (let set_up =
               caseE (runIPCommand ip [''addr'', ''replace'', address, ''dev'', iface])
                 (\<lambda>e. fail (Wrapped ''set wireguard interface address'' (ErrorString e))) (\<lambda>_.
               caseE (runIPCommand ip [''link'', ''set'', ''up'', ''dev'', iface])
                 (\<lambda>e. fail (Wrapped ''bring wireguard interface up'' (ErrorString e))) ret)
             in
               caseE (runIPCommand ip [''link'', ''add'', ''dev'', iface, ''type'', ''wireguard''])
                 (\<lambda>e. if \<not> Contains e ''File exists''
                      then fail (Wrapped ''create wireguard interface'' (ErrorString e)) else set_up)
                 (\<lambda>_. set_up)))"

section \<open>The pool at the start\<close>

lemma ParseCIDR_net4: "ParseCIDR t s = Some (ip, n) \<Longrightarrow> mask_bits n = 32 \<Longrightarrow> net4 n"
  by (auto simp add: ParseCIDR_def net4_def and.assoc split: list.splits option.splits sum.splits if_splits)

lemma net4_contains: "net4 n \<Longrightarrow> net_contains n (IP4 b) \<Longrightarrow> net_ip n = IP4 (b AND mask4 (mask_ones n))"
  by (auto simp add: net4_def net_contains_def net_mask4_def)

lemma firstUsableIPv4_host:
  assumes "net4 n" "firstUsableIPv4 n = Some ip"
  shows "\<exists>w. ip = IP4 w \<and> ip4_string w \<in> host_ips n \<and> net_contains n ip"
proof -
  from assms obtain a where a: "net_ip n = IP4 a" "a AND mask4 (mask_ones n) = a" "mask_ones n \<le> 30" "ip = IP4 (a + 1)"
    by (auto simp add: net4_def firstUsableIPv4_def To4_def Let_def split: if_splits)
  have "(2::nat) ^ 2 \<le> 2 ^ (32 - mask_ones n)" using a(3) by (intro power_increasing) auto
  then have "1 < (2::nat) ^ (32 - mask_ones n) - 1" by simp
  then have "a + of_nat 1 \<in> host_words n"
    using host_words_offset [OF assms(1) a(1)] by (auto intro!: exI [of _ 1])
  then have h: "a + 1 \<in> host_words n" by simp
  then have "(a + 1) AND mask4 (mask_ones n) = a" using a(1) by (simp add: host_words_def)
  with a assms(1) have "net_contains n ip" by (simp add: net_contains_def net_mask4_def net4_def)
  with h a(4) show ?thesis by (auto simp add: host_ips_def)
qed

text \<open>An IPv4 address with a prefix, printed and parsed again.\<close>

lemma slash_not_in_ip4_string: "CHR ''/'' \<notin> set (ip4_string w)"
proof -
  have "CHR ''/'' \<notin> set (decimal n)" for n
    by (rule decimal_no_char) (simp add: is_digit_char_def ascii_digit_def)
  then show ?thesis by (simp add: ip4_string_def)
qed

lemma parse_addr_ip4_string: "parse_addr t (ip4_string w) = Some (Inl w)"
proof -
  have "ParseIP t (ip4_string w) = Some (IP4 w)" by simp
  then have "parse_addr t (ip4_string w) \<noteq> None" by (auto simp add: ParseIP_def)
  moreover have "find (\<lambda>c. c = CHR ''.'' \<or> c = CHR '':'' \<or> c = CHR ''%'') (ip4_string w) = Some CHR ''.''"
  proof -
    have "\<not> (c = CHR ''.'' \<or> c = CHR '':'' \<or> c = CHR ''%'')" if "c \<in> set (decimal n)" for c n
      using decimal_digits [of n] that by (auto simp add: list_all_iff is_digit_char_def ascii_digit_def)
    then show ?thesis by (simp add: ip4_string_def find_first)
  qed
  ultimately show ?thesis by (simp add: parse_addr_def parse_ip4_string)
qed

lemma ParseCIDR_printed:
  assumes "n \<le> 32"
  shows "ParseCIDR t (ip4_string w @ ''/'' @ decimal n) =
     Some (IP4 w, \<lparr>net_ip = IP4 (w AND mask4 n), mask_ones = n, mask_bits = 32\<rparr>)"
proof -
  have "takeWhile (\<lambda>x. x \<noteq> CHR ''/'') (ip4_string w @ CHR ''/'' # decimal n) = ip4_string w"
    "dropWhile (\<lambda>x. x \<noteq> CHR ''/'') (ip4_string w @ CHR ''/'' # decimal n) = CHR ''/'' # decimal n"
    using slash_not_in_ip4_string by (simp_all add: takeWhile_append dropWhile_append) (metis+)?
  then have "SplitN2 CHR ''/'' (ip4_string w @ ''/'' @ decimal n) = [ip4_string w, decimal n]" by simp
  moreover have "dtoi (decimal n) = Some n" using assms decimal_digits [of n] by (simp add: dtoi_def)
  ultimately show ?thesis using assms by (simp add: ParseCIDR_def parse_addr_ip4_string)
qed

lemma resolve_blank:
  assumes n: "ParseCIDR t cidr = Some (ip0, n)" "mask_bits n = 32" and blank: "TrimSpace addr = ''''"
    and r: "resolveWireGuardAddress t cidr addr = Inr (value, host)"
  shows "host \<in> host_ips n"
proof -
  have n4: "net4 n" using ParseCIDR_net4 [OF n] .
  from r n blank obtain ip where ip: "firstUsableIPv4 n = Some ip"
    by (auto simp add: resolveWireGuardAddress_def address_value_def split: option.splits)
  from firstUsableIPv4_host [OF n4 ip] obtain w where w: "ip = IP4 w" "ip4_string w \<in> host_ips n" by blast
  have m: "mask_ones n \<le> 32" using n4 by (simp add: net4_def)
  from r n blank ip w(1) have "host = ip4_string w"
    using ParseCIDR_printed [OF m, of t w]
    by (auto simp add: resolveWireGuardAddress_def address_value_def parse_address_def ip_string_def To4_def
        split: if_splits)
  with w(2) show ?thesis by simp
qed

lemma startup_pool_eq: "init_pool t cidr addr = Inr (i, wgAddress, host) \<Longrightarrow> used i = {host}"
  by (auto simp add: init_pool_def NewIPAM_def resolveWireGuardAddress_def Reserve_def ip_string_def
      split: option.splits sum.splits prod.splits if_splits)

text \<open>
  C18: a server that gets past its start has an IPv4 pool in which exactly its own tunnel address
  is taken. That address lies in the subnet, the interface gets it with a valid prefix, and no
  client is ever given it by the next allocation; without a configured address it is a host
  address of the subnet (never the network's or the broadcast address).
\<close>

theorem startup_pool:
  assumes run: "init_pool t cidr addr = Inr (i, wgAddress, host)"
  shows "net4 (subnet i) \<and> used i = {host} \<and> (\<exists>w. host = ip4_string w \<and> net_contains (subnet i) (IP4 w)) \<and>
     ParseCIDR t wgAddress \<noteq> None \<and> (\<forall>a i'. Allocate i = (Inr a, i') \<longrightarrow> a \<noteq> host) \<and>
     (TrimSpace addr = '''' \<longrightarrow> host \<in> host_ips (subnet i))"
proof -
  from run obtain ip0 n where n: "ParseCIDR t cidr = Some (ip0, n)"
    and res: "resolveWireGuardAddress t cidr addr = Inr (wgAddress, host)"
    and rsv: "Reserve t host \<lparr>subnet = n, used = {}\<rparr> = (Inr (), i)"
    by (auto simp add: init_pool_def NewIPAM_def split: option.splits sum.splits prod.splits)
  from res n have bits: "mask_bits n = 32" by (auto simp add: resolveWireGuardAddress_def split: if_splits)
  from res n obtain w where w: "host = ip4_string w" "net_contains n (IP4 w)" "ParseCIDR t wgAddress \<noteq> None"
    by (auto simp add: resolveWireGuardAddress_def split: if_splits sum.splits option.splits prod.splits)
  from rsv w(1,2) have i: "i = \<lparr>subnet = n, used = {host}\<rparr>"
    by (auto simp add: Reserve_def ip_string_def split: if_splits)
  have n4: "net4 n" using ParseCIDR_net4 [OF n bits] .
  have "a \<noteq> host" if "Allocate i = (Inr a, i')" for a i'
    using Allocate_Inr [of i a i'] n4 that i by auto
  moreover have "host \<in> host_ips n" if "TrimSpace addr = ''''" using resolve_blank [OF n bits that res] .
  ultimately show ?thesis using n4 w i by auto
qed

definition no_ip6 :: ip6_text where
  "no_ip6 = \<lparr>parse_ipv6 = (\<lambda>_. None), ipv6_string = (\<lambda>_. [])\<rparr>"

theorem startup_pool_witness:
  "\<exists>i a. init_pool no_ip6 ''10.100.0.9/24'' '''' = Inr (i, a, ''10.100.0.1'') \<and> used i = {''10.100.0.1''} \<and>
     ''10.100.0.1'' \<in> host_ips (subnet i)"
proof -
  have "case init_pool no_ip6 ''10.100.0.9/24'' '''' of Inr (_, _, host) \<Rightarrow> host = ''10.100.0.1'' | _ \<Rightarrow> False"
    by code_simp
  then obtain i a where run: "init_pool no_ip6 ''10.100.0.9/24'' '''' = Inr (i, a, ''10.100.0.1'')"
    by (auto split: sum.splits prod.splits)
  have "TrimSpace '''' = ''''" by code_simp
  with startup_pool [OF run] run show ?thesis by blast
qed

end
