(* ===== verification/Transitions.thy ===== *)
theory Transitions
  imports Main
begin

text \<open>
  Transition systems: the contract of an invariant and the contract of a refinement, as locales.
  The server and the UDP proxy are interpreted as such systems.
\<close>

section \<open>Invariants of transition systems\<close>

locale invariant_system =
  fixes init :: "'s \<Rightarrow> bool" and step :: "'s \<Rightarrow> 's \<Rightarrow> bool" and inv :: "'s \<Rightarrow> bool"
  assumes init_inv: "init s \<Longrightarrow> inv s"
    and step_inv: "step s t \<Longrightarrow> inv s \<Longrightarrow> inv t"
begin

lemma run_inv: "step\<^sup>*\<^sup>* s t \<Longrightarrow> inv s \<Longrightarrow> inv t"
  by (induction rule: rtranclp_induct) (auto intro: step_inv)

lemma reachable_inv: "init s \<Longrightarrow> step\<^sup>*\<^sup>* s t \<Longrightarrow> inv t"
  using init_inv run_inv by blast

end

text \<open>A system each of whose steps does, seen through \<open>abs\<close>, at most one step of another one.\<close>

locale refined_system = invariant_system +
  fixes abs :: "'s \<Rightarrow> 'a" and ainit :: "'a \<Rightarrow> bool" and astep :: "'a \<Rightarrow> 'a \<Rightarrow> bool"
  assumes init_simulated: "init s \<Longrightarrow> ainit (abs s)"
    and simulated: "inv s \<Longrightarrow> step s t \<Longrightarrow> abs t = abs s \<or> astep (abs s) (abs t)"
begin

lemma run_simulated: "step\<^sup>*\<^sup>* s t \<Longrightarrow> inv s \<Longrightarrow> astep\<^sup>*\<^sup>* (abs s) (abs t)"
proof (induction rule: rtranclp_induct)
  case (step t u)
  have "inv t" using step.hyps(1) step.prems by (rule run_inv)
  from simulated [OF this step.hyps(2)] step.IH [OF step.prems] show ?case
    by (metis rtranclp.rtrancl_into_rtrancl)
qed simp

lemma reachable_simulated: "init s \<Longrightarrow> step\<^sup>*\<^sup>* s t \<Longrightarrow> ainit (abs s) \<and> astep\<^sup>*\<^sup>* (abs s) (abs t)"
  using init_inv run_simulated init_simulated by blast

text \<open>Invariants of the abstract system hold of what is seen of the concrete one.\<close>

lemma abstract_invariant:
  assumes "invariant_system ainit astep J" "init s" "step\<^sup>*\<^sup>* s t"
  shows "J (abs t)"
  using reachable_simulated [OF assms(2,3)] invariant_system.reachable_inv [OF assms(1)] by blast

end

end
