(* ===== verification/System.thy ===== *)
theory System
  imports LeaseBook ServerMain Transitions
begin

text \<open>
  The running server as a transition system: it starts with empty tables and a pool that holds
  its own address, and then serves requests one after the other, reconciles on its timer, and
  lets time pass, while the kernel changes the WireGuard device and the punch proxy the published
  endpoint on their own. It is
  interpreted as a transition system with an invariant and as a refinement of the lease book.
\<close>

section \<open>The steps of the server\<close>

inductive server_step :: "server \<Rightarrow> world \<Rightarrow> world \<Rightarrow> bool" for S where
  request: "serve S rq w = (r, w') \<Longrightarrow> server_step S w w'"
| timer: "Reconcile (srv_libs S) w = (r, w') \<Longrightarrow> server_step S w w'"
| idle: "clock w \<le> t \<Longrightarrow> server_step S w (w\<lparr>clock := t\<rparr>)"
| kernel: "server_step S w (w\<lparr>device := d\<rparr>)"
| republish: "server_step S w (w\<lparr>endpoint := ep\<rparr>)"

text \<open>A first start: \<open>main\<close> found the pool and its address, the database is empty.\<close>

definition started :: "server \<Rightarrow> string \<Rightarrow> world \<Rightarrow> bool" where
  "started S gw w \<longleftrightarrow> users w = [] \<and> invites w = [] \<and> peers w = [] \<and>
     (\<exists>cidr addr wgAddress. init_pool (ip6 (srv_libs S)) cidr addr = Inr (pool w, wgAddress, gw))"

definition reachable :: "server \<Rightarrow> string \<Rightarrow> world \<Rightarrow> bool" where
  "reachable S gw w \<longleftrightarrow> (\<exists>w0. started S gw w0 \<and> (server_step S)\<^sup>*\<^sup>* w0 w)"

lemma init_pool_ok:
  assumes "init_pool t cidr addr = Inr (i, wgAddress, gw)"
  shows "net4 (subnet i)" "gw \<in> used i"
proof -
  from assms obtain ip0 n where n: "ParseCIDR t cidr = Some (ip0, n)"
    and res: "resolveWireGuardAddress t cidr addr = Inr (wgAddress, gw)"
    and rsv: "Reserve t gw \<lparr>subnet = n, used = {}\<rparr> = (Inr (), i)"
    by (auto simp add: init_pool_def NewIPAM_def split: option.splits sum.splits prod.splits)
  from res n have "mask_bits n = 32" by (auto simp add: resolveWireGuardAddress_def split: if_splits)
  from ParseCIDR_net4 [OF n this] rsv show "net4 (subnet i)" by (auto simp add: Reserve_def split: option.splits if_splits)
  from res n obtain w where "gw = ip4_string w"
    by (auto simp add: resolveWireGuardAddress_def split: if_splits sum.splits option.splits prod.splits)
  with rsv show "gw \<in> used i" by (auto simp add: Reserve_def ip_string_def split: if_splits)
qed

lemma started_inv: "started S gw w \<Longrightarrow> sys_inv gw w"
  using init_pool_ok
  by (auto simp add: started_def sys_inv_def leases_ok_def lease_rows_def invites_ok_def tables_ok_def users_wf_def
      invites_wf_def peers_wf_def)

lemma step_inv: "server_step S w w' \<Longrightarrow> sys_inv gw w \<Longrightarrow> sys_inv gw w'"
proof (induction rule: server_step.induct)
  case (request rq w r w')
  then show ?case using preservesD [OF sys.served] by (metis snd_conv)
next
  case (timer w r w')
  then show ?case using preservesD [OF sys_inv_manager(4)] by (metis snd_conv)
next
  case (idle w t)
  then show ?case using sys_inv_cong [of "w\<lparr>clock := t\<rparr>" w gw] by simp
next
  case (kernel w d)
  then show ?case using sys_inv_cong [of "w\<lparr>device := d\<rparr>" w gw] by simp
next
  case (republish w ep)
  then show ?case using sys_inv_cong [of "w\<lparr>endpoint := ep\<rparr>" w gw] by simp
qed

interpretation srv: invariant_system "started S gw" "server_step S" "sys_inv gw" for S gw
  by unfold_locales (auto intro: started_inv step_inv)

lemma reachable_sys_inv: "reachable S gw w \<Longrightarrow> sys_inv gw w"
  using srv.reachable_inv by (auto simp add: reachable_def)


section \<open>The server keeps a book of leases\<close>

lemma started_book: "started S gw w \<Longrightarrow> book (peers w) = {}"
  by (auto simp add: started_def book_def)

interpretation book: refined_system "\<lambda>w. started S gw w \<and> subnet (pool w) = n" "server_step S"
  "\<lambda>w. sys_inv gw w \<and> subnet (pool w) = n" "\<lambda>w. book (peers w)" "\<lambda>B. B = {}" "lease_step n gw" for S gw n
proof
  fix w w' assume I: "sys_inv gw w \<and> subnet (pool w) = n" and st: "server_step S w w'"
  have "book_step gw w w'"
    using st
  proof cases
    case (request rq r)
    have "leases_ok gw w" using I by (simp add: sys_inv_def)
    from wp_I [OF serve_step [OF this] request] show ?thesis .
  next
    case (timer r)
    from keepsD [OF Reconcile_view this] show ?thesis by (rule book_step_same)
  qed (simp_all add: book_step_same lease_view_def)
  with I st show "book (peers w') = book (peers w) \<or> lease_step n gw (book (peers w)) (book (peers w'))"
    and "sys_inv gw w' \<and> subnet (pool w') = n"
    using step_inv by (auto simp add: book_step_def)
next
  fix w assume "started S gw w \<and> subnet (pool w) = n"
  then show "sys_inv gw w \<and> subnet (pool w) = n" "book (peers w) = {}"
    using started_inv started_book by blast+
qed

interpretation lease_machine: invariant_system "\<lambda>B. B = {}" "lease_step n gw" "book_ok n gw" for n gw
  by (unfold_locales, simp add: book_ok_def, rule book_ok_step)



text \<open>The reference server from its first start: a registration, then that user's first peer.\<close>

definition ref_start :: world where
  "ref_start = ref_world\<lparr>users := []\<rparr>"

definition ref_register :: request where
  "ref_register = \<lparr>rq_method = ''POST'', rq_path = ''/api/v1/auth/register'', rq_auth = '''', rq_query = Map.empty,
     rq_body = \<lparr>bd_fields = Some [''student_id'' \<mapsto> JStr ''2024001'', ''password'' \<mapsto> JStr ''Password1234''],
       bd_trailing = False\<rparr>, rq_ip = ''10.0.0.1''\<rparr>"

definition ref_first_peer :: request where
  "ref_first_peer = ref_key_request
     \<lparr>rq_auth := ''Bearer 6:secret3:1022:+011:+50000000007:20240014:user''\<rparr>"

lemma ref_init_pool:
  obtains a where "init_pool (ip6 ref_libs) ''10.8.0.0/29'' [] = Inr (ref_pool, a, ''10.8.0.1'')"
proof -
  have "case init_pool (ip6 ref_libs) ''10.8.0.0/29'' [] of
      Inr (i, a, host) \<Rightarrow> subnet i = subnet ref_pool \<and> used i = used ref_pool \<and> host = ''10.8.0.1'' | _ \<Rightarrow> False"
    by code_simp
  then obtain i a where run: "init_pool (ip6 ref_libs) ''10.8.0.0/29'' [] = Inr (i, a, ''10.8.0.1'')"
    and eq: "subnet i = subnet ref_pool" "used i = used ref_pool" by (auto split: sum.splits prod.splits)
  from eq have "i = ref_pool" by (cases i) (simp add: ref_pool_def)
  with run that show thesis by blast
qed

lemma ref_started: "started ref_server ''10.8.0.1'' ref_start"
proof -
  obtain a where "init_pool (ip6 ref_libs) ''10.8.0.0/29'' [] = Inr (ref_pool, a, ''10.8.0.1'')"
    using ref_init_pool .
  then show ?thesis by (auto simp add: started_def ref_start_def ref_server_def ref_world_def)
qed

text \<open>Two requests later there is an active peer.\<close>

lemma ref_two_requests:
  obtains w p where "(server_step ref_server)\<^sup>*\<^sup>* ref_start w" "peers w = [p]" "p_status p = ''active''"
proof -
  obtain r1 w1 where r1: "serve ref_server ref_register ref_start = (r1, w1)" by force
  obtain r2 w2 where r2: "serve ref_server ref_first_peer w1 = (r2, w2)" by force
  have "case serve ref_server ref_first_peer (snd (serve ref_server ref_register ref_start)) of (_, w) \<Rightarrow>
      map p_status (peers w) = [''active'']"
    by code_simp
  with r1 r2 obtain p where p: "peers w2 = [p]" "p_status p = ''active''" by (auto simp add: map_eq_Cons_conv)
  have "(server_step ref_server)\<^sup>*\<^sup>* ref_start w2"
    using r1 r2 by (meson rtranclp.rtrancl_into_rtrancl rtranclp.rtrancl_refl server_step.request)
  with p that show thesis by blast
qed




end
