(* ===== verification/Restart.thy ===== *)
theory Restart
  imports System
begin

text \<open>
  A restart of the server process: the tables and the device outlive it, the allocator and the
  rate limits do not. The first reconciliation fills the allocator again from the table; it runs
  beside the server (\<open>go reconciliationLoop\<close>), so a request may come first.
\<close>

definition restart :: "ipam \<Rightarrow> world \<Rightarrow> world" where
  "restart i w = w\<lparr>pool := i, limits := Map.empty\<rparr>"

lemma restart_peers [simp]: "peers (restart i w) = peers w"
  by (simp add: restart_def)

text \<open>The reservations of the first reconciliation.\<close>

lemma forE_Reserve:
  assumes "net4 n" "\<forall>p \<in> set ps. p_assigned_ip p \<in> host_ips n" "subnet (pool w) = n"
  shows "forE (\<lambda>p. on_pool (Reserve t (p_assigned_ip p))) ps w =
     (Inr (), w\<lparr>pool := (pool w)\<lparr>used := used (pool w) \<union> p_assigned_ip ` set ps\<rparr>\<rparr>)"
  using assms(2,3)
proof (induction ps arbitrary: w)
  case Nil
  then show ?case by (simp add: ret_def)
next
  case (Cons p ps)
  let ?w = "w\<lparr>pool := (pool w)\<lparr>used := insert (p_assigned_ip p) (used (pool w))\<rparr>\<rparr>"
  have "Reserve t (p_assigned_ip p) (pool w) = (Inr (), (pool w)\<lparr>used := insert (p_assigned_ip p) (used (pool w))\<rparr>)"
    using assms(1) Cons.prems by (intro Reserve_host) auto
  then have "on_pool (Reserve t (p_assigned_ip p)) w = (Inr (), ?w)" by (simp add: on_pool_def)
  moreover have "forE (\<lambda>p. on_pool (Reserve t (p_assigned_ip p))) ps ?w =
      (Inr (), ?w\<lparr>pool := (pool ?w)\<lparr>used := used (pool ?w) \<union> p_assigned_ip ` set ps\<rparr>\<rparr>)"
    by (rule Cons.IH) (use Cons.prems in simp_all)
  ultimately show ?case by (simp add: tryE_def caseE_def)
qed

lemma leases_ok_reserved:
  assumes lr: "lease_rows gw i ps" and wf: "peers_wf ps" and n: "net4 n" "subnet i = n" "gw \<in> u"
    and u: "\<forall>p \<in> set ps. p_status p = ''active'' \<longrightarrow> p_assigned_ip p \<in> u"
    and w: "peers w = ps" "pool w = \<lparr>subnet = n, used = u\<rparr>"
  shows "leases_ok gw w"
proof -
  have "lease_rows gw (pool w) ps"
  proof (rule lease_rowsI)
    fix p
    assume p: "p \<in> set ps" "p_status p = ''active''"
    from lease_rowsD(2,3) [OF lr p] u p w(2) n(2)
    show "p_assigned_ip p \<in> used (pool w) \<and> p_assigned_ip p \<in> host_ips (subnet (pool w)) \<and> p_assigned_ip p \<noteq> gw"
      by simp
  qed (rule lease_rows_unique [OF lr])
  with wf n(1,3) w show ?thesis by (simp add: leases_ok_def)
qed

text \<open>What follows the reservations touches the allocator no more.\<close>

definition reconcile_rest :: "libs \<Rightarrow> peer list \<Rightarrow> unit wop" where
  "reconcile_rest L activePeers =
     tryE Device (\<lambda>dev.
     tryE (reconcile_db L (wgPeersByKey L dev) activePeers []) (\<lambda>changes.
     tryE (gets ncalls) (\<lambda>moment.
     let keys = map_order L moment (remdups (map (\<lambda>p. key_string L (wp_key p)) (dev_peers dev)));
         changes' = changes @ reconcile_removals (wgPeersByKey L dev) (p_public_key ` set activePeers) keys
     in if changes' = [] then ret () else ConfigureDevice L (peers_config changes'))))"

lemma Reconcile_split:
  "Reconcile L = tryE peers_ListActive (\<lambda>ps.
     tryE (forE (\<lambda>p. on_pool (Reserve (ip6 L) (p_assigned_ip p))) ps) (\<lambda>_. reconcile_rest L ps))"
  by (simp add: Reconcile_def reconcile_rest_def)

lemma reconcile_rest_keeps:
  "preserves (leases_ok gw) (reconcile_rest L ps)" "keeps pool (reconcile_rest L ps)"
proof -
  show "preserves (leases_ok gw) (reconcile_rest L ps)"
    unfolding reconcile_rest_def Let_def
    by (intro preserves_intros reconcile_db_leases ConfigureDevice_leases leases_ok_readonly [OF readonly_Device])
  have pool: "keeps pool m" if "readonly m" for m :: "'a wop"
    using that by (rule keeps_readonly [rotated]) (simp add: stutters_same)
  have "keeps pool (peers_UpdateLastSeen i t)" for i t
    unfolding peers_UpdateLastSeen_def by (intro frame_rules) (simp_all add: tick_def)
  then have "keeps pool (reconcile_db L m rows cs)" for m rows cs
    by (induction L m rows cs rule: reconcile_db.induct) (auto intro!: frame_rules split: option.splits)
  then show "keeps pool (reconcile_rest L ps)"
    unfolding reconcile_rest_def Let_def
    by (intro frame_rules pool [OF readonly_Device]) (simp_all add: tick_def)
qed

text \<open>
  A restarted server that reconciles before anything else is as safe as before. Whatever
  state the old process left, once the first reconciliation has listed the active peers (all of
  them) the invariant of the server holds again, even if its later calls fail: the addresses of
  all active peers are taken in the new allocator, and nothing but them and the server's own.
\<close>

theorem restart_recovers:
  assumes I: "sys_inv gw w" and start: "init_pool t cidr addr = Inr (i, a, gw)" "subnet i = subnet (pool w)"
    and listed: "next_outcome w = Done" and run: "Reconcile L (restart i w) = (r, w')"
  shows "sys_inv gw w' \<and> used (pool w') = insert gw (p_assigned_ip ` {p \<in> set (peers w). p_status p = ''active''})"
proof -
  let ?act = "filter (\<lambda>p. p_status p = ''active'') (peers w)" and ?n = "subnet (pool w)"
  let ?w1 = "(tick (restart i w))\<lparr>pool := i\<lparr>used := used i \<union> p_assigned_ip ` set ?act\<rparr>\<rparr>"
  have lo: "leases_ok gw w" and rest: "invites_ok w" "tables_ok w" using I by (simp_all add: sys_inv_def)
  then have n: "net4 ?n" and wf: "peers_wf (peers w)" and lr: "lease_rows gw (pool w) (peers w)"
    by (simp_all add: leases_ok_def)
  have used: "used i = {gw}" using startup_pool_eq [OF start(1)] .
  have "peers_ListActive (restart i w) = (Inr ?act, tick (restart i w))"
    using listed by (simp add: peers_ListActive_def ext_rows_def restart_def next_outcome_def)
  moreover have "forE (\<lambda>p. on_pool (Reserve (ip6 L) (p_assigned_ip p))) ?act (tick (restart i w)) = (Inr (), ?w1)"
    using forE_Reserve [OF n, of ?act "tick (restart i w)"] lease_rowsD(2) [OF lr] start(2) by (simp add: restart_def)
  ultimately have "reconcile_rest L ?act ?w1 = (r, w')"
    using run by (simp add: Reconcile_split tryE_def caseE_def)
  moreover have "leases_ok gw ?w1"
    using used start(2) by (intro leases_ok_reserved [OF lr wf n, of "used i \<union> p_assigned_ip ` set ?act"]) (auto simp add: restart_def)
  ultimately have "leases_ok gw w'" and pool: "pool w' = pool ?w1"
    using preservesD [OF reconcile_rest_keeps(1)] keepsD [OF reconcile_rest_keeps(2)] by (metis snd_conv)+
  moreover have "tables_ok (restart i w)" "invites_ok (restart i w)"
    using rest by (simp_all add: restart_def tables_ok_def invites_ok_def)
  then have "tables_ok w'" "invites_ok w'"
    using run preservesD [OF Reconcile_tables] preservesD [OF invites_ok_keeps_side [OF Reconcile_user_side]]
    by (metis snd_conv)+
  ultimately show ?thesis using used by (simp add: sys_inv_def)
qed

text \<open>The administrator's peer of the reference server survives a restart.\<close>

lemma ref_world1_inv: "sys_inv ''10.8.0.1'' ref_world1"
proof -
  have "''10.8.0.2'' = ip4_string 0x0A080002" by code_simp
  moreover have "(0x0A080002 :: 32 word) \<in> host_words (subnet ref_pool)"
    by (simp add: host_words_def ref_pool_def) code_simp
  ultimately have "''10.8.0.2'' \<in> host_ips (subnet ref_pool)" unfolding host_ips_def by blast
  then show ?thesis
    using ref_sys_inv
    by (simp add: sys_inv_def leases_ok_def lease_rows_def invites_ok_def tables_ok_def users_wf_def peers_wf_def
        peer_ok_def ValidPeerStatuses_def ref_world1_def ref_world_def ref_peer_def ref_pool_def ref_admin_def)
qed

lemma ref_world1_leases: "p_assigned_ip ` {p \<in> set (peers ref_world1). p_status p = ''active''} = {''10.8.0.2''}"
proof -
  have "filter (\<lambda>p. p_status p = ''active'') (peers ref_world1) = [ref_peer]"
    by (simp add: ref_world1_def ref_peer_def)
  then have "{p \<in> set (peers ref_world1). p_status p = ''active''} = {ref_peer}"
    by (simp flip: set_filter)
  moreover have "p_assigned_ip ref_peer = ''10.8.0.2''" by (simp add: ref_peer_def)
  ultimately show ?thesis by (simp only: image_insert image_empty)
qed

theorem restart_recovers_witness:
  "\<exists>r w'. Reconcile ref_libs (restart ref_pool ref_world1) = (r, w') \<and> sys_inv ''10.8.0.1'' w' \<and>
     used (pool w') = {''10.8.0.1'', ''10.8.0.2''}"
proof -
  obtain a where start: "init_pool (ip6 ref_libs) ''10.8.0.0/29'' [] = Inr (ref_pool, a, ''10.8.0.1'')"
    using ref_init_pool .
  obtain r w' where run: "Reconcile ref_libs (restart ref_pool ref_world1) = (r, w')" by (rule prod.exhaust)
  have sub: "subnet ref_pool = subnet (pool ref_world1)" by (simp add: ref_world1_def ref_pool_def)
  have fine: "next_outcome ref_world1 = Done" using ref_no_faults by (simp add: no_faults_next)
  with ref_world1_leases restart_recovers [OF ref_world1_inv start sub fine run] run show ?thesis by (simp only:) blast
qed

section \<open>A request before the first reconciliation\<close>

lemma AddPeer_register_allocates:
  "wp (AddPeer_register L k uid ex) (\<lambda>r _. \<forall>reg. r = Inr reg \<longrightarrow> fst (Allocate (pool w)) = Inr (r_assigned_ip reg)) w"
  by (simp add: AddPeer_register_def AddPeer_undo_def wp_rules registration_def)
     (simp add: wp_def split: prod.splits)

lemma AddPeer_allocates:
  assumes "AddPeer L userID k w = (Inr reg, w')"
  shows "fst (Allocate (pool w)) = Inr (r_assigned_ip reg)"
proof -
  obtain r v where ad: "AddPeer_admit L userID k w = (r, v)" by force
  then have "pool v = pool w" using stutters_same(4) readonlyD [OF readonly_AddPeer_admit] by blast
  moreover obtain uid ex where "r = Inr (uid, ex)"
    using ad assms by (cases r) (auto simp add: AddPeer_def tryE_def caseE_def fail_def)
  with ad assms have "AddPeer_register L k uid ex v = (Inr reg, w')" by (simp add: AddPeer_def tryE_def caseE_def)
  ultimately show ?thesis using wp_I [OF AddPeer_register_allocates] by metis
qed

text \<open>
  C16: a registration that arrives before the first reconciliation of a restarted server can be
  given the address of another active peer. The new allocator knows the server's own address
  only, so the first registration gets the first free address of the subnet, also when an active
  row of the table has had it since before the restart; both rows are active with it then.
\<close>

theorem restart_address_clash:
  assumes I: "sys_inv gw w" and start: "init_pool t cidr addr = Inr (i, a, gw)" "subnet i = subnet (pool w)"
    and p: "p \<in> set (peers w)" "p_status p = ''active''" and nxt: "fst (Allocate i) = Inr (p_assigned_ip p)"
    and run: "AddPeer L userID k (restart i w) = (Inr reg, w')"
  shows "r_assigned_ip reg = p_assigned_ip p \<and> p \<in> set (peers w') \<and> p_public_key p \<noteq> key_string L k \<and>
     (\<exists>q \<in> set (peers w'). p_public_key q = key_string L k \<and> p_status q = ''active'' \<and> p_assigned_ip q = p_assigned_ip p)"
proof -
  have wf: "peers_wf (peers w)" and n: "net4 (subnet (pool (restart i w)))"
    using I start(2) by (simp_all add: sys_inv_def leases_ok_def restart_def)
  from AddPeer_allocates [OF run] nxt have ip: "r_assigned_ip reg = p_assigned_ip p" by (simp add: restart_def)
  from AddPeer_Inr [OF n run] obtain uid ex b j u where adm: "admitted L userID k (restart i w) uid ex"
    and "peers w' = registered ex uid (key_string L k) b j u (peers (restart i w))" "r_assigned_ip reg = b" .
  with ip have rows: "peers w' = registered ex uid (key_string L k) (p_assigned_ip p) j u (peers w)" by simp
  show ?thesis
  proof (cases ex)
    case None
    with adm have "find (\<lambda>p. p_public_key p = key_string L k) (peers w) = None" by (simp add: admitted_def restart_def)
    with p(1) have "p_public_key p \<noteq> key_string L k" by (auto dest: find_NoneD)
    with None rows ip p show ?thesis by (simp add: registered_def)
  next
    case (Some q)
    with adm have q: "q \<in> set (peers w)" "p_public_key q = key_string L k" "p_status q = ''disconnected''"
      by (auto simp add: admitted_def restart_def dest!: find_SomeD sym [of "Some q"])
    have "set (peers w') = insert (q\<lparr>p_assigned_ip := p_assigned_ip p, p_status := ''active'', p_updated_at := u\<rparr>)
        (set (peers w) - {q})"
      using wf q(1) rows Some by (simp add: registered_def peers_wf_def peers_by_id.update_unique)
    moreover have "p \<noteq> q" using p(2) q(3) by auto
    then have "p_public_key p \<noteq> key_string L k"
      using wf p(1) q(1,2) by (auto simp add: peers_wf_def dest: distinct_map_inj_on)
    ultimately show ?thesis using p q ip \<open>p \<noteq> q\<close> by auto
  qed
qed

text \<open>Another user registers right after the restart and gets the administrator's address.\<close>

definition ref_two_users :: world where
  "ref_two_users = ref_world1\<lparr>users := [ref_admin, ref_admin\<lparr>u_id := 2, u_student_id := ''2024002'', u_role := ''user''\<rparr>]\<rparr>"

theorem restart_address_clash_witness:
  "\<exists>w'. snd (AddPeer ref_libs ''2'' 8 (restart ref_pool ref_two_users)) = w' \<and> ref_peer \<in> set (peers w') \<and>
     (\<exists>q \<in> set (peers w'). p_public_key q = ''8'' \<and> p_status q = ''active'' \<and> p_assigned_ip q = p_assigned_ip ref_peer)"
proof -
  obtain a where start: "init_pool (ip6 ref_libs) ''10.8.0.0/29'' [] = Inr (ref_pool, a, ''10.8.0.1'')"
    using ref_init_pool .
  have I: "sys_inv ''10.8.0.1'' ref_two_users"
    using ref_world1_inv
    by (simp add: ref_two_users_def sys_inv_def leases_ok_def invites_ok_def tables_ok_def users_wf_def
        peer_ok_def user_ok_def ref_world1_def ref_world_def ref_admin_def ref_peer_def ValidRoles_def)
  let ?run = "AddPeer ref_libs ''2'' 8 (restart ref_pool ref_two_users)"
  have "case fst ?run of Inr _ \<Rightarrow> True | _ \<Rightarrow> False" by code_simp
  then obtain reg w' where run: "?run = (Inr reg, w')" by (cases ?run) (auto split: sum.splits)
  have nxt: "fst (Allocate ref_pool) = Inr (p_assigned_ip ref_peer)" by code_simp
  have p: "ref_peer \<in> set (peers ref_two_users)" "p_status ref_peer = ''active''"
    "subnet ref_pool = subnet (pool ref_two_users)"
    by (simp_all add: ref_two_users_def ref_world1_def ref_peer_def ref_pool_def)
  have "key_string ref_libs 8 = ''8''" by code_simp
  with restart_address_clash [OF I start p(3,1,2) nxt run] run show ?thesis by auto
qed

end
