(* ===== verification/Config.thy ===== *)
theory Config
  imports GoStrings Errors
begin

text \<open>
  \<open>config/config.go\<close>: the sections of the configuration, its defaults, the substitution of
  environment variables in the file, the overrides from the environment and the checks of \<open>Load\<close>.
  The environment is a function (\<open>os.Getenv\<close> answers an unset variable with the empty string);
  reading the file and the YAML decoder, a library, are arguments.
\<close>

section \<open>Sections\<close>

record server_section =
  sv_port :: int

record database_section =
  db_host :: string
  db_port :: int
  db_user :: string
  db_password :: string
  db_name :: string
  db_sslmode :: string

record wireguard_section =
  wg_interface :: string
  wg_listen_port :: int
  wg_private_key :: string
  wg_subnet :: string
  wg_address :: string

record punch_section =
  pn_enabled :: bool
  pn_listen_port :: int
  pn_wireguard_host :: string
  pn_wireguard_port :: int
  pn_stun_servers :: "string list"
  pn_probe_timeout :: int
  pn_keepalive_interval :: int

record jwt_section =
  jwt_secret :: string
  jwt_expiry_hours :: int

record invite_section =
  iv_max_uses :: int
  iv_expiry_days :: int

record admin_section =
  ad_student_id :: string
  ad_password :: string

record discovery_section =
  dc_enabled :: bool
  dc_url :: string
  dc_secret :: string
  dc_api_addr :: string
  dc_wg_endpoint :: string

record config =
  c_server :: server_section
  c_database :: database_section
  c_wireguard :: wireguard_section
  c_punch :: punch_section
  c_jwt :: jwt_section
  c_invite :: invite_section
  c_admin :: admin_section
  c_discovery :: discovery_section

definition DSN :: "database_section \<Rightarrow> string" where
  "DSN d = ''host='' @ db_host d @ '' port='' @ Itoa (db_port d) @ '' user='' @ db_user d @
     '' password='' @ db_password d @ '' dbname='' @ db_name d @ '' sslmode='' @ db_sslmode d"

definition DefaultConfig :: config where
  "DefaultConfig =
     \<lparr>c_server = \<lparr>sv_port = 8080\<rparr>,
      c_database = \<lparr>db_host = ''localhost'', db_port = 5432, db_user = ''scnet'', db_password = '''',
        db_name = ''scnet'', db_sslmode = ''disable''\<rparr>,
      c_wireguard = \<lparr>wg_interface = ''wg_scnet'', wg_listen_port = 51820, wg_private_key = '''',
        wg_subnet = ''10.100.0.0/24'', wg_address = ''10.100.0.1/24''\<rparr>,
      c_punch = \<lparr>pn_enabled = False, pn_listen_port = 51280, pn_wireguard_host = ''127.0.0.1'',
        pn_wireguard_port = 0, pn_stun_servers = [], pn_probe_timeout = 5, pn_keepalive_interval = 20\<rparr>,
      c_jwt = \<lparr>jwt_secret = '''', jwt_expiry_hours = 24\<rparr>,
      c_invite = \<lparr>iv_max_uses = 1, iv_expiry_days = 30\<rparr>,
      c_admin = \<lparr>ad_student_id = ''admin'', ad_password = ''''\<rparr>,
      c_discovery = \<lparr>dc_enabled = False, dc_url = '''', dc_secret = '''', dc_api_addr = ''localhost:8080'',
        dc_wg_endpoint = ''''\<rparr>\<rparr>"

section \<open>Environment variables in the file\<close>

text \<open>
  \<open>ReplaceAllStringFunc\<close> with the pattern of a dollar sign, an opening brace, one or more bytes
  other than a closing brace, and that brace: the leftmost match, and on from its end.
\<close>

function expandEnv :: "(string \<Rightarrow> string) \<Rightarrow> string \<Rightarrow> string" where
  "expandEnv env s =
     (case s of
        [] \<Rightarrow> []
      | c # rest \<Rightarrow>
          if HasPrefix s ''${'' then
            (let inner = takeWhile (\<lambda>x. x \<noteq> CHR ''}'') (tl rest);
                 after = dropWhile (\<lambda>x. x \<noteq> CHR ''}'') (tl rest)
             in if inner \<noteq> [] \<and> after \<noteq> [] then env inner @ expandEnv env (tl after)
                else c # expandEnv env rest)
          else c # expandEnv env rest)"
  by pat_completeness auto
termination
proof (relation "measure (length \<circ> snd)", goal_cases)
  case (2 env s c rest inner after)
  have "length (dropWhile (\<lambda>x. x \<noteq> CHR ''}'') (tl rest)) \<le> length (tl rest)" by (rule length_dropWhile_le)
  with 2 show ?case by simp
qed simp_all

declare expandEnv.simps [simp del]

section \<open>Overrides\<close>

definition splitCSV :: "string \<Rightarrow> string list" where
  "splitCSV v = filter (\<lambda>w. w \<noteq> '''') (map TrimSpace (SplitByte CHR '','' v))"

text \<open>
  The four shapes of an override: the value of the variable, trimmed, unless it is empty or, for
  numbers and truth values, does not parse.
\<close>

definition overString :: "(string \<Rightarrow> string) \<Rightarrow> string \<Rightarrow> string \<Rightarrow> string" where
  "overString env key old = (let v = TrimSpace (env key) in if v \<noteq> '''' then v else old)"

definition overBool :: "(string \<Rightarrow> string) \<Rightarrow> string \<Rightarrow> bool \<Rightarrow> bool" where
  "overBool env key old =
     (let v = TrimSpace (env key) in
      if v \<noteq> '''' then (case ParseBool v of Some b \<Rightarrow> b | None \<Rightarrow> old) else old)"

definition overInt :: "(string \<Rightarrow> string) \<Rightarrow> string \<Rightarrow> int \<Rightarrow> int" where
  "overInt env key old =
     (let v = TrimSpace (env key) in if v \<noteq> '''' \<and> snd (Atoi v) then fst (Atoi v) else old)"

definition overCSV :: "(string \<Rightarrow> string) \<Rightarrow> string \<Rightarrow> string list \<Rightarrow> string list" where
  "overCSV env key old = (let v = TrimSpace (env key) in if v \<noteq> '''' then splitCSV v else old)"

definition overSecret :: "(string \<Rightarrow> string) \<Rightarrow> string \<Rightarrow> string" where
  "overSecret env old =
     (let v = TrimSpace (env ''SCNET_DISCOVERY_SECRET''); t = TrimSpace (env ''SCNET_AGENT_TOKEN'') in
      if v \<noteq> '''' then v else if t \<noteq> '''' \<and> old = '''' then t else old)"

definition applyEnvOverrides :: "(string \<Rightarrow> string) \<Rightarrow> config \<Rightarrow> config" where
  "applyEnvOverrides env cfg =
     (let d = c_discovery cfg; w = c_wireguard cfg; p = c_punch cfg in
      cfg\<lparr>c_discovery :=
            \<lparr>dc_enabled = overBool env ''SCNET_DISCOVERY_ENABLED'' (dc_enabled d),
             dc_url = overString env ''SCNET_DISCOVERY_URL'' (dc_url d),
             dc_secret = overSecret env (dc_secret d),
             dc_api_addr = overString env ''SCNET_DISCOVERY_API_ADDR'' (dc_api_addr d),
             dc_wg_endpoint = overString env ''SCNET_WG_ENDPOINT'' (dc_wg_endpoint d)\<rparr>,
          c_wireguard := w\<lparr>wg_address := overString env ''SCNET_WG_ADDRESS'' (wg_address w)\<rparr>,
          c_punch :=
            \<lparr>pn_enabled = overBool env ''SCNET_PUNCH_ENABLED'' (pn_enabled p),
             pn_listen_port = overInt env ''SCNET_PUNCH_LISTEN_PORT'' (pn_listen_port p),
             pn_wireguard_host = overString env ''SCNET_PUNCH_WG_HOST'' (pn_wireguard_host p),
             pn_wireguard_port = overInt env ''SCNET_PUNCH_WG_PORT'' (pn_wireguard_port p),
             pn_stun_servers = overCSV env ''SCNET_STUN_SERVERS'' (pn_stun_servers p),
             pn_probe_timeout = overInt env ''SCNET_PUNCH_PROBE_TIMEOUT_SECONDS'' (pn_probe_timeout p),
             pn_keepalive_interval = overInt env ''SCNET_PUNCH_KEEPALIVE_SECONDS'' (pn_keepalive_interval p)\<rparr>\<rparr>)"

section \<open>Loading\<close>

text \<open>\<open>yaml content cfg\<close> is what the decoder, which knows the fields, makes of \<open>cfg\<close>.\<close>

type_synonym yaml = "string \<Rightarrow> config \<Rightarrow> goerr + config"

definition Parse :: "yaml \<Rightarrow> (string \<Rightarrow> string) \<Rightarrow> string \<Rightarrow> goerr + config" where
  "Parse yaml env data =
     (case yaml (expandEnv env data) DefaultConfig of
        Inl e \<Rightarrow> Inl (Wrapped ''parse config'' e)
      | Inr cfg \<Rightarrow> Inr (applyEnvOverrides env cfg))"

definition Load :: "(string \<Rightarrow> goerr + string) \<Rightarrow> yaml \<Rightarrow> (string \<Rightarrow> string) \<Rightarrow> string \<Rightarrow> goerr + config" where
  "Load ReadFile yaml env path =
     (case ReadFile path of
        Inl e \<Rightarrow> Inl (Wrapped ''read config file'' e)
      | Inr data \<Rightarrow>
          (case yaml (expandEnv env data) DefaultConfig of
             Inl e \<Rightarrow> Inl (Wrapped ''parse config'' e)
           | Inr cfg0 \<Rightarrow>
               (let cfg = applyEnvOverrides env cfg0 in
                if db_password (c_database cfg) = '''' then Inl (ErrorString ''database.password is required'')
                else if wg_private_key (c_wireguard cfg) = ''''
                then Inl (ErrorString ''wireguard.private_key is required'')
                else if jwt_secret (c_jwt cfg) = '''' then Inl (ErrorString ''jwt.secret is required'')
                else Inr cfg)))"

end
