(* ===== verification/ConfigProperties.thy ===== *)
theory ConfigProperties
  imports Config
begin

text \<open>
  The properties of the configuration: the substitution and the overrides, lists in variables, the
  connection string.
\<close>

section \<open>Substitution\<close>

text \<open>A file as text and placeholders in turn.\<close>

datatype segment = Lit string | Var string

fun render :: "segment list \<Rightarrow> string" where
  "render [] = []"
| "render (Lit t # ss) = t @ render ss"
| "render (Var x # ss) = ''${'' @ x @ ''}'' @ render ss"

fun substituted :: "(string \<Rightarrow> string) \<Rightarrow> segment list \<Rightarrow> string" where
  "substituted env [] = []"
| "substituted env (Lit t # ss) = t @ substituted env ss"
| "substituted env (Var x # ss) = env x @ substituted env ss"

fun segment_ok :: "segment \<Rightarrow> bool" where
  "segment_ok (Lit t) = (CHR ''$'' \<notin> set t)"
| "segment_ok (Var x) = (x \<noteq> [] \<and> CHR ''}'' \<notin> set x)"

lemma expandEnv_Nil [simp]: "expandEnv env [] = []"
  by (subst expandEnv.simps) simp

lemma expandEnv_plain: "CHR ''$'' \<noteq> c \<Longrightarrow> expandEnv env (c # s) = c # expandEnv env s"
  by (subst expandEnv.simps) (auto simp add: HasPrefix_def)

lemma expandEnv_lit: "CHR ''$'' \<notin> set t \<Longrightarrow> expandEnv env (t @ s) = t @ expandEnv env s"
  by (induction t) (simp_all add: expandEnv_plain)

lemma expandEnv_var:
  assumes "x \<noteq> []" "CHR ''}'' \<notin> set x"
  shows "expandEnv env (''${'' @ x @ ''}'' @ s) = env x @ expandEnv env s"
proof -
  have "takeWhile (\<lambda>c. c \<noteq> CHR ''}'') (x @ ''}'' @ s) = x" "dropWhile (\<lambda>c. c \<noteq> CHR ''}'') (x @ ''}'' @ s) = ''}'' @ s"
    using assms(2) by (auto simp add: takeWhile_append dropWhile_append)
  with assms(1) show ?thesis by (subst expandEnv.simps) (simp add: HasPrefix_def Let_def)
qed



section \<open>Overrides\<close>

lemma splitCSV_items: "w \<in> set (splitCSV v) \<Longrightarrow> w \<noteq> [] \<and> TrimSpace w = w \<and> CHR '','' \<notin> set w"
  using set_TrimSpace by (fastforce simp add: splitCSV_def dest: SplitByte_no_sep)

lemma over_idem [simp]:
  "overString env k (overString env k s) = overString env k s"
  "overBool env k (overBool env k b) = overBool env k b"
  "overInt env k (overInt env k i) = overInt env k i"
  "overCSV env k (overCSV env k l) = overCSV env k l"
  "overSecret env (overSecret env s) = overSecret env s"
  by (auto simp add: overString_def overBool_def overInt_def overCSV_def overSecret_def Let_def split: option.splits)

lemma over_unset:
  assumes "TrimSpace (env k) = ''''"
  shows "overString env k s = s" "overBool env k b = b" "overInt env k i = i" "overCSV env k l = l"
  using assms by (simp_all add: overString_def overBool_def overInt_def overCSV_def)

definition env_keys :: "string list" where
  "env_keys =
     [''SCNET_DISCOVERY_ENABLED'', ''SCNET_DISCOVERY_URL'', ''SCNET_DISCOVERY_SECRET'', ''SCNET_AGENT_TOKEN'',
      ''SCNET_DISCOVERY_API_ADDR'', ''SCNET_WG_ENDPOINT'', ''SCNET_WG_ADDRESS'', ''SCNET_PUNCH_ENABLED'',
      ''SCNET_PUNCH_LISTEN_PORT'', ''SCNET_PUNCH_WG_HOST'', ''SCNET_PUNCH_WG_PORT'', ''SCNET_STUN_SERVERS'',
      ''SCNET_PUNCH_PROBE_TIMEOUT_SECONDS'', ''SCNET_PUNCH_KEEPALIVE_SECONDS'']"

lemma applyEnvOverrides_frame:
  "c_server (applyEnvOverrides env cfg) = c_server cfg" "c_database (applyEnvOverrides env cfg) = c_database cfg"
  "c_jwt (applyEnvOverrides env cfg) = c_jwt cfg" "c_invite (applyEnvOverrides env cfg) = c_invite cfg"
  "c_admin (applyEnvOverrides env cfg) = c_admin cfg"
  "wg_private_key (c_wireguard (applyEnvOverrides env cfg)) = wg_private_key (c_wireguard cfg)"
  by (simp_all add: applyEnvOverrides_def Let_def)

lemma applyEnvOverrides_fields:
  "wg_address (c_wireguard (applyEnvOverrides env cfg)) = overString env ''SCNET_WG_ADDRESS'' (wg_address (c_wireguard cfg))"
  "pn_wireguard_port (c_punch (applyEnvOverrides env cfg)) =
     overInt env ''SCNET_PUNCH_WG_PORT'' (pn_wireguard_port (c_punch cfg))"
  "pn_stun_servers (c_punch (applyEnvOverrides env cfg)) =
     overCSV env ''SCNET_STUN_SERVERS'' (pn_stun_servers (c_punch cfg))"
  "dc_enabled (c_discovery (applyEnvOverrides env cfg)) =
     overBool env ''SCNET_DISCOVERY_ENABLED'' (dc_enabled (c_discovery cfg))"
  by (simp_all add: applyEnvOverrides_def Let_def)

lemma overrides_unset:
  assumes "\<forall>k \<in> set env_keys. TrimSpace (env k) = ''''"
  shows "applyEnvOverrides env cfg = cfg"
proof -
  have *: "TrimSpace (env k) = ''''" if "k \<in> set env_keys" for k
    using assms that by blast
  have "overSecret env s = s" for s
    by (simp add: overSecret_def Let_def * env_keys_def)
  moreover have "overString env k s = s" "overBool env k b = b" "overInt env k i = i" "overCSV env k l = l"
    if "k \<in> set env_keys" for k s b i l
    using over_unset [of env k, OF * [OF that]] by simp_all
  ultimately show ?thesis
    by (simp add: applyEnvOverrides_def Let_def env_keys_def)
qed


text \<open>A blank and a malformed variable, an address and a list.\<close>

definition ref_env :: "string \<Rightarrow> string" where
  "ref_env k =
     (if k = ''SCNET_WG_ADDRESS'' then '' 10.8.0.1/29 ''
      else if k = ''SCNET_PUNCH_WG_PORT'' then ''51x''
      else if k = ''SCNET_STUN_SERVERS'' then ''a:1, ,b:2'' else '''')"


section \<open>Loading\<close>

text \<open>
  A configuration that loads is complete, and what must not be missing was in the file: its
  database password, private key and signing secret are not empty and are the ones the decoder
  read, so neither a default nor an override can stand in for them. \<open>Load\<close> is \<open>Parse\<close> of the file
  with these three checks, in this order, and every failure names its reason.
\<close>

theorem loaded_config_complete:
  "(\<forall>e. Load ReadFile yaml env path = Inl (Wrapped ''read config file'' e) \<longleftrightarrow> ReadFile path = Inl e) \<and>
   (\<forall>data. ReadFile path = Inr data \<longrightarrow>
     Load ReadFile yaml env path =
       (case Parse yaml env data of
          Inl e \<Rightarrow> Inl e
        | Inr cfg \<Rightarrow>
            (case find (\<lambda>(v, _). v = '''') [(db_password (c_database cfg), ''database.password is required''),
                (wg_private_key (c_wireguard cfg), ''wireguard.private_key is required''),
                (jwt_secret (c_jwt cfg), ''jwt.secret is required'')] of
               Some (_, why) \<Rightarrow> Inl (ErrorString why)
             | None \<Rightarrow> Inr cfg))) \<and>
   (\<forall>data cfg. ReadFile path = Inr data \<and> Load ReadFile yaml env path = Inr cfg \<longrightarrow>
     (\<exists>read. yaml (expandEnv env data) DefaultConfig = Inr read \<and>
        db_password (c_database read) \<noteq> '''' \<and> c_database cfg = c_database read \<and>
        wg_private_key (c_wireguard read) \<noteq> '''' \<and>
        wg_private_key (c_wireguard cfg) = wg_private_key (c_wireguard read) \<and>
        jwt_secret (c_jwt read) \<noteq> '''' \<and> c_jwt cfg = c_jwt read))"
proof (intro conjI allI impI)
  have frame: "c_database (applyEnvOverrides env c) = c_database c" "c_jwt (applyEnvOverrides env c) = c_jwt c"
    "wg_private_key (c_wireguard (applyEnvOverrides env c)) = wg_private_key (c_wireguard c)" for c
    by (simp_all add: applyEnvOverrides_def Let_def)
  {
    fix e
    show "Load ReadFile yaml env path = Inl (Wrapped ''read config file'' e) \<longleftrightarrow> ReadFile path = Inl e"
      by (auto simp add: Load_def Let_def split: sum.splits)
  }
  {
    fix data cfg
    assume "ReadFile path = Inr data \<and> Load ReadFile yaml env path = Inr cfg"
    then show "\<exists>read. yaml (expandEnv env data) DefaultConfig = Inr read \<and>
        db_password (c_database read) \<noteq> '''' \<and> c_database cfg = c_database read \<and>
        wg_private_key (c_wireguard read) \<noteq> '''' \<and>
        wg_private_key (c_wireguard cfg) = wg_private_key (c_wireguard read) \<and>
        jwt_secret (c_jwt read) \<noteq> '''' \<and> c_jwt cfg = c_jwt read"
      by (auto simp add: Load_def Let_def frame split: sum.splits if_splits)
  }
qed (simp add: Load_def Parse_def Let_def split: sum.splits)

definition ref_yaml :: yaml where
  "ref_yaml content cfg =
     Inr (cfg\<lparr>c_database := (c_database cfg)\<lparr>db_password := content\<rparr>,
       c_wireguard := (c_wireguard cfg)\<lparr>wg_private_key := ''k''\<rparr>, c_jwt := (c_jwt cfg)\<lparr>jwt_secret := ''s''\<rparr>\<rparr>)"

theorem loaded_config_complete_witness:
  "(\<exists>cfg. Load (\<lambda>_. Inr ''pw'') ref_yaml (\<lambda>_. '''') ''f'' = Inr cfg \<and> db_password (c_database cfg) \<noteq> '''') \<and>
   Load (\<lambda>_. Inr '''') ref_yaml (\<lambda>_. '''') ''f'' = Inl (ErrorString ''database.password is required'') \<and>
   Load (\<lambda>_. Inl ErrRand) ref_yaml (\<lambda>_. '''') ''f'' = Inl (Wrapped ''read config file'' ErrRand)"
proof (intro conjI)
  have "expandEnv (\<lambda>_. '''') ''pw'' = ''pw''" by code_simp
  then have parse: "Parse ref_yaml (\<lambda>_. '''') data = Inr (applyEnvOverrides (\<lambda>_. '''') (DefaultConfig\<lparr>
      c_database := (c_database DefaultConfig)\<lparr>db_password := expandEnv (\<lambda>_. '''') data\<rparr>,
      c_wireguard := (c_wireguard DefaultConfig)\<lparr>wg_private_key := ''k''\<rparr>,
      c_jwt := (c_jwt DefaultConfig)\<lparr>jwt_secret := ''s''\<rparr>\<rparr>))" for data
    by (simp add: Parse_def ref_yaml_def)
  have "TrimSpace '''' = ''''" by code_simp
  then have unset: "applyEnvOverrides (\<lambda>_. '''') cfg = cfg" for cfg by (simp add: overrides_unset)
  note l = loaded_config_complete [of _ ref_yaml "\<lambda>_. ''''" "''f''"]
  show "\<exists>cfg. Load (\<lambda>_. Inr ''pw'') ref_yaml (\<lambda>_. '''') ''f'' = Inr cfg \<and> db_password (c_database cfg) \<noteq> ''''"
    using l [of "\<lambda>_. Inr ''pw''"] \<open>expandEnv (\<lambda>_. '''') ''pw'' = ''pw''\<close> by (simp add: parse unset)
  show "Load (\<lambda>_. Inr '''') ref_yaml (\<lambda>_. '''') ''f'' = Inl (ErrorString ''database.password is required'')"
    using l [of "\<lambda>_. Inr ''''"] by (simp add: parse unset)
  show "Load (\<lambda>_. Inl ErrRand) ref_yaml (\<lambda>_. '''') ''f'' = Inl (Wrapped ''read config file'' ErrRand)"
    using l [of "\<lambda>_. Inl ErrRand"] by simp
qed

section \<open>Lists in variables\<close>

lemma TrimSpace_blank: "TrimSpace (CHR '' '' # w) = TrimSpace w"
proof -
  have "find (HasPrefix (CHR '' '' # w)) space_seqs = Some [CHR '' '']"
    by (simp add: space_seqs_def HasPrefix_def)
  then show ?thesis by (simp add: TrimSpace_def TrimLeftSpace.simps [of "CHR '' '' # w"])
qed

lemma splitCSV_Join_items:
  assumes "\<forall>w \<in> set ws. CHR '','' \<notin> set w"
  shows "splitCSV (Join ws '','') = filter (\<lambda>w. w \<noteq> '''') (map TrimSpace ws)"
proof (cases "ws = []")
  case True
  moreover have "TrimSpace '''' = ''''" by code_simp
  ultimately show ?thesis by (simp add: splitCSV_def)
next
  case False
  with SplitByte_Join [OF this assms] show ?thesis by (simp add: splitCSV_def)
qed

text \<open>
  A list of server names survives the variable: joined with commas, and read back by
  \<open>splitCSV\<close>, it is the same list, for names that have no comma, no white space around them and
  are not empty; blanks after the commas do not matter.
\<close>

theorem splitCSV_Join:
  assumes "\<forall>w \<in> set ws. w \<noteq> '''' \<and> CHR '','' \<notin> set w \<and> TrimSpace w = w"
  shows "splitCSV (Join ws '','') = ws \<and> splitCSV (Join (map (\<lambda>w. CHR '' '' # w) ws) '','') = ws"
proof -
  have "filter (\<lambda>w. w \<noteq> '''') (map TrimSpace ws) = ws" "filter (\<lambda>w. w \<noteq> '''') (map (TrimSpace \<circ> (#) CHR '' '') ws) = ws"
    using assms by (induction ws) (auto simp add: TrimSpace_blank)
  then show ?thesis using assms by (simp add: splitCSV_Join_items)
qed

theorem splitCSV_Join_witness: "splitCSV '' stun.a:3478, stun.b:19302'' = [''stun.a:3478'', ''stun.b:19302'']"
proof -
  have "\<forall>w \<in> set [''stun.a:3478'', ''stun.b:19302'']. w \<noteq> '''' \<and> CHR '','' \<notin> set w \<and> TrimSpace w = w"
    by code_simp
  from splitCSV_Join [OF this] show ?thesis by simp
qed

section \<open>The connection string\<close>

definition dsn_words :: "database_section \<Rightarrow> string list" where
  "dsn_words d =
     [''host='' @ db_host d, ''port='' @ Itoa (db_port d), ''user='' @ db_user d,
      ''password='' @ db_password d, ''dbname='' @ db_name d, ''sslmode='' @ db_sslmode d]"

definition blank_free :: "database_section \<Rightarrow> bool" where
  "blank_free d \<longleftrightarrow>
     list_all (\<lambda>v. CHR '' '' \<notin> set v) [db_host d, db_user d, db_password d, db_name d, db_sslmode d]"

lemma Itoa_blank: "CHR '' '' \<notin> set (Itoa i)"
  using decimal_no_char [of "CHR '' ''"] by (simp add: Itoa_def is_digit_char_def ascii_digit_def)

lemma Itoa_inj: "Itoa i = Itoa j \<longleftrightarrow> i = j"
proof -
  have "hd (decimal n) \<noteq> CHR ''-''" for n
    using decimal_digits [of n] by (cases "decimal n") (auto simp add: is_digit_char_def ascii_digit_def)
  then show ?thesis by (auto simp add: Itoa_def) (metis list.sel(1))+
qed

lemma dsn_words_inj: "dsn_words d = dsn_words d' \<longleftrightarrow> d = d'"
  by (auto simp add: dsn_words_def Itoa_inj)

text \<open>
  A connection string says what the configuration says, as long as no setting has a blank in
  it: its words are the six settings, each with its keyword, and no two configurations share it.
\<close>

theorem DSN_unambiguous:
  assumes "blank_free d"
  shows "SplitByte CHR '' '' (DSN d) = dsn_words d \<and> (blank_free d' \<and> DSN d' = DSN d \<longrightarrow> d' = d)"
proof -
  have words: "SplitByte CHR '' '' (DSN x) = dsn_words x" if "blank_free x" for x
  proof -
    have "DSN x = Join (dsn_words x) [CHR '' '']" by (simp add: DSN_def dsn_words_def)
    moreover have "\<forall>w \<in> set (dsn_words x). CHR '' '' \<notin> set w"
      using that Itoa_blank by (simp add: dsn_words_def blank_free_def)
    moreover have "dsn_words x \<noteq> []" by (simp add: dsn_words_def)
    ultimately show ?thesis using SplitByte_Join by simp
  qed
  show ?thesis
  proof (intro conjI impI)
    show "SplitByte CHR '' '' (DSN d) = dsn_words d" by (rule words [OF assms])
    assume "blank_free d' \<and> DSN d' = DSN d"
    then have "dsn_words d' = dsn_words d" using words [of d'] words [OF assms] by simp
    then show "d' = d" by (simp only: dsn_words_inj)
  qed
qed

theorem DSN_unambiguous_witness:
  "SplitByte CHR '' '' (DSN (c_database DefaultConfig)) =
     [''host=localhost'', ''port=5432'', ''user=scnet'', ''password='', ''dbname=scnet'', ''sslmode=disable''] \<and>
   DSN ((c_database DefaultConfig)\<lparr>db_password := ''x''\<rparr>) \<noteq> DSN (c_database DefaultConfig)"
proof -
  let ?d = "c_database DefaultConfig" and ?d' = "(c_database DefaultConfig)\<lparr>db_password := ''x''\<rparr>"
  have free: "blank_free ?d" "blank_free ?d'" by code_simp+
  have words: "dsn_words ?d =
      [''host=localhost'', ''port=5432'', ''user=scnet'', ''password='', ''dbname=scnet'', ''sslmode=disable'']"
  proof -
    have "digit_char 5 = CHR ''5''" "digit_char 4 = CHR ''4''" "digit_char 3 = CHR ''3''" "digit_char 2 = CHR ''2''"
      by code_simp+
    then have "Itoa 5432 = ''5432''" by (simp add: Itoa_def decimal.simps)
    then show ?thesis by (simp add: dsn_words_def DefaultConfig_def)
  qed
  have "?d' \<noteq> ?d" by (simp add: DefaultConfig_def)
  note c = DSN_unambiguous [OF free(1), of ?d']
  show ?thesis
  proof
    show "SplitByte CHR '' '' (DSN ?d) =
        [''host=localhost'', ''port=5432'', ''user=scnet'', ''password='', ''dbname=scnet'', ''sslmode=disable'']"
      using c unfolding words by (rule conjunct1)
    show "DSN ?d' \<noteq> DSN ?d" using c free(2) \<open>?d' \<noteq> ?d\<close> by blast
  qed
qed

text \<open>
  With a blank it does not: nothing is quoted, so the end of one password can pass for another
  setting.
\<close>

lemma DSN_ambiguous:
  "\<exists>d d'. DSN d = DSN d' \<and> db_password d \<noteq> db_password d' \<and> db_name d \<noteq> db_name d'"
proof (intro exI conjI)
  let ?d = "(c_database DefaultConfig)\<lparr>db_password := ''x dbname=y'', db_name := ''z''\<rparr>"
  let ?d' = "(c_database DefaultConfig)\<lparr>db_password := ''x'', db_name := ''y dbname=z''\<rparr>"
  show "DSN ?d = DSN ?d'" by (simp add: DSN_def DefaultConfig_def)
  show "db_password ?d \<noteq> db_password ?d'" "db_name ?d \<noteq> db_name ?d'" by simp_all
qed


end
