(* ===== verification/Migrations.thy ===== *)
theory Migrations
  imports GoStrings Errors "HOL-Library.List_Lexorder" "HOL-Library.Char_ord"
begin

text \<open>
  \<open>internal/store/db.go\<close>: the migrations that run when the server starts. The database is the table
  \<open>schema_migrations\<close> and, behind a type variable, the rest; what a script does to the rest and
  whether it has the three tables of the first migration are arguments. Every call to the database
  may fail, with or without taking effect, as a schedule says.
\<close>

section \<open>The database\<close>

datatype call_fate = Works | Refused | Lost  \<comment> \<open>\<open>Lost\<close>: it took effect, and the answer was an error\<close>

record 'd mig_db =
  md_rest :: 'd
  md_recorded :: "string list option"  \<comment> \<open>the rows of \<open>schema_migrations\<close>, \<open>None\<close> before it exists\<close>
  md_fate :: "nat \<Rightarrow> call_fate"
  md_calls :: nat

type_synonym ('d, 'a) mop = "('d mig_db, goerr, 'a) op"

text \<open>One statement; \<open>f\<close> is its effect, \<open>None\<close> when PostgreSQL rejects it.\<close>

definition statement :: "('d mig_db \<Rightarrow> 'd mig_db option) \<Rightarrow> ('d, unit) mop" where
  "statement f = (\<lambda>s.
     let s1 = s\<lparr>md_calls := md_calls s + 1\<rparr> in
     case (md_fate s (md_calls s), f s1) of
       (Works, Some s2) \<Rightarrow> (Inr (), s2)
     | (Lost, Some s2) \<Rightarrow> (Inl PgError, s2)
     | _ \<Rightarrow> (Inl PgError, s1))"

text \<open>A query: nothing but its answer.\<close>

definition query :: "('d mig_db \<Rightarrow> 'a option) \<Rightarrow> ('d, 'a) mop" where
  "query f = (\<lambda>s.
     let s1 = s\<lparr>md_calls := md_calls s + 1\<rparr> in
     case (md_fate s (md_calls s), f s1) of
       (Works, Some x) \<Rightarrow> (Inr x, s1)
     | _ \<Rightarrow> (Inl PgError, s1))"

text \<open>
  A transaction: when a statement in it fails it is rolled back; a commit that is refused leaves
  nothing either.
\<close>

definition rolled_back :: "'d mig_db \<Rightarrow> 'd mig_db \<Rightarrow> 'd mig_db" where
  "rolled_back s t = t\<lparr>md_rest := md_rest s, md_recorded := md_recorded s\<rparr>"

definition Commit :: "'d mig_db \<Rightarrow> ('d, unit) mop" where
  "Commit s = (\<lambda>t.
     let t1 = t\<lparr>md_calls := md_calls t + 1\<rparr> in
     case md_fate t (md_calls t) of
       Works \<Rightarrow> (Inr (), t1)
     | Lost \<Rightarrow> (Inl PgError, t1)
     | Refused \<Rightarrow> (Inl PgError, rolled_back s t1))"

section \<open>The directory\<close>

definition addCandidate :: "string \<Rightarrow> string list \<Rightarrow> string list" where
  "addCandidate path cs =
     (let p = TrimSpace path in if p = '''' \<or> p \<in> set cs then cs else cs @ [p])"

text \<open>\<open>exe\<close> is \<open>migrations\<close> beside the executable, if the system tells where that is.\<close>

definition migration_candidates :: "string option \<Rightarrow> string \<Rightarrow> string list" where
  "migration_candidates exe migrationsDir =
     (let cs = addCandidate ''/etc/scnet/migrations'' (addCandidate migrationsDir []) in
      case exe of None \<Rightarrow> cs | Some path \<Rightarrow> addCandidate path cs)"

definition ResolveMigrationsDir :: "(string \<Rightarrow> bool) \<Rightarrow> string option \<Rightarrow> string \<Rightarrow> goerr + string" where
  "ResolveMigrationsDir isDir exe migrationsDir =
     (case find isDir (migration_candidates exe migrationsDir) of
        Some dir \<Rightarrow> Inr dir
      | None \<Rightarrow> Inl (ErrorString (''migration directory not found; checked: '' @
          Join (migration_candidates exe migrationsDir) '', '')))"

record entry =
  en_name :: string
  en_dir :: bool
  en_data :: "goerr + string"  \<comment> \<open>what \<open>os.ReadFile\<close> answers\<close>

text \<open>\<open>filepath.Ext\<close>: from the last dot of the last element on.\<close>

definition Ext :: "string \<Rightarrow> string" where
  "Ext path =
     (let r = takeWhile (\<lambda>c. c \<noteq> CHR ''.'' \<and> c \<noteq> CHR ''/'') (rev path) in
      if length r < length path \<and> rev path ! length r = CHR ''.'' then CHR ''.'' # rev r else '''')"

section \<open>Scripts\<close>

definition marker_up :: string where "marker_up = ''-- +migrate Up''"
definition marker_down :: string where "marker_down = ''-- +migrate Down''"

definition newline :: string where "newline = [CHR 0x0A]"

definition up_section :: "string list \<Rightarrow> goerr + string" where
  "up_section upLines =
     (let upSQL = TrimSpace (Join upLines newline) in
      if upSQL = '''' then Inl (ErrorString ''empty Up section'') else Inr upSQL)"

text \<open>The loop over the lines; the last argument is \<open>upLines\<close>.\<close>

fun extract_loop :: "string \<Rightarrow> string list \<Rightarrow> bool \<Rightarrow> string list \<Rightarrow> goerr + string" where
  "extract_loop content [] foundUp upLines =
     (if foundUp then up_section upLines
      else
        let upSQL = TrimSpace content in
        if upSQL = '''' then Inl (ErrorString ''empty migration file'') else Inr upSQL)"
| "extract_loop content (line # ls) foundUp upLines =
     (if TrimSpace line = marker_up then extract_loop content ls True upLines
      else if TrimSpace line = marker_down \<and> foundUp then up_section upLines
      else extract_loop content ls foundUp (if foundUp then upLines @ [line] else upLines))"

definition extractUpMigrationSQL :: "string \<Rightarrow> goerr + string" where
  "extractUpMigrationSQL data = extract_loop data (SplitByte (hd newline) data) False []"

section \<open>Statements on the table\<close>

definition ensureSchemaMigrationsTable :: "('d, unit) mop" where
  "ensureSchemaMigrationsTable =
     statement (\<lambda>s. Some (if md_recorded s = None then s\<lparr>md_recorded := Some []\<rparr> else s))"

definition listAppliedMigrations :: "('d, string set) mop" where
  "listAppliedMigrations = query (\<lambda>s. map_option set (md_recorded s))"

definition recordMigration :: "string \<Rightarrow> ('d, unit) mop" where
  "recordMigration filename =
     statement (\<lambda>s. case md_recorded s of
        None \<Rightarrow> None
      | Some ns \<Rightarrow> Some (if filename \<in> set ns then s else s\<lparr>md_recorded := Some (ns @ [filename])\<rparr>))"

definition initialMigrationFilename :: string where "initialMigrationFilename = ''001_init.sql''"

definition maybeMarkLegacyInitApplied :: "('d \<Rightarrow> bool) \<Rightarrow> string \<Rightarrow> ('d, bool) mop" where
  "maybeMarkLegacyInitApplied legacy filename =
     tryE (query (\<lambda>s. Some (legacy (md_rest s)))) (\<lambda>tables.
     if \<not> tables then ret False else tryE (recordMigration filename) (\<lambda>_. ret True))"

text \<open>\<open>sql upSQL\<close> is what a script does to the rest of the database.\<close>

definition applyMigration :: "(string \<Rightarrow> 'd \<Rightarrow> 'd option) \<Rightarrow> string \<Rightarrow> string \<Rightarrow> ('d, unit) mop" where
  "applyMigration sql filename upSQL =
     tryE (statement Some) (\<lambda>_ s.
       case tryE (statement (\<lambda>t. map_option (\<lambda>d. t\<lparr>md_rest := d\<rparr>) (sql upSQL (md_rest t))))
              (\<lambda>_. recordMigration filename) s of
         (Inl e, t) \<Rightarrow> (Inl e, rolled_back s t)
       | (Inr _, t) \<Rightarrow> Commit s t)"

section \<open>The run\<close>

definition migration_file :: "entry \<Rightarrow> bool" where
  "migration_file e \<longleftrightarrow> \<not> en_dir e \<and> Ext (en_name e) = ''.sql''"

definition wrapE :: "string \<Rightarrow> ('d, 'a) mop \<Rightarrow> ('d, 'a) mop" where
  "wrapE m f = caseE f (\<lambda>e. fail (Wrapped m e)) ret"

definition run_script :: "(string \<Rightarrow> 'd \<Rightarrow> 'd option) \<Rightarrow> entry \<Rightarrow> ('d, unit) mop" where
  "run_script sql e =
     (case en_data e of
        Inl err \<Rightarrow> fail (Wrapped (''read migration '' @ en_name e) err)
      | Inr data \<Rightarrow>
          (case extractUpMigrationSQL data of
             Inl err \<Rightarrow> fail (Wrapped (''parse migration '' @ en_name e) err)
           | Inr upSQL \<Rightarrow> wrapE (''apply migration '' @ en_name e) (applyMigration sql (en_name e) upSQL)))"

definition check_legacy :: "('d \<Rightarrow> bool) \<Rightarrow> string \<Rightarrow> ('d, bool) mop" where
  "check_legacy legacy filename =
     (if filename = initialMigrationFilename
      then wrapE (''check legacy migration '' @ filename) (maybeMarkLegacyInitApplied legacy filename)
      else ret False)"

fun run_entries ::
  "(string \<Rightarrow> 'd \<Rightarrow> 'd option) \<Rightarrow> ('d \<Rightarrow> bool) \<Rightarrow> entry list \<Rightarrow> string set \<Rightarrow> ('d, unit) mop" where
  "run_entries sql legacy [] applied = ret ()"
| "run_entries sql legacy (e # es) applied =
     (if \<not> migration_file e \<or> en_name e \<in> applied then run_entries sql legacy es applied
      else
        tryE (check_legacy legacy (en_name e)) (\<lambda>legacyApplied.
        if legacyApplied then run_entries sql legacy es (insert (en_name e) applied)
        else tryE (run_script sql e) (\<lambda>_. run_entries sql legacy es (insert (en_name e) applied))))"

definition RunMigrations ::
  "(string \<Rightarrow> 'd \<Rightarrow> 'd option) \<Rightarrow> ('d \<Rightarrow> bool) \<Rightarrow> (string \<Rightarrow> bool) \<Rightarrow> string option \<Rightarrow>
     (string \<Rightarrow> goerr + entry list) \<Rightarrow> string \<Rightarrow> ('d, unit) mop" where
  "RunMigrations sql legacy isDir exe ReadDir migrationsDir =
     (case ResolveMigrationsDir isDir exe migrationsDir of
        Inl e \<Rightarrow> fail e
      | Inr resolvedDir \<Rightarrow>
          tryE (wrapE ''create schema migrations table'' ensureSchemaMigrationsTable) (\<lambda>_.
          tryE (wrapE ''list applied migrations'' listAppliedMigrations) (\<lambda>applied.
          case ReadDir resolvedDir of
            Inl e \<Rightarrow> fail (Wrapped ''read migrations dir'' e)
          | Inr entries \<Rightarrow> run_entries sql legacy (sort_key en_name entries) applied)))"

end
