(* ===== verification/MigrationProperties.thy ===== *)
theory MigrationProperties
  imports Migrations
begin

text \<open>
  The properties of the migrations. The specification is an atomic step per file, and \<open>plan\<close>, what
  a run does when no call fails; a run that fails anywhere has done some of the steps, in order,
  and a later run does the rest.
\<close>

section \<open>The specification\<close>

definition mig_view :: "'d mig_db \<Rightarrow> 'd \<times> string list" where
  "mig_view s = (md_rest s, case md_recorded s of None \<Rightarrow> [] | Some ns \<Rightarrow> ns)"

text \<open>A file is recorded together with the effect of its script, once.\<close>

inductive mig_step ::
  "(string \<Rightarrow> 'd \<Rightarrow> 'd option) \<Rightarrow> ('d \<Rightarrow> bool) \<Rightarrow> entry set \<Rightarrow> 'd \<times> string list \<Rightarrow> 'd \<times> string list \<Rightarrow> bool"
  for sql legacy E where
  script: "e \<in> E \<Longrightarrow> migration_file e \<Longrightarrow> en_name e \<notin> set ns \<Longrightarrow> en_data e = Inr data \<Longrightarrow>
    extractUpMigrationSQL data = Inr up \<Longrightarrow> sql up d = Some d' \<Longrightarrow>
    mig_step sql legacy E (d, ns) (d', ns @ [en_name e])"
| legacy: "e \<in> E \<Longrightarrow> migration_file e \<Longrightarrow> en_name e \<notin> set ns \<Longrightarrow> en_name e = initialMigrationFilename \<Longrightarrow>
    legacy d \<Longrightarrow> mig_step sql legacy E (d, ns) (d, ns @ [en_name e])"

text \<open>A run of the files in order when nothing fails but the scripts themselves.\<close>

fun plan ::
  "(string \<Rightarrow> 'd \<Rightarrow> 'd option) \<Rightarrow> ('d \<Rightarrow> bool) \<Rightarrow> entry list \<Rightarrow> 'd \<times> string list \<Rightarrow> goerr + 'd \<times> string list" where
  "plan sql legacy [] (d, ns) = Inr (d, ns)"
| "plan sql legacy (e # es) (d, ns) =
     (if \<not> migration_file e \<or> en_name e \<in> set ns then plan sql legacy es (d, ns)
      else if en_name e = initialMigrationFilename \<and> legacy d then plan sql legacy es (d, ns @ [en_name e])
      else
        case en_data e of
          Inl err \<Rightarrow> Inl (Wrapped (''read migration '' @ en_name e) err)
        | Inr data \<Rightarrow>
            (case extractUpMigrationSQL data of
               Inl err \<Rightarrow> Inl (Wrapped (''parse migration '' @ en_name e) err)
             | Inr up \<Rightarrow>
                 (case sql up d of
                    None \<Rightarrow> Inl (Wrapped (''apply migration '' @ en_name e) PgError)
                  | Some d' \<Rightarrow> plan sql legacy es (d', ns @ [en_name e]))))"

section \<open>Single calls\<close>

definition db_calm :: "'d mig_db \<Rightarrow> bool" where
  "db_calm s \<longleftrightarrow> (\<forall>n. md_fate s n = Works)"

lemma db_calmD: "db_calm s \<Longrightarrow> md_fate s n = Works"
  by (simp add: db_calm_def)

text \<open>What a step of the run may leave: nothing, or the file recorded and its effect \<open>d'\<close>.\<close>

definition unchanged :: "'d mig_db \<Rightarrow> 'd mig_db \<Rightarrow> bool" where
  "unchanged s t \<longleftrightarrow> md_rest t = md_rest s \<and> md_recorded t = md_recorded s \<and> md_fate t = md_fate s"

definition advanced :: "string \<Rightarrow> 'd \<Rightarrow> 'd mig_db \<Rightarrow> 'd mig_db \<Rightarrow> bool" where
  "advanced n d' s t \<longleftrightarrow> md_rest t = d' \<and> md_fate t = md_fate s \<and>
     (\<exists>ns. md_recorded s = Some ns \<and> md_recorded t = Some (ns @ [n]))"

lemma wrapE_wp:
  "wp (wrapE m f) Q s = wp f (\<lambda>r. Q (case r of Inl e \<Rightarrow> Inl (Wrapped m e) | Inr x \<Rightarrow> Inr x)) s"
  by (simp add: wrapE_def wp_rules) (simp add: wp_def split: sum.splits prod.splits)

lemma query_wp:
  "(\<forall>t. f t = f' (md_rest t) (md_recorded t)) \<Longrightarrow>
   wp (query f) (\<lambda>r t. unchanged s t \<and> (\<forall>x. r = Inr x \<longrightarrow> f' (md_rest s) (md_recorded s) = Some x) \<and>
     (db_calm s \<and> f' (md_rest s) (md_recorded s) = Some y \<longrightarrow> r = Inr y)) s"
  by (cases "db_calm s") (auto simp add: wp_def db_calmD query_def Let_def unchanged_def db_calmD split: call_fate.splits option.splits)

lemma recordMigration_wp:
  assumes "md_recorded s = Some ns" "n \<notin> set ns"
  shows "wp (recordMigration n) (\<lambda>r t. (unchanged s t \<and> r = Inl PgError \<and> \<not> db_calm s) \<or>
     (advanced n (md_rest s) s t \<and> (r = Inl PgError \<and> \<not> db_calm s \<or> r = Inr ()))) s"
  using assms
  by (cases "db_calm s") (auto simp add: wp_def db_calmD recordMigration_def statement_def Let_def unchanged_def advanced_def
      split: call_fate.splits)

lemma legacy_wp:
  assumes "md_recorded s = Some ns" "n \<notin> set ns"
  shows "wp (maybeMarkLegacyInitApplied legacy n) (\<lambda>r t.
     (unchanged s t \<and> ((\<exists>e. r = Inl e) \<and> \<not> db_calm s \<or> r = Inr False \<and> \<not> legacy (md_rest s))) \<or>
     (legacy (md_rest s) \<and> advanced n (md_rest s) s t \<and> ((\<exists>e. r = Inl e) \<and> \<not> db_calm s \<or> r = Inr True))) s"
  using assms
  by (cases "db_calm s") (auto simp add: wp_def db_calmD maybeMarkLegacyInitApplied_def recordMigration_def statement_def query_def Let_def
      tryE_def caseE_def fail_def ret_def unchanged_def advanced_def
      split: call_fate.splits)

lemma applyMigration_wp:
  assumes "md_recorded s = Some ns" "n \<notin> set ns"
  shows "wp (applyMigration sql n up) (\<lambda>r t.
     (unchanged s t \<and> r = Inl PgError \<and> (db_calm s \<longrightarrow> sql up (md_rest s) = None)) \<or>
     (\<exists>d'. sql up (md_rest s) = Some d' \<and> advanced n d' s t \<and> (r = Inl PgError \<and> \<not> db_calm s \<or> r = Inr ()))) s"
  using assms
  by (cases "db_calm s") (auto simp add: wp_def db_calmD applyMigration_def recordMigration_def statement_def Commit_def rolled_back_def Let_def
      tryE_def caseE_def fail_def ret_def unchanged_def advanced_def
      split: call_fate.splits option.splits)

section \<open>The loop\<close>

lemma plan_Cons:
  assumes "plan sql legacy (e # es) (d, ns) = Inr v"
  obtains d1 ns1 where "plan sql legacy es (d1, ns1) = Inr v" "set ns \<subseteq> set ns1"
    "migration_file e \<longrightarrow> en_name e \<in> set ns1"
proof (cases "\<not> migration_file e \<or> en_name e \<in> set ns")
  case True
  with assms that [of d ns] show ?thesis by auto
next
  case False
  with assms obtain d1 where "plan sql legacy es (d1, ns @ [en_name e]) = Inr v"
    by (auto split: if_splits sum.splits option.splits)
  with that [of d1 "ns @ [en_name e]"] show ?thesis by auto
qed

lemma plan_records:
  "plan sql legacy es (d, ns) = Inr (d', ns') \<Longrightarrow>
     set ns \<subseteq> set ns' \<and> (\<forall>e \<in> set es. migration_file e \<longrightarrow> en_name e \<in> set ns')"
proof (induction es arbitrary: d ns)
  case (Cons e es)
  from Cons.prems obtain d1 ns1 where *: "plan sql legacy es (d1, ns1) = Inr (d', ns')" "set ns \<subseteq> set ns1"
    "migration_file e \<longrightarrow> en_name e \<in> set ns1" by (rule plan_Cons)
  from Cons.IH [OF *(1)] *(2,3) show ?case by auto
qed simp

lemma plan_done:
  "\<forall>e \<in> set es. migration_file e \<longrightarrow> en_name e \<in> set ns \<Longrightarrow> plan sql legacy es (d, ns) = Inr (d, ns)"
  by (induction es) auto

text \<open>What a run of \<open>es\<close> may make of \<open>s\<close>, with result \<open>r\<close>.\<close>

definition run_ok where
  "run_ok sql legacy E es ns s r t \<longleftrightarrow>
     (\<exists>new. md_recorded t = Some (ns @ new) \<and> md_fate t = md_fate s \<and>
        (mig_step sql legacy E)\<^sup>*\<^sup>* (md_rest s, ns) (md_rest t, ns @ new) \<and>
        sorted new \<and> distinct new \<and> set new \<subseteq> en_name ` set es - set ns \<and>
        plan sql legacy es (md_rest t, ns @ new) = plan sql legacy es (md_rest s, ns) \<and>
        (r = Inr () \<longrightarrow> plan sql legacy es (md_rest s, ns) = Inr (md_rest t, ns @ new)) \<and>
        (db_calm s \<longrightarrow> (case plan sql legacy es (md_rest s, ns) of Inl e \<Rightarrow> r = Inl e | Inr _ \<Rightarrow> r = Inr ())))"

lemma run_ok_stop:
  assumes "md_recorded s = Some ns" "unchanged s t" "r = Inl e" "db_calm s \<Longrightarrow> plan sql legacy es (md_rest s, ns) = Inl e"
  shows "run_ok sql legacy E es ns s r t"
  using assms unfolding run_ok_def unchanged_def by (intro exI [of _ "[]"]) auto

lemma run_ok_skip:
  assumes "\<not> migration_file e \<or> en_name e \<in> set ns" "run_ok sql legacy E es ns s r t"
  shows "run_ok sql legacy E (e # es) ns s r t"
  using assms unfolding run_ok_def by fastforce

lemma run_ok_step:
  assumes new: "migration_file e" "en_name e \<notin> set ns" and sorted: "sorted (map en_name (e # es))"
    and adv: "advanced (en_name e) d' s s1" and rec: "md_recorded s = Some ns"
    and step: "mig_step sql legacy E (md_rest s, ns) (d', ns @ [en_name e])"
    and plan: "plan sql legacy (e # es) (md_rest s, ns) = plan sql legacy es (d', ns @ [en_name e])"
    and rest: "run_ok sql legacy E es (ns @ [en_name e]) s1 r t"
  shows "run_ok sql legacy E (e # es) ns s r t"
proof -
  have s1: "md_rest s1 = d'" "md_fate s1 = md_fate s" using adv by (simp_all add: advanced_def)
  from rest obtain k where k: "md_recorded t = Some (ns @ en_name e # k)" "md_fate t = md_fate s"
    and run: "(mig_step sql legacy E)\<^sup>*\<^sup>* (d', ns @ [en_name e]) (md_rest t, ns @ en_name e # k)"
    and order: "sorted k" "distinct k" "set k \<subseteq> en_name ` set es - set (ns @ [en_name e])"
    and p: "plan sql legacy es (md_rest t, ns @ en_name e # k) = plan sql legacy es (d', ns @ [en_name e])"
      "r = Inr () \<longrightarrow> plan sql legacy es (d', ns @ [en_name e]) = Inr (md_rest t, ns @ en_name e # k)"
      "db_calm s \<longrightarrow> (case plan sql legacy es (d', ns @ [en_name e]) of Inl e \<Rightarrow> r = Inl e | Inr _ \<Rightarrow> r = Inr ())"
    by (auto simp add: run_ok_def s1 db_calm_def)
  have "(mig_step sql legacy E)\<^sup>*\<^sup>* (md_rest s, ns) (md_rest t, ns @ en_name e # k)"
    using step run by (rule converse_rtranclp_into_rtranclp)
  moreover have "sorted (en_name e # k)" using order sorted by auto
  moreover have "distinct (en_name e # k)" "set (en_name e # k) \<subseteq> en_name ` set (e # es) - set ns"
    using order new(2) by auto
  moreover have "plan sql legacy (e # es) (md_rest t, ns @ en_name e # k) = plan sql legacy es (md_rest t, ns @ en_name e # k)"
    by simp
  ultimately show ?thesis
    using k p unfolding run_ok_def plan by (intro exI [of _ "en_name e # k"]) simp
qed

lemma run_script_wp:
  assumes rec: "md_recorded s = Some ns" and new: "migration_file e" "en_name e \<notin> set ns" and E: "e \<in> E"
    and other: "\<not> (en_name e = initialMigrationFilename \<and> legacy (md_rest s))"
  shows "wp (run_script sql e) (\<lambda>r t.
     (unchanged s t \<and> (\<exists>err. r = Inl err \<and> (db_calm s \<longrightarrow> plan sql legacy (e # es) (md_rest s, ns) = Inl err))) \<or>
     (\<exists>d'. advanced (en_name e) d' s t \<and> mig_step sql legacy E (md_rest s, ns) (d', ns @ [en_name e]) \<and>
        plan sql legacy (e # es) (md_rest s, ns) = plan sql legacy es (d', ns @ [en_name e]) \<and>
        ((\<exists>err. r = Inl err) \<and> \<not> db_calm s \<or> r = Inr ()))) s"
proof (cases "en_data e")
  case (Inl err)
  with other new show ?thesis by (auto simp add: run_script_def wp_rules unchanged_def)
next
  case (Inr data)
  show ?thesis
  proof (cases "extractUpMigrationSQL data")
    case (Inl err)
    with Inr other new show ?thesis by (auto simp add: run_script_def wp_rules unchanged_def)
  next
    case up: (Inr up)
    have step: "mig_step sql legacy E (md_rest s, ns) (d', ns @ [en_name e])" if "sql up (md_rest s) = Some d'" for d'
      using E new Inr up that by (rule mig_step.script)
    have split: "run_script sql e = wrapE (''apply migration '' @ en_name e) (applyMigration sql (en_name e) up)"
      using Inr up by (simp add: run_script_def)
    show ?thesis
      unfolding split wrapE_wp
      by (rule wp_mono [OF applyMigration_wp [OF rec new(2)]]) (use step Inr up other new in auto)
  qed
qed

lemma check_legacy_wp:
  assumes rec: "md_recorded s = Some ns" "n \<notin> set ns"
  shows "wp (check_legacy legacy n) (\<lambda>r t.
     (unchanged s t \<and> ((\<exists>e. r = Inl e) \<and> \<not> db_calm s \<or> r = Inr False \<and> \<not> (n = initialMigrationFilename \<and> legacy (md_rest s)))) \<or>
     (n = initialMigrationFilename \<and> legacy (md_rest s) \<and> advanced n (md_rest s) s t \<and>
        ((\<exists>e. r = Inl e) \<and> \<not> db_calm s \<or> r = Inr True))) s"
proof (cases "n = initialMigrationFilename")
  case True
  then have "check_legacy legacy n = wrapE (''check legacy migration '' @ n) (maybeMarkLegacyInitApplied legacy n)"
    by (simp add: check_legacy_def)
  then show ?thesis
    unfolding \<open>check_legacy legacy n = _\<close> wrapE_wp
    by simp (rule wp_mono [OF legacy_wp [OF rec]], use True in auto)
next
  case False
  then show ?thesis by (simp add: check_legacy_def wp_rules unchanged_def)
qed

lemma run_ok_unchanged: "unchanged s t \<Longrightarrow> run_ok sql legacy E es ns t = run_ok sql legacy E es ns s"
  by (simp add: run_ok_def unchanged_def db_calm_def fun_eq_iff)

lemma run_entries_wp:
  assumes "md_recorded s = Some ns" "set es \<subseteq> E" "sorted (map en_name es)"
  shows "wp (run_entries sql legacy es (set ns)) (run_ok sql legacy E es ns s) s"
  using assms
proof (induction es arbitrary: s ns)
  case Nil
  then show ?case by (simp add: wp_rules run_ok_def)
next
  case (Cons e es)
  show ?case
  proof (cases "\<not> migration_file e \<or> en_name e \<in> set ns")
    case True
    with Cons.IH [OF Cons.prems(1)] Cons.prems(2,3) show ?thesis
      by (auto intro: wp_mono run_ok_skip [OF True])
  next
    case False
    then have new: "migration_file e" "en_name e \<notin> set ns" and E: "e \<in> E" using Cons.prems(2) by auto
    let ?k = "run_entries sql legacy es (insert (en_name e) (set ns))" and ?Q = "run_ok sql legacy E (e # es) ns"
    have cont: "wp ?k (?Q s) s1" and stop: "\<not> db_calm s \<Longrightarrow> ?Q s (Inl err) s1"
      if s: "md_recorded s = Some ns" and adv: "advanced (en_name e) d' s s1"
        "mig_step sql legacy E (md_rest s, ns) (d', ns @ [en_name e])"
        "plan sql legacy (e # es) (md_rest s, ns) = plan sql legacy es (d', ns @ [en_name e])" for d' s s1 err
    proof -
      note step = run_ok_step [OF new Cons.prems(3) adv(1) s adv(2,3)]
      have s1: "md_recorded s1 = Some (ns @ [en_name e])" "md_fate s1 = md_fate s"
        using adv(1) s by (auto simp add: advanced_def)
      from Cons.IH [OF s1(1)] Cons.prems(2,3) show "wp ?k (?Q s) s1"
        by (auto intro: wp_mono step)
      assume "\<not> db_calm s"
      then show "?Q s (Inl err) s1"
        using s1 by (intro step run_ok_stop [of _ _ _ _ err]) (simp_all add: unchanged_def db_calm_def)
    qed
    have body: "wp (tryE (run_script sql e) (\<lambda>_. ?k)) (?Q s) s"
      if s: "md_recorded s = Some ns" and other: "\<not> (en_name e = initialMigrationFilename \<and> legacy (md_rest s))" for s
      unfolding wp_tryE
      by (rule wp_mono [OF run_script_wp [where legacy = legacy and es = es, OF s new E other]])
        (use s in \<open>auto intro: run_ok_stop cont stop\<close>)
    have "run_entries sql legacy (e # es) (set ns) =
        tryE (check_legacy legacy (en_name e)) (\<lambda>la. if la then ?k else tryE (run_script sql e) (\<lambda>_. ?k))"
      using False by simp
    moreover have "wp \<dots> (?Q s) s"
      unfolding wp_tryE
    proof (rule wp_mono [OF check_legacy_wp [OF Cons.prems(1) new(2), of legacy]], goal_cases)
      case (1 r t)
      let ?init = "en_name e = initialMigrationFilename \<and> legacy (md_rest s)"
      have taken: "mig_step sql legacy E (md_rest s, ns) (md_rest s, ns @ [en_name e])"
        "plan sql legacy (e # es) (md_rest s, ns) = plan sql legacy es (md_rest s, ns @ [en_name e])" if ?init
        using mig_step.legacy [of e E ns legacy "md_rest s" sql] E new that by auto
      from 1 consider err where "unchanged s t" "r = Inl err" "\<not> db_calm s" | "unchanged s t" "r = Inr False" "\<not> ?init"
        | err where ?init "advanced (en_name e) (md_rest s) s t" "r = Inl err" "\<not> db_calm s"
        | ?init "advanced (en_name e) (md_rest s) s t" "r = Inr True" by blast
      then show ?case
      proof cases
        case 1
        with Cons.prems(1) run_ok_stop [of s ns t "Inl err" err] show ?thesis by simp
      next
        case 2
        then have "md_recorded t = Some ns" "md_rest t = md_rest s" using Cons.prems(1) by (simp_all add: unchanged_def)
        with body [of t] 2 show ?thesis by (simp add: run_ok_unchanged [OF \<open>unchanged s t\<close>])
      next
        case 3
        with stop [OF Cons.prems(1) 3(2) taken [OF 3(1)]] show ?thesis by simp
      next
        case 4
        with cont [OF Cons.prems(1) 4(2) taken [OF 4(1)]] show ?thesis by simp
      qed
    qed
    ultimately show ?thesis by simp
  qed
qed

section \<open>The run\<close>

definition run_view where
  "run_view sql legacy entries s r t \<longleftrightarrow>
     (let es = sort_key en_name entries in
      md_fate t = md_fate s \<and> (mig_step sql legacy (set entries))\<^sup>*\<^sup>* (mig_view s) (mig_view t) \<and>
      (\<exists>new. snd (mig_view t) = snd (mig_view s) @ new \<and> sorted new \<and> distinct new \<and>
         set new \<subseteq> en_name ` set entries - set (snd (mig_view s))) \<and>
      plan sql legacy es (mig_view t) = plan sql legacy es (mig_view s) \<and>
      (r = Inr () \<longrightarrow> plan sql legacy es (mig_view s) = Inr (mig_view t)) \<and>
      (db_calm s \<longrightarrow> (case plan sql legacy es (mig_view s) of Inl e \<Rightarrow> r = Inl e | Inr _ \<Rightarrow> r = Inr ())))"

lemma run_view_stop:
  "mig_view t = mig_view s \<Longrightarrow> md_fate t = md_fate s \<Longrightarrow> r = Inl e \<Longrightarrow> \<not> db_calm s \<Longrightarrow> run_view sql legacy entries s r t"
  by (simp add: run_view_def Let_def)

lemma ensure_wp:
  "wp ensureSchemaMigrationsTable (\<lambda>r t. mig_view t = mig_view s \<and> md_fate t = md_fate s \<and>
     ((\<exists>e. r = Inl e) \<and> \<not> db_calm s \<or> r = Inr () \<and> md_recorded t = Some (snd (mig_view s)))) s"
  by (cases "db_calm s")
    (auto simp add: wp_def db_calmD ensureSchemaMigrationsTable_def statement_def Let_def mig_view_def split: call_fate.splits option.splits)

lemma list_wp:
  assumes "md_recorded s = Some ns"
  shows "wp listAppliedMigrations (\<lambda>r t. unchanged s t \<and> ((\<exists>e. r = Inl e) \<and> \<not> db_calm s \<or> r = Inr (set ns))) s"
  using assms
  by (cases "db_calm s")
    (auto simp add: wp_def db_calmD listAppliedMigrations_def query_def Let_def unchanged_def split: call_fate.splits)

lemma run_ok_view:
  assumes "run_ok sql legacy (set entries) (sort_key en_name entries) (snd (mig_view s)) t r u"
    "mig_view t = mig_view s" "md_fate t = md_fate s" "md_recorded t = Some (snd (mig_view s))"
  shows "run_view sql legacy entries s r u"
proof -
  have t: "md_rest t = fst (mig_view s)" "db_calm t = db_calm s" using assms(2,3) by (auto simp add: mig_view_def db_calm_def)
  from assms(1) obtain new where "md_recorded u = Some (snd (mig_view s) @ new)" and *: "md_fate u = md_fate t"
      "(mig_step sql legacy (set entries))\<^sup>*\<^sup>* (mig_view s) (md_rest u, snd (mig_view s) @ new)"
      "sorted new" "distinct new" "set new \<subseteq> en_name ` set entries - set (snd (mig_view s))"
      "plan sql legacy (sort_key en_name entries) (md_rest u, snd (mig_view s) @ new) =
        plan sql legacy (sort_key en_name entries) (mig_view s)"
      "r = Inr () \<longrightarrow> plan sql legacy (sort_key en_name entries) (mig_view s) = Inr (md_rest u, snd (mig_view s) @ new)"
      "db_calm s \<longrightarrow> (case plan sql legacy (sort_key en_name entries) (mig_view s) of Inl e \<Rightarrow> r = Inl e | Inr _ \<Rightarrow> r = Inr ())"
    unfolding run_ok_def t by auto
  then have u: "mig_view u = (md_rest u, snd (mig_view s) @ new)" by (simp add: mig_view_def)
  show ?thesis using * assms(3) unfolding run_view_def Let_def u by auto
qed

lemma RunMigrations_run:
  assumes dir: "ResolveMigrationsDir isDir exe migrationsDir = Inr dir" "ReadDir dir = Inr entries"
    and run: "RunMigrations sql legacy isDir exe ReadDir migrationsDir s = (r, s')"
  shows "run_view sql legacy entries s r s'"
proof -
  let ?ns = "snd (mig_view s)" and ?es = "sort_key en_name entries"
  have rest: "wp (run_entries sql legacy ?es (set ?ns)) (run_view sql legacy entries s) t"
    if t: "mig_view t = mig_view s" "md_fate t = md_fate s" "md_recorded t = Some ?ns" for t
    using run_entries_wp [OF t(3), of ?es "set entries" sql legacy] run_ok_view [OF _ t]
    by (auto intro: wp_mono)
  have listed: "wp (tryE (wrapE ''list applied migrations'' listAppliedMigrations)
      (\<lambda>applied. run_entries sql legacy ?es applied)) (run_view sql legacy entries s) t"
    if t: "mig_view t = mig_view s" "md_fate t = md_fate s" "md_recorded t = Some ?ns" for t
    unfolding wp_tryE wrapE_wp
  proof (rule wp_mono [OF list_wp [OF t(3)]], goal_cases)
    case (1 r u)
    then have u: "mig_view u = mig_view s" "md_fate u = md_fate s" "md_recorded u = Some ?ns" and c: "db_calm t = db_calm s"
      using t by (simp_all add: unchanged_def mig_view_def db_calm_def)
    with 1 rest [OF u] show ?case by (auto intro: run_view_stop)
  qed
  have "wp (RunMigrations sql legacy isDir exe ReadDir migrationsDir) (run_view sql legacy entries s) s"
    using dir unfolding RunMigrations_def
    by (simp add: wp_tryE wrapE_wp del: split_paired_All)
      (rule wp_mono [OF ensure_wp], auto intro: run_view_stop listed [unfolded wp_tryE wrapE_wp])
  then show ?thesis using run by (rule wp_I)
qed

text \<open>
  C7: migrations are atomic and happen once. Whatever calls of a run fail, and whether or not a
  failed call took effect, the database has gone through whole steps of the specification: a
  script that has not been recorded takes effect and is recorded at the same time, so no script is
  ever run twice, no half-done script stays, and no recorded file is without its effect. The files
  a run records are new, and it takes them in the order of their names.
\<close>

theorem migrations_atomic:
  assumes "ResolveMigrationsDir isDir exe migrationsDir = Inr dir" "ReadDir dir = Inr entries"
    and "RunMigrations sql legacy isDir exe ReadDir migrationsDir s = (r, s')"
  shows "(mig_step sql legacy (set entries))\<^sup>*\<^sup>* (mig_view s) (mig_view s') \<and>
     (\<exists>new. snd (mig_view s') = snd (mig_view s) @ new \<and> sorted new \<and> distinct new \<and>
        set new \<subseteq> en_name ` set entries - set (snd (mig_view s)))"
  using RunMigrations_run [OF assms] by (auto simp add: run_view_def Let_def)

text \<open>
  C6: an interrupted migration resumes. After any number of runs that stopped anywhere, for any
  failures, the first run that succeeds leaves exactly what one undisturbed run would have made of
  the database as it was before them, with every file recorded; and from then on further runs,
  failing or not, change nothing.
\<close>

theorem migrations_resume:
  assumes dir: "ResolveMigrationsDir isDir exe migrationsDir = Inr dir" "ReadDir dir = Inr entries"
    and before: "(\<lambda>s t. \<exists>fate r. RunMigrations sql legacy isDir exe ReadDir migrationsDir (s\<lparr>md_fate := fate\<rparr>) = (r, t))\<^sup>*\<^sup>* s s1"
    and last_run: "RunMigrations sql legacy isDir exe ReadDir migrationsDir (s1\<lparr>md_fate := fate\<rparr>) = (Inr (), s2)"
  shows "plan sql legacy (sort_key en_name entries) (mig_view s) = Inr (mig_view s2) \<and>
     (\<forall>e \<in> set entries. migration_file e \<longrightarrow> en_name e \<in> set (snd (mig_view s2))) \<and>
     mig_view (snd (RunMigrations sql legacy isDir exe ReadDir migrationsDir (s2\<lparr>md_fate := fate'\<rparr>))) = mig_view s2"
proof -
  let ?es = "sort_key en_name entries"
  let ?plan = "plan sql legacy ?es"
  have [simp]: "mig_view (s\<lparr>md_fate := f\<rparr>) = mig_view s" for s :: "'a mig_db" and f by (simp add: mig_view_def)
  have "?plan (mig_view s1) = ?plan (mig_view s)"
    using before
  proof (induction rule: rtranclp_induct)
    case (step t u)
    then obtain f r where "RunMigrations sql legacy isDir exe ReadDir migrationsDir (t\<lparr>md_fate := f\<rparr>) = (r, u)" by blast
    from RunMigrations_run [OF dir this] step.IH show ?case by (simp add: run_view_def Let_def)
  qed simp
  moreover have fin: "?plan (mig_view s1) = Inr (mig_view s2)"
    using RunMigrations_run [OF dir last_run] by (simp add: run_view_def Let_def)
  moreover have all: "\<forall>e \<in> set ?es. migration_file e \<longrightarrow> en_name e \<in> set (snd (mig_view s2))"
    using plan_records [of sql legacy ?es "fst (mig_view s1)" "snd (mig_view s1)" "fst (mig_view s2)" "snd (mig_view s2)"] fin
    by simp
  moreover obtain r3 s3 where again: "RunMigrations sql legacy isDir exe ReadDir migrationsDir (s2\<lparr>md_fate := fate'\<rparr>) = (r3, s3)"
    by (rule prod.exhaust)
  have "mig_view s3 = mig_view s2"
  proof -
    from RunMigrations_run [OF dir again] have steps: "(mig_step sql legacy (set entries))\<^sup>*\<^sup>* (mig_view s2) (mig_view s3)"
      by (simp add: run_view_def Let_def)
    have "\<not> mig_step sql legacy (set entries) (mig_view s2) v" for v
      using all by (auto elim!: mig_step.cases)
    with steps show ?thesis by (metis converse_rtranclpE)
  qed
  ultimately show ?thesis using again by simp
qed

text \<open>
  C28: when the database answers, the migration ends, and ends well unless a script is at fault: a
  run in which no call fails does just what the files say, reports the first file that cannot be
  read, has no script or whose script PostgreSQL rejects, and otherwise succeeds.
\<close>

theorem migrations_complete:
  assumes dir: "ResolveMigrationsDir isDir exe migrationsDir = Inr dir" "ReadDir dir = Inr entries"
    and db_calm: "db_calm s"
  shows "\<exists>s'. RunMigrations sql legacy isDir exe ReadDir migrationsDir s =
       (case plan sql legacy (sort_key en_name entries) (mig_view s) of Inl e \<Rightarrow> Inl e | Inr _ \<Rightarrow> Inr (), s') \<and>
     (\<forall>v. plan sql legacy (sort_key en_name entries) (mig_view s) = Inr v \<longrightarrow> mig_view s' = v)"
proof -
  obtain r s' where run: "RunMigrations sql legacy isDir exe ReadDir migrationsDir s = (r, s')" by (rule prod.exhaust)
  from RunMigrations_run [OF dir run] db_calm run show ?thesis
    by (auto simp add: run_view_def Let_def split: sum.splits)
qed

section \<open>Scripts\<close>

lemma extract_before:
  "\<forall>l \<in> set pre. TrimSpace l \<noteq> marker_up \<Longrightarrow> extract_loop c (pre @ ls) False [] = extract_loop c ls False []"
  by (induction pre) auto

lemma extract_up:
  "\<forall>l \<in> set up. TrimSpace l \<noteq> marker_up \<and> TrimSpace l \<noteq> marker_down \<Longrightarrow>
     extract_loop c (up @ ls) True acc = extract_loop c ls True (acc @ up)"
  by (induction up arbitrary: acc) auto

lemma markers_differ: "marker_down \<noteq> marker_up"
  by (simp add: marker_up_def marker_down_def)

text \<open>
  What runs of a migration file is its Up section, and nothing of what stands before it or in
  the Down section, however the markers are indented and whether the lines end in one byte or two;
  a file whose Up section is blank is refused.
\<close>

theorem up_section_extracted:
  assumes lines: "\<forall>l \<in> set (pre @ m # up @ m' # down). hd newline \<notin> set l"
    and m: "TrimSpace m = marker_up" "TrimSpace m' = marker_down" "\<forall>l \<in> set pre. TrimSpace l \<noteq> marker_up"
    and up: "\<forall>l \<in> set up. TrimSpace l \<noteq> marker_up \<and> TrimSpace l \<noteq> marker_down"
  shows "extractUpMigrationSQL (Join (pre @ m # up @ m' # down) newline) =
     (if TrimSpace (Join up newline) = '''' then Inl (ErrorString ''empty Up section'')
      else Inr (TrimSpace (Join up newline)))"
proof -
  let ?ls = "pre @ m # up @ m' # down"
  have "newline = [hd newline]" by (simp add: newline_def)
  then have "SplitByte (hd newline) (Join ?ls newline) = ?ls" using SplitByte_Join [of ?ls "hd newline"] lines by simp
  then show ?thesis
    using m up markers_differ
    by (simp add: extractUpMigrationSQL_def extract_before extract_up up_section_def Let_def)
qed

theorem up_section_extracted_witness:
  "extractUpMigrationSQL (Join [''-- users'', '' -- +migrate Up'', ''CREATE users;'', ''-- +migrate Down'', ''DROP users;''] newline) =
     Inr ''CREATE users;''"
proof -
  have "\<forall>l \<in> set ([''-- users''] @ '' -- +migrate Up'' # [''CREATE users;''] @ ''-- +migrate Down'' # [''DROP users;'']).
      hd newline \<notin> set l" by code_simp
  moreover have "TrimSpace '' -- +migrate Up'' = marker_up" "TrimSpace ''-- +migrate Down'' = marker_down"
    "\<forall>l \<in> set [''-- users'']. TrimSpace l \<noteq> marker_up"
    "\<forall>l \<in> set [''CREATE users;'']. TrimSpace l \<noteq> marker_up \<and> TrimSpace l \<noteq> marker_down" by code_simp+
  ultimately have "extractUpMigrationSQL (Join ([''-- users''] @ '' -- +migrate Up'' # [''CREATE users;''] @
      ''-- +migrate Down'' # [''DROP users;'']) newline) =
      (if TrimSpace (Join [''CREATE users;''] newline) = '''' then Inl (ErrorString ''empty Up section'')
       else Inr (TrimSpace (Join [''CREATE users;''] newline)))"
    by (rule up_section_extracted)
  moreover have "TrimSpace ''CREATE users;'' = ''CREATE users;''" by code_simp
  ultimately show ?thesis by simp
qed

section \<open>A run\<close>

text \<open>Two files, listed in no order, and a database that keeps the scripts it ran.\<close>

definition ref_files :: "entry list" where
  "ref_files =
     [\<lparr>en_name = ''2.sql'', en_dir = False, en_data = Inr ''B''\<rparr>,
      \<lparr>en_name = ''old'', en_dir = True, en_data = Inl PgError\<rparr>,
      \<lparr>en_name = ''1.sql'', en_dir = False, en_data = Inr ''A''\<rparr>]"

definition ref_sql :: "string \<Rightarrow> string list \<Rightarrow> string list option" where
  "ref_sql up d = (if up = ''BAD'' then None else Some (d @ [up]))"

definition ref_run :: "(string list, unit) mop" where
  "ref_run = RunMigrations ref_sql (\<lambda>_. False) (\<lambda>d. d = ''m'') None (\<lambda>_. Inr ref_files) ''m''"

definition ref_db :: "string list mig_db" where
  "ref_db = \<lparr>md_rest = [], md_recorded = None, md_fate = (\<lambda>_. Works), md_calls = 0\<rparr>"

text \<open>The commit of the first script takes effect, but the connection is lost.\<close>

definition ref_lost :: "nat \<Rightarrow> call_fate" where
  "ref_lost n = (if n = 5 then Lost else Works)"

lemma ref_dir: "ResolveMigrationsDir (\<lambda>d. d = ''m'') None ''m'' = Inr ''m''"
  by code_simp

lemma ref_sorted: "sort_key en_name ref_files =
    [\<lparr>en_name = ''1.sql'', en_dir = False, en_data = Inr ''A''\<rparr>,
     \<lparr>en_name = ''2.sql'', en_dir = False, en_data = Inr ''B''\<rparr>,
     \<lparr>en_name = ''old'', en_dir = True, en_data = Inl PgError\<rparr>]"
  by code_simp

lemma ref_interrupted:
  "fst (ref_run (ref_db\<lparr>md_fate := ref_lost\<rparr>)) = Inl (Wrapped ''apply migration 1.sql'' PgError)"
  "mig_view (snd (ref_run (ref_db\<lparr>md_fate := ref_lost\<rparr>))) = ([''A''], [''1.sql''])"
  by code_simp+


theorem migrations_atomic_witness:
  "(mig_step ref_sql (\<lambda>_. False) (set ref_files))\<^sup>*\<^sup>* ([], []) ([''A''], [''1.sql''])"
proof -
  let ?s = "ref_db\<lparr>md_fate := ref_lost\<rparr>"
  obtain r s' where run: "ref_run ?s = (r, s')" by (rule prod.exhaust)
  then have "RunMigrations ref_sql (\<lambda>_. False) (\<lambda>d. d = ''m'') None (\<lambda>_. Inr ref_files) ''m'' ?s = (r, s')"
    by (simp only: ref_run_def)
  from migrations_atomic [OF ref_dir refl this]
  have "(mig_step ref_sql (\<lambda>_. False) (set ref_files))\<^sup>*\<^sup>* (mig_view ?s) (mig_view s')" by (rule conjunct1)
  moreover have "mig_view s' = ([''A''], [''1.sql''])" using ref_interrupted(2) run by (simp only: snd_conv)
  moreover have "mig_view ?s = ([], [])" by (simp add: mig_view_def ref_db_def)
  ultimately show ?thesis by (simp only:)
qed

theorem migrations_resume_witness:
  "let s1 = snd (ref_run (ref_db\<lparr>md_fate := ref_lost\<rparr>)); s2 = snd (ref_run (s1\<lparr>md_fate := \<lambda>_. Works\<rparr>))
   in plan ref_sql (\<lambda>_. False) (sort_key en_name ref_files) ([], []) = Inr (mig_view s2) \<and>
     mig_view (snd (ref_run (s2\<lparr>md_fate := ref_lost\<rparr>))) = mig_view s2"
proof -
  let ?run = "RunMigrations ref_sql (\<lambda>_. False) (\<lambda>d. d = ''m'') None (\<lambda>_. Inr ref_files) ''m''"
  let ?s1 = "snd (?run (ref_db\<lparr>md_fate := ref_lost\<rparr>))"
  let ?s2 = "snd (?run (?s1\<lparr>md_fate := \<lambda>_. Works\<rparr>))"
  have "fst (?run (?s1\<lparr>md_fate := \<lambda>_. Works\<rparr>)) = Inr ()" by code_simp
  then have fin: "?run (?s1\<lparr>md_fate := \<lambda>_. Works\<rparr>) = (Inr (), ?s2)" by (metis prod.collapse)
  have "(\<lambda>s t. \<exists>fate r. ?run (s\<lparr>md_fate := fate\<rparr>) = (r, t))\<^sup>*\<^sup>* ref_db ?s1"
    by (rule r_into_rtranclp) (metis prod.collapse)
  from migrations_resume [OF ref_dir refl this fin, of ref_lost]
  have "plan ref_sql (\<lambda>_. False) (sort_key en_name ref_files) (mig_view ref_db) = Inr (mig_view ?s2)"
    "mig_view (snd (?run (?s2\<lparr>md_fate := ref_lost\<rparr>))) = mig_view ?s2" by blast+
  moreover have "mig_view ref_db = ([], [])" by (simp add: mig_view_def ref_db_def)
  ultimately show ?thesis by (simp only: Let_def ref_run_def simp_thms)
qed

theorem migrations_complete_witness:
  "\<exists>s'. ref_run ref_db = (Inr (), s') \<and> mig_view s' = ([''A'', ''B''], [''1.sql'', ''2.sql''])"
proof -
  have db_calm: "db_calm ref_db" by (simp add: db_calm_def ref_db_def)
  have "plan ref_sql (\<lambda>_. False) (sort_key en_name ref_files) ([], []) = Inr ([''A'', ''B''], [''1.sql'', ''2.sql''])"
    unfolding ref_sorted by code_simp
  moreover have "mig_view ref_db = ([], [])" by (simp add: mig_view_def ref_db_def)
  ultimately show ?thesis
    using migrations_complete [where ReadDir = "\<lambda>_. Inr ref_files" and sql = ref_sql and legacy = "\<lambda>_. False",
        OF ref_dir refl db_calm]
    unfolding ref_run_def by (auto simp only: sum.case)
qed

section \<open>Two servers at once\<close>

text \<open>
  The table is read once, before the scripts, and nothing locks it: a second server that read it
  too early runs the scripts of the first again, and is told that all is well.
\<close>

lemma stale_run_repeats:
  assumes "db_calm s" "md_recorded s = Some ns" "n \<in> set ns" "sql up (md_rest s) = Some d'"
  shows "\<exists>t. applyMigration sql n up s = (Inr (), t) \<and> md_rest t = d' \<and> md_recorded t = Some ns"
  using assms
  by (auto simp add: applyMigration_def recordMigration_def statement_def Commit_def Let_def tryE_def caseE_def db_calmD)


end
