(* ===== verification/Stun.thy ===== *)
theory Stun
  imports NetIP Errors
begin

unbundle bit_operations_syntax

text \<open>
  The wire format of \<open>internal/punch/service.go\<close>: STUN binding requests and the parser of binding
  responses. A packet is a list of bytes. Reading a byte_slice or an index out of range is a panic in
  Go and the value \<open>Inl (Panic ...)\<close> here, so that the absence of panics is a theorem and not an
  assumption of the model.
\<close>

section \<open>Reading bytes\<close>

type_synonym byte = "8 word"

definition bind :: "'e + 'a \<Rightarrow> ('a \<Rightarrow> 'e + 'b) \<Rightarrow> 'e + 'b" where
  "bind m k = (case m of Inl e \<Rightarrow> Inl e | Inr x \<Rightarrow> k x)"

lemma bind_simps [simp]: "bind (Inl e) k = Inl e" "bind (Inr x) k = k x"
  by (simp_all add: bind_def)

lemma bind_cong [fundef_cong]:
  "m = m' \<Longrightarrow> (\<And>x. m' = Inr x \<Longrightarrow> k x = k' x) \<Longrightarrow> bind m k = bind m' k'"
  by (simp add: bind_def split: sum.splits)

definition byte_slice :: "'a list \<Rightarrow> nat \<Rightarrow> nat \<Rightarrow> goerr + 'a list" where
  "byte_slice xs a b =
     (if a \<le> b \<and> b \<le> length xs then Inr (take (b - a) (drop a xs))
      else Inl (Panic ''slice bounds out of range''))"

definition byte_index :: "'a list \<Rightarrow> nat \<Rightarrow> goerr + 'a" where
  "byte_index xs i = (if i < length xs then Inr (xs ! i) else Inl (Panic ''index out of range''))"

text \<open>\<open>binary.BigEndian\<close>.\<close>

definition be16 :: "byte \<Rightarrow> byte \<Rightarrow> 16 word" where
  "be16 a b = push_bit 8 (ucast a) OR ucast b"

definition be32 :: "byte \<Rightarrow> byte \<Rightarrow> byte \<Rightarrow> byte \<Rightarrow> 32 word" where
  "be32 a b c d = push_bit 24 (ucast a) OR push_bit 16 (ucast b) OR push_bit 8 (ucast c) OR ucast d"

definition Uint16 :: "byte list \<Rightarrow> goerr + 16 word" where
  "Uint16 bs = (case bs of a # b # _ \<Rightarrow> Inr (be16 a b) | _ \<Rightarrow> Inl (Panic ''index out of range''))"

definition Uint32 :: "byte list \<Rightarrow> goerr + 32 word" where
  "Uint32 bs = (case bs of a # b # c # d # _ \<Rightarrow> Inr (be32 a b c d) | _ \<Rightarrow> Inl (Panic ''index out of range''))"

definition PutUint16 :: "16 word \<Rightarrow> byte list" where
  "PutUint16 w = [ucast (drop_bit 8 w), ucast w]"

definition PutUint32 :: "32 word \<Rightarrow> byte list" where
  "PutUint32 w = [ucast (drop_bit 24 w), ucast (drop_bit 16 w), ucast (drop_bit 8 w), ucast w]"

section \<open>Messages\<close>

definition bindingRequest :: "16 word" where "bindingRequest = 0x0001"
definition bindingSuccess :: "16 word" where "bindingSuccess = 0x0101"
definition attrMappedAddr :: "16 word" where "attrMappedAddr = 0x0001"
definition attrXORMapped :: "16 word" where "attrXORMapped = 0x0020"
definition stunMagicCookie :: "32 word" where "stunMagicCookie = 0x2112A442"

text \<open>\<open>tid\<close> is what \<open>crypto/rand\<close> filled in.\<close>

definition bindingRequestPacket :: "byte list \<Rightarrow> byte list" where
  "bindingRequestPacket tid = PutUint16 bindingRequest @ PutUint16 0 @ PutUint32 stunMagicCookie @ tid"

definition parseAddressAttribute :: "16 word \<Rightarrow> byte list \<Rightarrow> goerr + string option" where
  "parseAddressAttribute attrType value =
     (if length value < 8 then Inr None
      else
        bind (byte_index value 1) (\<lambda>family.
        if family \<noteq> 0x01 then Inr None
        else
          bind (bind (byte_slice value 2 4) Uint16) (\<lambda>port.
          bind (bind (byte_slice value 4 8) Uint32) (\<lambda>ipRaw.
          if attrType = attrXORMapped then
            Inr (Some (JoinHostPort (ip4_string (ipRaw XOR stunMagicCookie))
              (decimal (unat (port XOR ucast (drop_bit 16 stunMagicCookie))))))
          else if attrType = attrMappedAddr then
            Inr (Some (JoinHostPort (ip4_string ipRaw) (decimal (unat port))))
          else Inr None))))"

text \<open>The loop over the attributes; each starts at a multiple of four.\<close>

definition align4 :: "nat \<Rightarrow> nat" where
  "align4 offset = (let rem = offset mod 4 in if rem \<noteq> 0 then offset + (4 - rem) else offset)"

function attr_loop :: "byte list \<Rightarrow> nat \<Rightarrow> nat \<Rightarrow> goerr + string option" where
  "attr_loop packet limit offset =
     (if offset + 4 \<le> limit then
        bind (bind (byte_slice packet offset (offset + 2)) Uint16) (\<lambda>attrType.
        bind (bind (byte_slice packet (offset + 2) (offset + 4)) Uint16) (\<lambda>attrLen.
        let valueStart = offset + 4; valueEnd = valueStart + unat attrLen in
        if valueEnd > limit then Inr None
        else
          bind (byte_slice packet valueStart valueEnd) (\<lambda>value.
          bind (parseAddressAttribute attrType value) (\<lambda>found.
          case found of
            Some endpoint \<Rightarrow> Inr (Some endpoint)
          | None \<Rightarrow> attr_loop packet limit (align4 valueEnd)))))
      else Inr None)"
  by pat_completeness auto
termination
  by (relation "measure (\<lambda>(packet, limit, offset). limit - offset)") (auto simp add: align4_def Let_def)

declare attr_loop.simps [simp del]

definition parseBindingResponse :: "byte list \<Rightarrow> goerr + (byte list \<times> string) option" where
  "parseBindingResponse packet =
     (if length packet < 20 then Inr None
      else
        bind (bind (byte_slice packet 0 2) Uint16) (\<lambda>kind.
        if kind \<noteq> bindingSuccess then Inr None
        else
          bind (bind (byte_slice packet 4 8) Uint32) (\<lambda>cookie.
          if cookie \<noteq> stunMagicCookie then Inr None
          else
            bind (bind (byte_slice packet 2 4) Uint16) (\<lambda>len.
            let msgLen = unat len in
            if msgLen + 20 > length packet then Inr None
            else
              bind (byte_slice packet 8 20) (\<lambda>transactionID.
              bind (attr_loop packet (20 + msgLen) 20) (\<lambda>found.
              Inr (map_option (Pair transactionID) found)))))))"

section \<open>Bytes of words\<close>

lemma be16_Put: "be16 (ucast (drop_bit 8 w)) (ucast w) = w"
  by (rule bit_word_eqI) (auto simp add: be16_def bit_simps)

lemma be32_Put: "be32 (ucast (drop_bit 24 w)) (ucast (drop_bit 16 w)) (ucast (drop_bit 8 w)) (ucast w) = w"
proof (rule bit_word_eqI)
  fix n
  assume "n < LENGTH(32)"
  then have n: "n < 32" by simp
  consider "n < 8" | "8 \<le> n" "n < 16" | "16 \<le> n" "n < 24" | "24 \<le> n" by linarith
  then show "bit (be32 (ucast (drop_bit 24 w)) (ucast (drop_bit 16 w)) (ucast (drop_bit 8 w)) (ucast w)) n = bit w n"
    using n by cases (auto simp add: be32_def bit_simps)
qed

lemma Uint16_Put [simp]: "Uint16 (PutUint16 w @ bs) = Inr w"
  by (simp add: Uint16_def PutUint16_def be16_Put)

lemma Uint32_Put [simp]: "Uint32 (PutUint32 w @ bs) = Inr w"
  by (simp add: Uint32_def PutUint32_def be32_Put)

lemmas Uint_Put [simp] = Uint16_Put [of w "[]" for w, simplified] Uint32_Put [of w "[]" for w, simplified]

lemma length_Put [simp]: "length (PutUint16 w) = 2" "length (PutUint32 v) = 4"
  by (simp_all add: PutUint16_def PutUint32_def)

lemma slice_at:
  "length xs = a \<Longrightarrow> length ys = b - a \<Longrightarrow> a \<le> b \<Longrightarrow> byte_slice (xs @ ys @ zs) a b = Inr ys"
  by (simp add: byte_slice_def)

lemma slice_ok: "a \<le> b \<Longrightarrow> b \<le> length xs \<Longrightarrow> \<exists>ys. byte_slice xs a b = Inr ys \<and> length ys = b - a"
  by (simp add: byte_slice_def)

lemma Uint16_ok: "2 \<le> length bs \<Longrightarrow> \<exists>w. Uint16 bs = Inr w"
  by (auto simp add: Uint16_def Suc_le_length_iff numeral_2_eq_2 split: list.splits)

lemma Uint32_ok: "4 \<le> length bs \<Longrightarrow> \<exists>w. Uint32 bs = Inr w"
  by (auto simp add: Uint32_def Suc_le_length_iff numeral_eq_Suc split: list.splits)

section \<open>No read is out of range\<close>

lemma slice_bind_ok:
  assumes "a \<le> b" "b \<le> length xs" and "\<And>ys. length ys = b - a \<Longrightarrow> \<exists>y. bind (f ys) k = Inr y"
  shows "\<exists>y. bind (bind (byte_slice xs a b) f) k = Inr y"
  using slice_ok [OF assms(1,2)] assms(3) by auto

lemma bind_Uint_ok:
  "2 \<le> length bs \<Longrightarrow> (\<And>w. \<exists>y. k w = Inr y) \<Longrightarrow> \<exists>y. bind (Uint16 bs) k = Inr y"
  "4 \<le> length bs \<Longrightarrow> (\<And>v. \<exists>y. h v = Inr y) \<Longrightarrow> \<exists>y. bind (Uint32 bs) h = Inr y"
  using Uint16_ok [of bs] Uint32_ok [of bs] by auto

lemma parseAddressAttribute_ok: "\<exists>r. parseAddressAttribute t value = Inr r"
proof (cases "length value < 8")
  case True
  then show ?thesis by (simp add: parseAddressAttribute_def)
next
  case False
  then have "byte_index value 1 = Inr (value ! 1)" by (simp add: byte_index_def)
  with False show ?thesis
    unfolding parseAddressAttribute_def by (auto intro!: slice_bind_ok bind_Uint_ok)
qed

lemma attr_loop_ok: "limit \<le> length packet \<Longrightarrow> \<exists>r. attr_loop packet limit offset = Inr r"
proof (induction packet limit offset rule: attr_loop.induct)
  case (1 packet limit offset)
  show ?case
  proof (cases "offset + 4 \<le> limit")
    case False
    then show ?thesis by (simp add: attr_loop.simps)
  next
    case True
    with "1.prems" obtain bs cs where s: "byte_slice packet offset (offset + 2) = Inr bs"
      "byte_slice packet (offset + 2) (offset + 4) = Inr cs" "length bs = 2" "length cs = 2"
      using slice_ok [of offset "offset + 2" packet] slice_ok [of "offset + 2" "offset + 4" packet] by auto
    then obtain t n where u: "Uint16 bs = Inr t" "Uint16 cs = Inr n"
      using Uint16_ok [of bs] Uint16_ok [of cs] by auto
    let ?stop = "offset + 4 + unat n"
    show ?thesis
    proof (cases "?stop > limit")
      case True
      with s u \<open>offset + 4 \<le> limit\<close> show ?thesis by (subst attr_loop.simps) simp
    next
      case False
      with "1.prems" obtain vs where v: "byte_slice packet (offset + 4) ?stop = Inr vs"
        using slice_ok [of "offset + 4" ?stop packet] by auto
      obtain r where r: "parseAddressAttribute t vs = Inr r" using parseAddressAttribute_ok by blast
      have "\<exists>r'. attr_loop packet limit (align4 ?stop) = Inr r'" if "r = None"
        by (rule "1.IH" [of t n "offset + 4" ?stop vs r]) (use True False s u v r that "1.prems" in simp_all)
      with s u v r True False show ?thesis by (subst attr_loop.simps) (auto split: option.splits)
    qed
  qed
qed

section \<open>Messages written by a server\<close>

text \<open>
  The other side of the protocol, from RFC 5389: a binding success with a list of attributes, each
  filled up to a multiple of four bytes.
\<close>

definition pad4 :: "nat \<Rightarrow> nat" where
  "pad4 n = (if n mod 4 = 0 then 0 else 4 - n mod 4)"

fun stun_attribute :: "16 word \<times> byte list \<Rightarrow> byte list" where
  "stun_attribute (t, v) = PutUint16 t @ PutUint16 (of_nat (length v)) @ v @ replicate (pad4 (length v)) 0"

definition stun_attributes :: "(16 word \<times> byte list) list \<Rightarrow> byte list" where
  "stun_attributes attrs = concat (map stun_attribute attrs)"

definition stun_success :: "byte list \<Rightarrow> (16 word \<times> byte list) list \<Rightarrow> byte list" where
  "stun_success tid attrs =
     PutUint16 bindingSuccess @ PutUint16 (of_nat (length (stun_attributes attrs))) @
     PutUint32 stunMagicCookie @ tid @ stun_attributes attrs"

definition mapped_address :: "32 word \<Rightarrow> 16 word \<Rightarrow> 16 word \<times> byte list" where
  "mapped_address ip port = (attrMappedAddr, [0, 1] @ PutUint16 port @ PutUint32 ip)"

definition xor_mapped_address :: "32 word \<Rightarrow> 16 word \<Rightarrow> 16 word \<times> byte list" where
  "xor_mapped_address ip port =
     (attrXORMapped, [0, 1] @ PutUint16 (port XOR 0x2112) @ PutUint32 (ip XOR stunMagicCookie))"

fun first_address :: "(16 word \<times> byte list) list \<Rightarrow> string option" where
  "first_address [] = None"
| "first_address ((t, v) # attrs) =
     (case parseAddressAttribute t v of Inr (Some endpoint) \<Rightarrow> Some endpoint | _ \<Rightarrow> first_address attrs)"

lemma align4_add: "n mod 4 = 0 \<Longrightarrow> align4 (n + m) = n + m + pad4 m"
  by (simp add: align4_def pad4_def Let_def mod_add_eq [of n 4 m, symmetric])

lemma mod_pad4: "(m + pad4 m) mod 4 = 0"
  unfolding pad4_def by presburger

lemma length_stun_attribute [simp]: "length (stun_attribute (t, v)) = 4 + length v + pad4 (length v)"
  by simp

lemma attr_loop_attributes:
  assumes "length pre mod 4 = 0" "\<forall>(t, v) \<in> set attrs. length v < 2 ^ 16"
  shows "attr_loop (pre @ stun_attributes attrs @ post) (length pre + length (stun_attributes attrs)) (length pre) =
     Inr (first_address attrs)"
  using assms
proof (induction attrs arbitrary: pre)
  case Nil
  then show ?case by (simp add: attr_loop.simps stun_attributes_def)
next
  case (Cons a attrs)
  obtain t v where a: "a = (t, v)" by force
  let ?o = "length pre" and ?rest = "stun_attributes attrs" and ?pad = "replicate (pad4 (length v)) (0 :: byte)"
  let ?packet = "pre @ stun_attributes (a # attrs) @ post"
  have packet: "?packet = pre @ PutUint16 t @ PutUint16 (of_nat (length v)) @ v @ ?pad @ ?rest @ post"
    by (simp add: stun_attributes_def a)
  have len: "length (stun_attributes (a # attrs)) = 4 + length v + pad4 (length v) + length ?rest"
    by (simp add: stun_attributes_def a)
  have sl: "byte_slice ?packet ?o (?o + 2) = Inr (PutUint16 t)"
    "byte_slice ?packet (?o + 2) (?o + 4) = Inr (PutUint16 (of_nat (length v)))"
    "byte_slice ?packet (?o + 4) (?o + 4 + length v) = Inr v"
    unfolding packet
    using slice_at [of pre ?o "PutUint16 t" "?o + 2"]
      slice_at [of "pre @ PutUint16 t" "?o + 2" "PutUint16 (of_nat (length v))" "?o + 4"]
      slice_at [of "pre @ PutUint16 t @ PutUint16 (of_nat (length v))" "?o + 4" v "?o + 4 + length v"]
    by simp_all
  have n: "unat (of_nat (length v) :: 16 word) = length v"
    using Cons.prems(2) a by (simp add: unat_of_nat)
  let ?pre = "pre @ stun_attribute a"
  have al: "align4 (?o + 4 + length v) = length ?pre"
    using align4_add [of "?o + 4" "length v"] Cons.prems(1) a by simp
  have pre: "length ?pre mod 4 = 0"
  proof -
    have "length ?pre = ?o + 4 + (length v + pad4 (length v))" by (simp add: a)
    then show ?thesis using Cons.prems(1) mod_pad4 [of "length v"] by presburger
  qed
  have IH: "attr_loop ?packet (length ?pre + length ?rest) (length ?pre) = Inr (first_address attrs)"
    using Cons.IH [OF pre] Cons.prems(2) by (simp add: stun_attributes_def)
  have lim: "?o + length (stun_attributes (a # attrs)) = length ?pre + length ?rest" unfolding len by (simp add: a)
  obtain r where r: "parseAddressAttribute t v = Inr r" using parseAddressAttribute_ok by blast
  show ?case
    unfolding lim
    by (subst attr_loop.simps) (use sl n r al IH a len in \<open>auto simp add: Let_def split: option.splits\<close>)
qed

lemma parseBindingResponse_success:
  assumes tid: "length tid = 12" and short: "length (stun_attributes attrs) < 2 ^ 16"
    and vals: "\<forall>(t, v) \<in> set attrs. length v < 2 ^ 16"
  shows "parseBindingResponse (stun_success tid attrs @ post) = Inr (map_option (Pair tid) (first_address attrs))"
proof -
  let ?body = "stun_attributes attrs"
  let ?head = "PutUint16 bindingSuccess @ PutUint16 (of_nat (length ?body)) @ PutUint32 stunMagicCookie @ tid"
  let ?packet = "stun_success tid attrs @ post"
  have sl: "byte_slice ?packet 0 2 = Inr (PutUint16 bindingSuccess)"
    "byte_slice ?packet 2 4 = Inr (PutUint16 (of_nat (length ?body)))"
    "byte_slice ?packet 4 8 = Inr (PutUint32 stunMagicCookie)" "byte_slice ?packet 8 20 = Inr tid"
    using slice_at [of "[]" 0 "PutUint16 bindingSuccess" 2]
      slice_at [of "PutUint16 bindingSuccess" 2 "PutUint16 (of_nat (length ?body))" 4]
      slice_at [of "PutUint16 bindingSuccess @ PutUint16 (of_nat (length ?body))" 4 "PutUint32 stunMagicCookie" 8]
      slice_at [of "PutUint16 bindingSuccess @ PutUint16 (of_nat (length ?body)) @ PutUint32 stunMagicCookie" 8 tid 20]
      tid
    by (simp_all add: stun_success_def)
  have n: "unat (of_nat (length ?body) :: 16 word) = length ?body" using short by (simp add: unat_of_nat)
  have head: "length ?head = 20" using tid by simp
  have "attr_loop (?head @ ?body @ post) (20 + length ?body) 20 = Inr (first_address attrs)"
    using attr_loop_attributes [OF _ vals, of ?head post] head by simp
  then have "attr_loop ?packet (20 + length ?body) 20 = Inr (first_address attrs)" by (simp add: stun_success_def)
  moreover have "20 + length ?body \<le> length ?packet" using tid by (simp add: stun_success_def)
  ultimately show ?thesis using sl n by (simp add: parseBindingResponse_def)
qed

lemma parse_mapped_address:
  "mapped_address ip port = (t, v) \<Longrightarrow>
     parseAddressAttribute t v = Inr (Some (JoinHostPort (ip4_string ip) (decimal (unat port))))"
  "xor_mapped_address ip port = (t, v) \<Longrightarrow>
     parseAddressAttribute t v = Inr (Some (JoinHostPort (ip4_string ip) (decimal (unat port))))"
proof -
  have sl: "byte_slice ([0, 1] @ PutUint16 p @ PutUint32 w) 2 4 = Inr (PutUint16 p)"
    "byte_slice ([0, 1] @ PutUint16 p @ PutUint32 w) 4 8 = Inr (PutUint32 w)"
    "byte_index ([0, 1] @ PutUint16 p @ PutUint32 w) 1 = Inr 1" for p w
    by (simp_all add: byte_slice_def byte_index_def PutUint16_def PutUint32_def)
  have x: "ucast (drop_bit 16 stunMagicCookie) = (0x2112 :: 16 word)" by (simp add: stunMagicCookie_def)
  have c: "(p XOR 0x2112) XOR 0x2112 = p" "(w XOR stunMagicCookie) XOR stunMagicCookie = w" for p :: "16 word" and w
    by (simp_all add: xor.assoc)
  show "mapped_address ip port = (t, v) \<Longrightarrow>
     parseAddressAttribute t v = Inr (Some (JoinHostPort (ip4_string ip) (decimal (unat port))))"
    using sl by (auto simp add: mapped_address_def parseAddressAttribute_def attrMappedAddr_def attrXORMapped_def)
  show "xor_mapped_address ip port = (t, v) \<Longrightarrow>
     parseAddressAttribute t v = Inr (Some (JoinHostPort (ip4_string ip) (decimal (unat port))))"
    using sl by (auto simp add: xor_mapped_address_def parseAddressAttribute_def x c)
qed

text \<open>
  C26: what a STUN server writes is what the proxy reads. A binding success whose first address
  attribute is \<open>XOR-MAPPED-ADDRESS\<close> or \<open>MAPPED-ADDRESS\<close> for an IPv4 address and a port, behind any
  attributes of other kinds (each filled up to four bytes), and with anything after the message in
  the datagram, parses to its transaction id and to that address and port as \<open>host:port\<close>.
\<close>

theorem stun_address_roundtrip:
  assumes tid: "length tid = 12" and attrs: "attrs = others @ a # rest"
    and a: "a = xor_mapped_address ip port \<or> a = mapped_address ip port"
    and others: "first_address others = None"
    and fits: "length (stun_attributes attrs) < 2 ^ 16" "\<forall>(t, v) \<in> set attrs. length v < 2 ^ 16"
  shows "parseBindingResponse (stun_success tid attrs @ post) =
     Inr (Some (tid, JoinHostPort (ip4_string ip) (decimal (unat port))))"
proof -
  obtain t v where tv: "a = (t, v)" by force
  have "parseAddressAttribute t v = Inr (Some (JoinHostPort (ip4_string ip) (decimal (unat port))))"
    using a parse_mapped_address [of ip port t v] unfolding tv by (elim disjE) (simp_all add: eq_commute)
  then have "first_address (others @ a # rest) = Some (JoinHostPort (ip4_string ip) (decimal (unat port)))"
    using others by (induction others rule: first_address.induct) (auto simp add: tv split: sum.splits option.splits)
  then show ?thesis using parseBindingResponse_success [OF tid fits] attrs by simp
qed

text \<open>A software attribute of ten bytes in front of the address.\<close>

theorem stun_address_roundtrip_witness:
  "parseBindingResponse (stun_success (replicate 12 7)
      [(0x8022, [1, 2, 3, 4, 5, 6, 7, 8, 9, 10]), xor_mapped_address 0xC0A80105 443] @ [0, 0]) =
     Inr (Some (replicate 12 7, ''192.168.1.5:443''))"
proof -
  let ?soft = "(0x8022, [1, 2, 3, 4, 5, 6, 7, 8, 9, 10]) :: 16 word \<times> byte list"
  let ?attrs = "[?soft] @ xor_mapped_address 0xC0A80105 443 # []"
  have none: "first_address [?soft] = None" by code_simp
  have size: "length (stun_attributes ?attrs) < 2 ^ 16" "\<forall>(t, v) \<in> set ?attrs. length v < 2 ^ 16"
    by (simp_all add: stun_attributes_def xor_mapped_address_def pad4_def)
  have printed: "JoinHostPort (ip4_string 0xC0A80105) (decimal (unat (443 :: 16 word))) = ''192.168.1.5:443''"
    by code_simp
  show ?thesis
    using stun_address_roundtrip [OF _ refl disjI1 [OF refl] none size, of "replicate 12 7" "[0, 0]"] printed
    by simp
qed

text \<open>
  C27: no datagram whatsoever makes the parser of the proxy read outside the packet, so nobody who
  can reach the UDP port can crash the server with a malformed message.
\<close>

theorem stun_parser_never_panics: "\<exists>r. parseBindingResponse packet = Inr r"
proof (cases "length packet < 20")
  case True
  then show ?thesis by (simp add: parseBindingResponse_def)
next
  case False
  have "\<exists>y. bind (attr_loop packet (20 + n) 20) (\<lambda>found. Inr (map_option (Pair t) found)) = Inr y"
    if "n + 20 \<le> length packet" for n and t :: "byte list"
    using attr_loop_ok [of "20 + n" packet 20] that by auto
  with False show ?thesis
    unfolding parseBindingResponse_def Let_def
    by (auto intro!: slice_bind_ok bind_Uint_ok simp add: byte_slice_def)
qed

section \<open>WireGuard messages\<close>

text \<open>A WireGuard message starts with its type, 1 to 4, and three reserved zero bytes.\<close>

definition wireguard_message :: "byte list \<Rightarrow> bool" where
  "wireguard_message packet \<longleftrightarrow> (\<exists>t rest. packet = t # 0 # 0 # 0 # rest \<and> t \<in> {1, 2, 3, 4})"

lemma wireguard_not_stun:
  assumes "wireguard_message packet"
  shows "parseBindingResponse packet = Inr None"
proof -
  obtain t rest where p: "packet = t # 0 # 0 # 0 # rest" using assms by (auto simp add: wireguard_message_def)
  have "\<not> bit (be16 t 0) 0" by (simp add: be16_def bit_simps)
  moreover have "bit bindingSuccess 0" by (simp add: bindingSuccess_def)
  ultimately have "be16 t 0 \<noteq> bindingSuccess" by metis
  then show ?thesis by (auto simp add: parseBindingResponse_def p byte_slice_def Uint16_def)
qed

end
