(* ===== verification/Punch.thy ===== *)
theory Punch
  imports Prelude Stun Transitions
begin

text \<open>
  \<open>internal/punch/service.go\<close>: the UDP proxy in front of WireGuard. Its state is the endpoint, the
  probes that wait for an answer and the sessions of the clients; the sockets of the sessions are
  numbers, drawn in order. A UDP address is the text its \<open>String\<close> prints. What the operating system
  answers to one call, and the time, are arguments. Each critical section is one step; the
  goroutines that read sockets are the steps of \<open>punch_step\<close>.
\<close>

section \<open>State\<close>

record session =
  se_external :: string
  se_conn :: nat
  se_last_seen :: int

text \<open>
  A pending probe is a channel with room for one result. \<open>pu_open\<close> are the sockets that are open
  and \<open>pu_readers\<close> those with a goroutine in \<open>readFromWireGuard\<close>.
\<close>

record punch =
  pu_endpoint :: string
  pu_pending :: "byte list \<rightharpoonup> string option"
  pu_sessions :: "string \<rightharpoonup> session"
  pu_open :: "nat set"
  pu_readers :: "nat set"
  pu_next :: nat

text \<open>The socket the proxy listens on for clients and STUN servers.\<close>

definition main_sock :: nat where "main_sock = 0"

text \<open>What the calls of one step answer: the time, the error of \<open>ListenUDP\<close>, the error of a write.\<close>

record io =
  io_now :: int
  io_listen :: "goerr option"
  io_write :: "goerr option"

text \<open>A datagram that was sent: from which socket, what, to which address.\<close>

type_synonym datagram = "nat \<times> byte list \<times> string"

section \<open>Configuration\<close>

record punch_config =
  pc_listen_port :: int
  pc_wireguard_host :: string
  pc_wireguard_port :: int
  pc_stun_servers :: "string list"
  pc_probe_timeout :: int
  pc_keepalive_interval :: int

definition isLocalHost :: "string \<Rightarrow> bool" where
  "isLocalHost host \<longleftrightarrow> host = ''127.0.0.1'' \<or> host = ''localhost'' \<or> host = ''::1''"

definition second :: int where "second = 1000000000"

text \<open>The checks and defaults of \<open>Start\<close>.\<close>

definition check_config :: "punch_config \<Rightarrow> goerr + punch_config" where
  "check_config cfg =
     (if pc_listen_port cfg \<le> 0 then Inl (ErrorString ''punch listen port is required'')
      else
        let cfg1 = (if pc_wireguard_host cfg = '''' then cfg\<lparr>pc_wireguard_host := ''127.0.0.1''\<rparr> else cfg) in
        if pc_wireguard_port cfg1 \<le> 0 then Inl (ErrorString ''punch WireGuard upstream port is required'')
        else if pc_listen_port cfg1 = pc_wireguard_port cfg1 \<and> isLocalHost (pc_wireguard_host cfg1)
        then Inl (ErrorString ''punch listen port must differ from local WireGuard port'')
        else if pc_stun_servers cfg1 = [] then Inl (ErrorString ''at least one mainland STUN server is required'')
        else
          let cfg2 = (if pc_probe_timeout cfg1 \<le> 0 then cfg1\<lparr>pc_probe_timeout := 5 * second\<rparr> else cfg1) in
          Inr (if pc_keepalive_interval cfg2 \<le> 0 then cfg2\<lparr>pc_keepalive_interval := 20 * second\<rparr> else cfg2))"

definition new_service :: punch where
  "new_service = \<lparr>pu_endpoint = '''', pu_pending = Map.empty, pu_sessions = Map.empty, pu_open = {main_sock},
     pu_readers = {}, pu_next = main_sock + 1\<rparr>"

section \<open>Packets from outside\<close>

definition handleSTUN :: "byte list \<Rightarrow> (punch, goerr, bool) op" where
  "handleSTUN packet = (\<lambda>s.
     case parseBindingResponse packet of
       Inl e \<Rightarrow> (Inl e, s)
     | Inr None \<Rightarrow> (Inr False, s)
     | Inr (Some (transactionID, endpoint)) \<Rightarrow>
         (case pu_pending s transactionID of
            Some None \<Rightarrow> (Inr True, s\<lparr>pu_pending := (pu_pending s)(transactionID \<mapsto> Some endpoint)\<rparr>)
          | _ \<Rightarrow> (Inr True, s)))"

text \<open>
  The second critical section of \<open>sessionFor\<close>: a session that another goroutine made in the
  meantime wins, and the new socket is closed again.
\<close>

definition sessionFor_insert :: "string \<Rightarrow> session \<Rightarrow> (punch, goerr, session) op" where
  "sessionFor_insert key sess = (\<lambda>s.
     case pu_sessions s key of
       Some existing \<Rightarrow> (Inr existing, s\<lparr>pu_open := pu_open s - {se_conn sess}\<rparr>)
     | None \<Rightarrow> (Inr sess, s\<lparr>pu_sessions := (pu_sessions s)(key \<mapsto> sess),
                 pu_readers := insert (se_conn sess) (pu_readers s)\<rparr>))"

definition sessionFor :: "io \<Rightarrow> string \<Rightarrow> (punch, goerr, session) op" where
  "sessionFor io external = (\<lambda>s.
     case pu_sessions s external of
       Some sess \<Rightarrow>
         let sess' = sess\<lparr>se_last_seen := io_now io\<rparr>
         in (Inr sess', s\<lparr>pu_sessions := (pu_sessions s)(external \<mapsto> sess')\<rparr>)
     | None \<Rightarrow>
         (case io_listen io of
            Some err \<Rightarrow> (Inl err, s)
          | None \<Rightarrow>
              sessionFor_insert external
                \<lparr>se_external = external, se_conn = pu_next s, se_last_seen = io_now io\<rparr>
                (s\<lparr>pu_open := insert (pu_next s) (pu_open s), pu_next := pu_next s + 1\<rparr>)))"

text \<open>Both errors are only logged.\<close>

definition forwardToWireGuard :: "string \<Rightarrow> io \<Rightarrow> byte list \<Rightarrow> string \<Rightarrow> (punch, goerr, datagram list) op" where
  "forwardToWireGuard wgAddr io packet external =
     caseE (sessionFor io external) (\<lambda>_. ret [])
       (\<lambda>sess. if io_write io = None then ret [(se_conn sess, packet, wgAddr)] else ret [])"

text \<open>The body of \<open>readLoop\<close>.\<close>

definition handle_packet :: "string \<Rightarrow> io \<Rightarrow> byte list \<Rightarrow> string \<Rightarrow> (punch, goerr, datagram list) op" where
  "handle_packet wgAddr io packet remote =
     tryE (handleSTUN packet) (\<lambda>handled.
     if handled then ret [] else forwardToWireGuard wgAddr io packet remote)"

section \<open>Packets from WireGuard\<close>

text \<open>
  The body of \<open>readFromWireGuard\<close>: a failed write ends the goroutine, but leaves the session.
\<close>

definition readFromWireGuard :: "io \<Rightarrow> string \<Rightarrow> session \<Rightarrow> byte list \<Rightarrow> (punch, goerr, datagram list) op" where
  "readFromWireGuard io key sess packet = (\<lambda>s.
     if io_write io \<noteq> None then (Inr [], s\<lparr>pu_readers := pu_readers s - {se_conn sess}\<rparr>)
     else
       let sent = [(main_sock, packet, se_external sess)] in
       case pu_sessions s key of
         Some current \<Rightarrow>
           if se_conn current = se_conn sess
           then (Inr sent, s\<lparr>pu_sessions := (pu_sessions s)(key \<mapsto> current\<lparr>se_last_seen := io_now io\<rparr>)\<rparr>)
           else (Inr sent, s)
       | None \<Rightarrow> (Inr sent, s))"

section \<open>Idle sessions, closing\<close>

text \<open>Sessions that end are closed; their goroutines end with the next read.\<close>

definition drop_sessions :: "(session \<Rightarrow> bool) \<Rightarrow> punch \<Rightarrow> punch" where
  "drop_sessions P s =
     (let gone = {se_conn sess | key sess. pu_sessions s key = Some sess \<and> P sess}
      in s\<lparr>pu_sessions := (\<lambda>key. case pu_sessions s key of
              Some sess \<Rightarrow> if P sess then None else Some sess | None \<Rightarrow> None),
           pu_open := pu_open s - gone, pu_readers := pu_readers s - gone\<rparr>)"

definition cleanupIdleSessions :: "int \<Rightarrow> int \<Rightarrow> punch \<Rightarrow> punch" where
  "cleanupIdleSessions now maxIdle = drop_sessions (\<lambda>sess. se_last_seen sess < now - maxIdle)"

definition Close :: "punch \<Rightarrow> punch" where
  "Close s = (let s' = drop_sessions (\<lambda>_. True) s in s'\<lparr>pu_open := pu_open s' - {main_sock}\<rparr>)"

definition setEndpoint :: "string \<Rightarrow> punch \<Rightarrow> punch" where
  "setEndpoint ep s = s\<lparr>pu_endpoint := ep\<rparr>"

section \<open>Probing\<close>

text \<open>A datagram that arrives on the main socket while a probe waits.\<close>

type_synonym arrival = "io \<times> byte list \<times> string"

text \<open>
  The \<open>select\<close> of \<open>probeOne\<close>: the read loop handles what arrives, until the channel of the probe has
  a result or, when nothing more arrives in time, the timer fires.
\<close>

fun await :: "string \<Rightarrow> byte list \<Rightarrow> arrival list \<Rightarrow> (punch, goerr, string) op" where
  "await wgAddr tid arrivals s =
     (case pu_pending s tid of
        Some (Some endpoint) \<Rightarrow> (Inr endpoint, s)
      | _ \<Rightarrow>
          (case arrivals of
             [] \<Rightarrow> (Inl (ErrorString ''STUN probe timed out''), s)
           | (io, packet, remote) # rest \<Rightarrow>
               (case handle_packet wgAddr io packet remote s of
                  (Inl e, s') \<Rightarrow> (Inl e, s')
                | (Inr _, s') \<Rightarrow> await wgAddr tid rest s')))"

record probe =
  pr_resolve :: "goerr option"
  pr_rand :: "goerr option"
  pr_tid :: "byte list"
  pr_write :: "goerr option"
  pr_arrivals :: "arrival list"

definition probeOne :: "string \<Rightarrow> probe \<Rightarrow> (punch, goerr, string) op" where
  "probeOne wgAddr p = (\<lambda>s.
     case pr_resolve p of
       Some e \<Rightarrow> (Inl (Wrapped ''resolve STUN server'' e), s)
     | None \<Rightarrow>
         (case pr_rand p of
            Some e \<Rightarrow> (Inl e, s)
          | None \<Rightarrow>
              (let s1 = s\<lparr>pu_pending := (pu_pending s)(pr_tid p \<mapsto> None)\<rparr>;
                   (r, s2) = (case pr_write p of
                      Some e \<Rightarrow> (Inl (Wrapped ''send STUN binding request'' e), s1)
                    | None \<Rightarrow> await wgAddr (pr_tid p) (pr_arrivals p) s1)
               in (r, s2\<lparr>pu_pending := (pu_pending s2)(pr_tid p := None)\<rparr>))))"

text \<open>\<open>Probe\<close> asks the servers in turn; the error is the last one.\<close>

fun Probe_from :: "string \<Rightarrow> goerr option \<Rightarrow> probe list \<Rightarrow> (punch, goerr, string) op" where
  "Probe_from wgAddr lastErr [] =
     fail (case lastErr of None \<Rightarrow> ErrorString ''no STUN servers configured'' | Some e \<Rightarrow> e)"
| "Probe_from wgAddr lastErr (p # ps) =
     caseE (probeOne wgAddr p) (\<lambda>e. Probe_from wgAddr (Some e) ps) ret"

definition Probe :: "string \<Rightarrow> probe list \<Rightarrow> (punch, goerr, string) op" where
  "Probe wgAddr ps = Probe_from wgAddr None ps"

text \<open>\<open>Start\<close> without its goroutines, and one tick of \<open>keepaliveLoop\<close>.\<close>

definition Start :: "punch_config \<Rightarrow> goerr option \<Rightarrow> goerr option \<Rightarrow> string \<Rightarrow> probe list \<Rightarrow> goerr + punch \<times> string" where
  "Start cfg resolve listen wgAddr probes =
     (case check_config cfg of
        Inl e \<Rightarrow> Inl e
      | Inr _ \<Rightarrow>
          (case resolve of
             Some e \<Rightarrow> Inl (Wrapped ''resolve WireGuard upstream'' e)
           | None \<Rightarrow>
               (case listen of
                  Some e \<Rightarrow> Inl (Wrapped ''bind punch UDP port'' e)
                | None \<Rightarrow>
                    (case Probe wgAddr probes new_service of
                       (Inl e, _) \<Rightarrow> Inl e
                     | (Inr endpoint, s) \<Rightarrow> Inr (setEndpoint endpoint s, endpoint)))))"

definition keepalive :: "string \<Rightarrow> probe list \<Rightarrow> punch \<Rightarrow> punch" where
  "keepalive wgAddr probes s =
     (case Probe wgAddr probes s of (Inl _, s') \<Rightarrow> s' | (Inr endpoint, s') \<Rightarrow> setEndpoint endpoint s')"

end
