(* ===== verification/PunchProperties.thy ===== *)
theory PunchProperties
  imports Punch
begin

text \<open>
  The UDP proxy as a transition system: the sockets of its sessions are distinct, belong to one
  client each and are all that is open; traffic between a client and WireGuard goes through the
  client's own socket, unchanged; only an answer with a probe's own transaction id ends the probe.
\<close>

section \<open>Steps\<close>

inductive punch_step :: "string \<Rightarrow> punch \<Rightarrow> punch \<Rightarrow> bool" for wg where
  packet: "handle_packet wg io p remote s = (r, s') \<Longrightarrow> punch_step wg s s'"
| reply: "pu_sessions s key = Some sess \<Longrightarrow> se_conn sess \<in> pu_readers s \<Longrightarrow>
    readFromWireGuard io key sess p s = (r, s') \<Longrightarrow> punch_step wg s s'"
| cleanup: "punch_step wg s (cleanupIdleSessions now maxIdle s)"
| keepalive: "punch_step wg s (keepalive wg probes s)"
| closing: "punch_step wg s (Close s)"

definition punch_started :: "string \<Rightarrow> punch \<Rightarrow> bool" where
  "punch_started wg s \<longleftrightarrow> (\<exists>cfg resolve listen probes ep. Start cfg resolve listen wg probes = Inr (s, ep))"

section \<open>The invariant\<close>

definition session_ok :: "punch \<Rightarrow> string \<Rightarrow> session \<Rightarrow> bool" where
  "session_ok s key sess \<longleftrightarrow> se_external sess = key \<and> main_sock < se_conn sess \<and> se_conn sess < pu_next s \<and>
     se_conn sess \<in> pu_open s"

definition session_socks :: "punch \<Rightarrow> nat set" where
  "session_socks s = {se_conn sess | key sess. pu_sessions s key = Some sess}"

definition punch_ok :: "punch \<Rightarrow> bool" where
  "punch_ok s \<longleftrightarrow> (\<forall>key sess. pu_sessions s key = Some sess \<longrightarrow> session_ok s key sess) \<and>
     (\<forall>k l a b. pu_sessions s k = Some a \<longrightarrow> pu_sessions s l = Some b \<longrightarrow> se_conn a = se_conn b \<longrightarrow> k = l) \<and>
     pu_open s \<subseteq> insert main_sock (session_socks s) \<and> pu_readers s \<subseteq> session_socks s \<and> main_sock < pu_next s"

lemma punch_okD:
  assumes "punch_ok s" "pu_sessions s key = Some sess"
  shows "se_external sess = key" "main_sock < se_conn sess" "se_conn sess < pu_next s" "se_conn sess \<in> pu_open s"
  using assms by (auto simp add: punch_ok_def session_ok_def)

lemma punch_ok_frame [simp]:
  "punch_ok (s\<lparr>pu_pending := m\<rparr>) = punch_ok s" "punch_ok (s\<lparr>pu_endpoint := ep\<rparr>) = punch_ok s"
  by (simp_all add: punch_ok_def session_ok_def session_socks_def)

lemma sockI: "pu_sessions s k = Some v \<Longrightarrow> se_conn v \<in> session_socks s"
  by (auto simp add: session_socks_def)

lemma sockE:
  assumes "c \<in> session_socks s"
  obtains k v where "pu_sessions s k = Some v" "c = se_conn v"
  using assms by (auto simp add: session_socks_def)

text \<open>An update of a session that keeps its socket and its client.\<close>

lemma punch_ok_refresh:
  assumes ok: "punch_ok s" and sess: "pu_sessions s key = Some sess"
    and same: "se_conn sess' = se_conn sess" "se_external sess' = se_external sess"
  shows "punch_ok (s\<lparr>pu_sessions := (pu_sessions s)(key \<mapsto> sess')\<rparr>)"
proof -
  let ?s = "s\<lparr>pu_sessions := (pu_sessions s)(key \<mapsto> sess')\<rparr>"
  have "session_socks ?s = session_socks s"
  proof (intro equalityI subsetI)
    fix c
    assume "c \<in> session_socks ?s"
    then obtain k v where "pu_sessions ?s k = Some v" "c = se_conn v" by (rule sockE)
    then show "c \<in> session_socks s"
      using sockI [OF sess] sockI [of s k v] same(1) by (simp split: if_splits)
  next
    fix c
    assume "c \<in> session_socks s"
    then obtain k v where "pu_sessions s k = Some v" "c = se_conn v" by (rule sockE)
    then show "c \<in> session_socks ?s"
      using sess sockI [of ?s k v] sockI [of ?s key sess'] same(1) by (cases "k = key") simp_all
  qed
  then show ?thesis using ok sess same unfolding punch_ok_def session_ok_def by auto
qed

lemma new_service_ok: "punch_ok new_service"
  by (simp add: punch_ok_def new_service_def session_socks_def main_sock_def)

lemma handleSTUN_ok: "preserves punch_ok (handleSTUN packet)"
  by (simp add: preserves_def handleSTUN_def split: sum.splits option.splits)

text \<open>A new session on a fresh socket.\<close>

lemma punch_ok_new:
  assumes ok: "punch_ok s" and new: "pu_sessions s key = None"
    and s': "s' = s\<lparr>pu_open := insert (pu_next s) (pu_open s), pu_next := pu_next s + 1,
      pu_sessions := (pu_sessions s)(key \<mapsto> \<lparr>se_external = key, se_conn = pu_next s, se_last_seen = t\<rparr>),
      pu_readers := insert (pu_next s) (pu_readers s)\<rparr>"
  shows "punch_ok s'"
proof -
  have "session_socks s' = insert (pu_next s) (session_socks s)"
  proof (intro equalityI subsetI)
    fix c
    assume "c \<in> session_socks s'"
    then obtain k v where "pu_sessions s' k = Some v" "c = se_conn v" by (rule sockE)
    then show "c \<in> insert (pu_next s) (session_socks s)"
      using sockI [of s k v] by (auto simp add: s' split: if_splits)
  next
    fix c
    assume "c \<in> insert (pu_next s) (session_socks s)"
    then consider "c = pu_next s" | k v where "pu_sessions s k = Some v" "c = se_conn v" by (auto elim: sockE)
    then show "c \<in> session_socks s'"
    proof cases
      case 1
      have "pu_sessions s' key = Some \<lparr>se_external = key, se_conn = pu_next s, se_last_seen = t\<rparr>" by (simp add: s')
      from sockI [OF this] 1 show ?thesis by simp
    next
      case 2
      with new have "pu_sessions s' k = Some v" by (auto simp add: s')
      from sockI [OF this] 2 show ?thesis by simp
    qed
  qed
  moreover have "se_conn v \<noteq> pu_next s \<and> pu_next s \<noteq> se_conn v" if "pu_sessions s k = Some v" for k v
    using punch_okD(3) [OF ok that] by simp
  ultimately show ?thesis
    using ok unfolding punch_ok_def session_ok_def by (auto simp add: s' less_Suc_eq)
qed

lemma sessionFor_new:
  assumes "pu_sessions s key = None" "io_listen io = None"
  shows "sessionFor io key s = (Inr \<lparr>se_external = key, se_conn = pu_next s, se_last_seen = io_now io\<rparr>,
     s\<lparr>pu_open := insert (pu_next s) (pu_open s), pu_next := pu_next s + 1,
      pu_sessions := (pu_sessions s)(key \<mapsto> \<lparr>se_external = key, se_conn = pu_next s, se_last_seen = io_now io\<rparr>),
      pu_readers := insert (pu_next s) (pu_readers s)\<rparr>)"
  using assms by (simp add: sessionFor_def sessionFor_insert_def)

lemma sessionFor_ok: "preserves punch_ok (sessionFor io external)"
proof (rule preservesI)
  fix s :: punch
  assume ok: "punch_ok s"
  show "wp (sessionFor io external) (\<lambda>_. punch_ok) s"
  proof (cases "pu_sessions s external")
    case None
    then show ?thesis
      using ok sessionFor_new [OF None] punch_ok_new [OF ok None refl]
      by (cases "io_listen io") (simp_all add: wp_def sessionFor_def)
  next
    case (Some sess)
    then show ?thesis using punch_ok_refresh [OF ok Some] by (simp add: wp_def sessionFor_def Let_def)
  qed
qed

lemma handle_packet_ok: "preserves punch_ok (handle_packet wg io p remote)"
  unfolding handle_packet_def forwardToWireGuard_def
  by (intro preserves_intros handleSTUN_ok sessionFor_ok)

lemma readFromWireGuard_ok: "preserves punch_ok (readFromWireGuard io key sess p)"
proof (rule preservesI)
  fix s :: punch
  assume ok: "punch_ok s"
  have "punch_ok (s\<lparr>pu_readers := pu_readers s - {c}\<rparr>)" for c
    using ok by (auto simp add: punch_ok_def session_ok_def session_socks_def)
  then show "wp (readFromWireGuard io key sess p) (\<lambda>_. punch_ok) s"
    using ok punch_ok_refresh [OF ok]
    by (auto simp add: wp_def readFromWireGuard_def Let_def split: option.splits)
qed

lemma drop_sessions_lookup:
  "pu_sessions (drop_sessions P s) key = Some sess \<longleftrightarrow> pu_sessions s key = Some sess \<and> \<not> P sess"
  by (auto simp add: drop_sessions_def Let_def split: option.splits)

lemma drop_sessions_ok:
  assumes ok: "punch_ok s"
  shows "punch_ok (drop_sessions P s)" "pu_open (drop_sessions P s) - {main_sock} = session_socks (drop_sessions P s)"
proof -
  let ?s = "drop_sessions P s" and ?gone = "{se_conn sess | key sess. pu_sessions s key = Some sess \<and> P sess}"
  have inj: "k = l" if "pu_sessions s k = Some a" "pu_sessions s l = Some b" "se_conn a = se_conn b" for k l a b
    using ok that unfolding punch_ok_def by blast
  have socks: "session_socks ?s = session_socks s - ?gone"
    by (rule set_eqI) (simp only: session_socks_def drop_sessions_lookup mem_Collect_eq Diff_iff, metis inj option.inject)
  have eqs: "pu_open ?s = pu_open s - ?gone" "pu_readers ?s = pu_readers s - ?gone" "pu_next ?s = pu_next s"
    by (simp_all add: drop_sessions_def Let_def)
  have "session_ok ?s key sess" if "pu_sessions ?s key = Some sess" for key sess
  proof -
    from that have k: "pu_sessions s key = Some sess" "\<not> P sess" by (auto simp only: drop_sessions_lookup)
    have "se_conn sess \<notin> ?gone"
    proof
      assume "se_conn sess \<in> ?gone"
      then obtain l b where "pu_sessions s l = Some b" "P b" "se_conn b = se_conn sess" by auto
      with inj [OF this(1) k(1) this(3)] k show False by simp
    qed
    with punch_okD [OF ok k(1)] eqs show ?thesis by (simp add: session_ok_def)
  qed
  then show ok': "punch_ok ?s"
    unfolding punch_ok_def
  proof (intro conjI allI impI)
    show "pu_open ?s \<subseteq> insert main_sock (session_socks ?s)" "pu_readers ?s \<subseteq> session_socks ?s" "main_sock < pu_next ?s"
      using ok unfolding punch_ok_def eqs socks by blast+
  next
    fix k l a b
    assume "pu_sessions ?s k = Some a" "pu_sessions ?s l = Some b" "se_conn a = se_conn b"
    with inj show "k = l" unfolding drop_sessions_lookup by blast
  qed
  have "main_sock \<notin> session_socks ?s" using punch_okD(2) [OF ok'] by (metis less_irrefl sockE)
  moreover have "session_socks ?s \<subseteq> pu_open ?s" using punch_okD(4) [OF ok'] by (auto simp add: session_socks_def)
  ultimately show "pu_open ?s - {main_sock} = session_socks ?s" using ok' unfolding punch_ok_def by blast
qed

text \<open>
  What every packet keeps, and what does not speak of the waiting probes, a round of probes keeps.
\<close>

declare await.simps [simp del]

lemma await_preserves:
  assumes "\<And>io p remote. preserves I (handle_packet wg io p remote)"
  shows "preserves I (await wg tid arrivals)"
proof (rule preservesI, induction arrivals)
  case (Nil s)
  then show ?case by (subst wp_iff) (simp add: await.simps split: option.splits)
next
  case (Cons a arrivals s)
  obtain io p remote where a: "a = (io, p, remote)" by (cases a) auto
  obtain r t where h: "handle_packet wg io p remote s = (r, t)" by force
  then have "I t" using preservesD [OF assms Cons.prems] by (metis snd_conv)
  with Cons h show ?case unfolding wp_iff by (subst await.simps) (auto simp add: a split: option.splits sum.splits)
qed

lemma probeOne_preserves:
  assumes packets: "\<And>io p remote. preserves I (handle_packet wg io p remote)"
    and blind: "\<And>s m. I (s\<lparr>pu_pending := m\<rparr>) = I s"
  shows "preserves I (probeOne wg p)"
proof (rule preservesI)
  fix s :: punch
  assume I: "I s"
  let ?s1 = "s\<lparr>pu_pending := (pu_pending s)(pr_tid p \<mapsto> None)\<rparr>"
  obtain r s2 where aw: "await wg (pr_tid p) (pr_arrivals p) ?s1 = (r, s2)" by force
  then have "I s2" using preservesD [OF await_preserves [OF packets], of ?s1 "pr_tid p" "pr_arrivals p"] I blind by simp
  with I aw blind show "wp (probeOne wg p) (\<lambda>_. I) s"
    by (cases "pr_resolve p"; cases "pr_rand p"; cases "pr_write p") (simp_all add: probeOne_def wp_def Let_def)
qed

lemma Probe_preserves:
  assumes "\<And>io p remote. preserves I (handle_packet wg io p remote)" "\<And>s m. I (s\<lparr>pu_pending := m\<rparr>) = I s"
  shows "preserves I (Probe wg ps)"
proof -
  have "preserves I (Probe_from wg e ps)" for e
    by (induction ps arbitrary: e) (auto intro!: preserves_intros probeOne_preserves assms)
  then show ?thesis by (simp add: Probe_def)
qed

lemma Probe_ok: "preserves punch_ok (Probe wg ps)"
  by (rule Probe_preserves [OF handle_packet_ok]) simp

section \<open>Sockets and clients\<close>

lemma keepalive_ok: "punch_ok s \<Longrightarrow> punch_ok (keepalive wg probes s)"
  using preservesD [OF Probe_ok, of s wg probes]
  by (auto simp add: keepalive_def setEndpoint_def split: prod.splits sum.splits)

lemma Close_ok: "punch_ok s \<Longrightarrow> punch_ok (Close s)"
proof -
  assume "punch_ok s"
  then have ok: "punch_ok (drop_sessions (\<lambda>_. True) s)" by (rule drop_sessions_ok)
  have "se_conn v \<noteq> main_sock" if "pu_sessions (drop_sessions (\<lambda>_. True) s) k = Some v" for k v
    using punch_okD(2) [OF ok that] by simp
  with ok show ?thesis
    unfolding Close_def Let_def punch_ok_def session_ok_def session_socks_def by auto
qed

interpretation proxy: invariant_system "punch_started wg" "punch_step wg" punch_ok for wg
proof
  fix s
  assume "punch_started wg s"
  then obtain cfg resolve listen ps ep where st: "Start cfg resolve listen wg ps = Inr (s, ep)"
    by (auto simp add: punch_started_def)
  obtain r t where pr: "Probe wg ps new_service = (r, t)" by force
  from st pr have "r = Inr ep" "s = setEndpoint ep t"
    by (cases "check_config cfg"; cases resolve; cases listen; cases r; simp add: Start_def)+
  with pr have "Probe wg ps new_service = (Inr ep, t)" "s = setEndpoint ep t" by simp_all
  with preservesD [OF Probe_ok new_service_ok, of wg ps] show "punch_ok s" by (simp add: setEndpoint_def)
next
  fix s t
  assume "punch_step wg s t" "punch_ok s"
  then show "punch_ok t"
  proof cases
    case (packet io p remote r)
    with preservesD [OF handle_packet_ok \<open>punch_ok s\<close>, of wg io p remote] show ?thesis by simp
  next
    case (reply key sess io p r)
    with preservesD [OF readFromWireGuard_ok \<open>punch_ok s\<close>, of io key sess p] show ?thesis by simp
  qed (simp_all add: cleanupIdleSessions_def drop_sessions_ok keepalive_ok Close_ok)
qed

text \<open>
  C23: in every reachable state of the proxy each session belongs to the client it is filed under,
  has an open socket of its own, and no other session shares that socket; every open socket but
  the main one is a session's, so the proxy leaks none, and nothing reads a socket that no session
  has. Sessions that were idle for longer than allowed, and only they, are gone after the cleanup,
  their sockets closed.
\<close>

theorem punch_sessions_isolated:
  assumes "punch_started wg s0" "(punch_step wg)\<^sup>*\<^sup>* s0 s"
  shows "(\<forall>key sess. pu_sessions s key = Some sess \<longrightarrow> se_external sess = key \<and> se_conn sess \<noteq> main_sock \<and>
        se_conn sess \<in> pu_open s \<and>
        (\<forall>key' sess'. pu_sessions s key' = Some sess' \<longrightarrow> se_conn sess' = se_conn sess \<longrightarrow> key' = key)) \<and>
     pu_open s \<subseteq> insert main_sock (session_socks s) \<and> pu_readers s \<subseteq> session_socks s \<and>
     (\<forall>key. pu_sessions (cleanupIdleSessions now maxIdle s) key =
        (case pu_sessions s key of
           Some sess \<Rightarrow> if now - maxIdle \<le> se_last_seen sess then Some sess else None
         | None \<Rightarrow> None)) \<and>
     pu_open (cleanupIdleSessions now maxIdle s) - {main_sock} = session_socks (cleanupIdleSessions now maxIdle s)"
proof -
  have ok: "punch_ok s" using proxy.reachable_inv [OF assms] .
  have "pu_sessions (cleanupIdleSessions now maxIdle s) key =
      (case pu_sessions s key of Some sess \<Rightarrow> if now - maxIdle \<le> se_last_seen sess then Some sess else None | None \<Rightarrow> None)"
    for key
    by (auto simp add: cleanupIdleSessions_def drop_sessions_def Let_def split: option.splits)
  moreover have "pu_open (cleanupIdleSessions now maxIdle s) - {main_sock} =
      session_socks (cleanupIdleSessions now maxIdle s)"
    unfolding cleanupIdleSessions_def by (rule drop_sessions_ok(2) [OF ok])
  moreover have "se_external sess = key \<and> se_conn sess \<noteq> main_sock \<and> se_conn sess \<in> pu_open s"
    if "pu_sessions s key = Some sess" for key sess
    using punch_okD [OF ok that] by simp
  ultimately show ?thesis using ok unfolding punch_ok_def by blast
qed

section \<open>Traffic\<close>

lemma handle_wireguard:
  assumes "wireguard_message p"
  shows "handle_packet wg io p remote s = forwardToWireGuard wg io p remote s"
  using wireguard_not_stun [OF assms] by (simp add: handle_packet_def handleSTUN_def tryE_def caseE_def)

lemma forwardToWireGuard_sent:
  assumes "io_listen io = None" "io_write io = None"
  shows "\<exists>sess s'. forwardToWireGuard wg io p remote s = (Inr [(se_conn sess, p, wg)], s') \<and>
     pu_sessions s' remote = Some sess \<and> se_last_seen sess = io_now io \<and> pu_pending s' = pu_pending s \<and>
     pu_endpoint s' = pu_endpoint s \<and> (\<forall>k. k \<noteq> remote \<longrightarrow> pu_sessions s' k = pu_sessions s k) \<and>
     (\<forall>old. pu_sessions s remote = Some old \<longrightarrow> se_conn sess = se_conn old \<and> pu_readers s' = pu_readers s)"
proof (cases "pu_sessions s remote")
  case None
  from sessionFor_new [OF this assms(1)] assms(2) None show ?thesis
    by (auto simp add: forwardToWireGuard_def caseE_def ret_def)
next
  case (Some old)
  with assms show ?thesis
    by (auto simp add: forwardToWireGuard_def caseE_def ret_def sessionFor_def Let_def)
qed


text \<open>
  A session whose reader stopped stays deaf. After one failed write to a client its reader is
  gone; when the client sends on, within the idle time, its messages still reach WireGuard and
  keep the session alive, but nothing reads WireGuard's answers any more: no reader comes back, and
  the cleanup keeps the session.
\<close>

theorem failed_write_leaves_session_deaf:
  assumes sess: "pu_sessions s client = Some sess" and err: "io_write io \<noteq> None"
    and msg: "wireguard_message p" and fine: "io_listen io' = None" "io_write io' = None"
    and now: "now - maxIdle \<le> io_now io'"
  shows "\<exists>sess' s'. handle_packet wg io' p client (snd (readFromWireGuard io client sess q s)) =
        (Inr [(se_conn sess, p, wg)], s') \<and>
     se_conn sess \<notin> pu_readers s' \<and>
     pu_sessions (cleanupIdleSessions now maxIdle s') client = Some sess' \<and> se_conn sess' = se_conn sess \<and>
     se_conn sess \<notin> pu_readers (cleanupIdleSessions now maxIdle s')"
proof -
  let ?t = "snd (readFromWireGuard io client sess q s)"
  have t: "pu_sessions ?t client = Some sess" "se_conn sess \<notin> pu_readers ?t"
    using sess err by (simp_all add: readFromWireGuard_def)
  obtain sess' s' where fw: "forwardToWireGuard wg io' p client ?t = (Inr [(se_conn sess', p, wg)], s')"
    and s': "pu_sessions s' client = Some sess'" "se_last_seen sess' = io_now io'" "se_conn sess' = se_conn sess"
      "pu_readers s' = pu_readers ?t"
    using forwardToWireGuard_sent [OF fine, of wg p client ?t] t(1) by blast
  have "pu_sessions (cleanupIdleSessions now maxIdle s') client = Some sess'"
    using s' now by (simp add: cleanupIdleSessions_def drop_sessions_lookup)
  moreover have "pu_readers (cleanupIdleSessions now maxIdle s') \<subseteq> pu_readers s'"
    by (auto simp add: cleanupIdleSessions_def drop_sessions_def Let_def)
  ultimately show ?thesis using fw handle_wireguard [OF msg] s' t(2) by (intro exI [of _ sess'] exI [of _ s']) auto
qed


section \<open>Probes\<close>

lemma forwardToWireGuard_frame:
  "pu_pending (snd (forwardToWireGuard wg io p remote s)) = pu_pending s"
  "pu_endpoint (snd (forwardToWireGuard wg io p remote s)) = pu_endpoint s"
  by (auto simp add: forwardToWireGuard_def caseE_def ret_def sessionFor_def sessionFor_insert_def Let_def
      split: option.splits prod.splits sum.splits)

lemma handle_packet_pending:
  assumes run: "handle_packet wg io p remote s = (r, s')" and new: "pu_pending s' tid \<noteq> pu_pending s tid"
  shows "\<exists>ep. parseBindingResponse p = Inr (Some (tid, ep)) \<and> pu_pending s tid = Some None \<and>
     pu_pending s' tid = Some (Some ep)"
proof (cases "parseBindingResponse p")
  case (Inl e)
  with run new show ?thesis by (simp add: handle_packet_def handleSTUN_def tryE_def caseE_def fail_def)
next
  case (Inr answer)
  show ?thesis
  proof (cases answer)
    case None
    with Inr run have "(r, s') = forwardToWireGuard wg io p remote s"
      by (simp add: handle_packet_def handleSTUN_def tryE_def caseE_def)
    with new forwardToWireGuard_frame(1) [of wg io p remote s] show ?thesis by (metis snd_conv)
  next
    case (Some te)
    obtain t ep where te: "te = (t, ep)" by force
    show ?thesis
    proof (cases "pu_pending s t = Some None")
      case True
      with Inr Some te run have "s' = s\<lparr>pu_pending := (pu_pending s)(t \<mapsto> Some ep)\<rparr>"
        by (simp add: handle_packet_def handleSTUN_def tryE_def caseE_def ret_def)
      with Inr Some te True new show ?thesis by (auto split: if_splits)
    next
      case False
      with Inr Some te run new show ?thesis
        by (auto simp add: handle_packet_def handleSTUN_def tryE_def caseE_def ret_def split: option.splits)
    qed
  qed
qed

lemma await_answer:
  assumes "await wg tid arrivals s = (Inr ep, s')" "pu_pending s tid = Some None"
  shows "\<exists>(io, packet, remote) \<in> set arrivals. parseBindingResponse packet = Inr (Some (tid, ep))"
  using assms
proof (induction arrivals arbitrary: s)
  case Nil
  then show ?case by (subst (asm) await.simps) simp
next
  case (Cons a arrivals)
  obtain io p remote where a: "a = (io, p, remote)" by (cases a) auto
  obtain r t where h: "handle_packet wg io p remote s = (r, t)" by force
  with Cons.prems a have aw: "await wg tid arrivals t = (Inr ep, s')"
    by (subst (asm) await.simps) (simp split: sum.splits)
  show ?case
  proof (cases "pu_pending t tid = Some None")
    case True
    from Cons.IH [OF aw this] show ?thesis by auto
  next
    case False
    with handle_packet_pending [OF h, of tid] Cons.prems(2) obtain ep' where
      ans: "parseBindingResponse p = Inr (Some (tid, ep'))" and "pu_pending t tid = Some (Some ep')" by metis
    with aw have "ep' = ep" by (subst (asm) await.simps) simp
    with ans show ?thesis by (simp add: a)
  qed
qed

lemma handle_packet_endpoint: "preserves (\<lambda>s. pu_endpoint s = ep) (handle_packet wg io p remote)"
  unfolding handle_packet_def
  by (intro preserves_intros)
    (simp_all add: preserves_def handleSTUN_def forwardToWireGuard_frame split: sum.splits option.splits)

lemma handle_packet_dom: "handle_packet wg io p remote s = (r, s') \<Longrightarrow> dom (pu_pending s') = dom (pu_pending s)"
proof (intro equalityI subsetI)
  fix t
  assume run: "handle_packet wg io p remote s = (r, s')" and "t \<in> dom (pu_pending s')"
  with handle_packet_pending [OF run, of t] show "t \<in> dom (pu_pending s)" by force
next
  fix t
  assume run: "handle_packet wg io p remote s = (r, s')" and "t \<in> dom (pu_pending s)"
  with handle_packet_pending [OF run, of t] show "t \<in> dom (pu_pending s')" by force
qed

lemma await_dom: "dom (pu_pending (snd (await wg tid arrivals s))) = dom (pu_pending s)"
proof (induction arrivals arbitrary: s)
  case Nil
  then show ?case by (subst await.simps) (simp split: option.splits)
next
  case (Cons a arrivals)
  obtain io p remote where a: "a = (io, p, remote)" by (cases a) auto
  obtain r t where h: "handle_packet wg io p remote s = (r, t)" by force
  from h Cons.IH [of t] handle_packet_dom [OF h] show ?case
    by (subst await.simps) (simp add: a split: option.splits sum.splits)
qed

lemma probeOne_dom: "pu_pending s = Map.empty \<Longrightarrow> pu_pending (snd (probeOne wg p s)) = Map.empty"
proof -
  assume none: "pu_pending s = Map.empty"
  let ?s1 = "s\<lparr>pu_pending := [pr_tid p \<mapsto> None]\<rparr>"
  obtain r t where aw: "await wg (pr_tid p) (pr_arrivals p) ?s1 = (r, t)" by force
  then have "dom (pu_pending t) = {pr_tid p}" using await_dom [of wg "pr_tid p" "pr_arrivals p" ?s1] by simp
  then have "(pu_pending t)(pr_tid p := None) = Map.empty" by (metis Diff_cancel dom_eq_empty_conv dom_fun_upd)
  with none aw show ?thesis
    by (cases "pr_resolve p"; cases "pr_rand p"; cases "pr_write p") (simp_all add: probeOne_def Let_def)
qed

lemma Probe_dom: "preserves (\<lambda>s. pu_pending s = Map.empty) (Probe_from wg e ps)"
proof (induction ps arbitrary: e)
  case Nil
  show ?case by (simp add: preserves_intros)
next
  case (Cons p ps)
  then show ?case using probeOne_dom by (auto intro!: preserves_intros simp add: preserves_def [of _ "probeOne wg p"])
qed

lemma probeOne_answer:
  assumes "probeOne wg p s = (Inr ep, s')"
  shows "\<exists>(io, packet, remote) \<in> set (pr_arrivals p). parseBindingResponse packet = Inr (Some (pr_tid p, ep))"
proof -
  let ?s1 = "s\<lparr>pu_pending := (pu_pending s)(pr_tid p \<mapsto> None)\<rparr>"
  obtain r t where aw: "await wg (pr_tid p) (pr_arrivals p) ?s1 = (r, t)" by force
  with assms have "r = Inr ep"
    by (cases "pr_resolve p"; cases "pr_rand p"; cases "pr_write p") (simp_all add: probeOne_def Let_def)
  with aw show ?thesis using await_answer by fastforce
qed

lemma Probe_answer:
  "Probe_from wg e ps s = (Inr ep, s') \<Longrightarrow>
     \<exists>p \<in> set ps. \<exists>(io, packet, remote) \<in> set (pr_arrivals p). parseBindingResponse packet = Inr (Some (pr_tid p, ep))"
proof (induction ps arbitrary: e s)
  case Nil
  then show ?case by (simp add: fail_def)
next
  case (Cons p ps)
  obtain r t where one: "probeOne wg p s = (r, t)" by force
  show ?case
  proof (cases r)
    case (Inl err)
    with Cons.prems one have "Probe_from wg (Some err) ps t = (Inr ep, s')" by (simp add: caseE_def)
    from Cons.IH [OF this] show ?thesis by simp
  next
    case (Inr ep')
    with Cons.prems one have "probeOne wg p s = (Inr ep, s')" by (simp add: caseE_def ret_def)
    from probeOne_answer [OF this] show ?thesis by simp
  qed
qed

text \<open>
  C25: a probe cannot be answered by just anyone. Whatever datagrams arrive, and from whomever, the
  endpoint changes in a round of probes only when one of them is a STUN success that carries the
  random transaction id drawn for that very probe, and it becomes the address in that answer; in
  every other case the endpoint stays. No probe is left waiting.
\<close>

theorem probe_unspoofable:
  assumes "pu_pending s = Map.empty"
  shows "pu_pending (keepalive wg ps s) = Map.empty \<and>
     (pu_endpoint (keepalive wg ps s) \<noteq> pu_endpoint s \<longrightarrow>
       (\<exists>p \<in> set ps. \<exists>(io, packet, remote) \<in> set (pr_arrivals p).
          parseBindingResponse packet = Inr (Some (pr_tid p, pu_endpoint (keepalive wg ps s)))))"
proof (intro conjI impI)
  obtain r t where run: "Probe wg ps s = (r, t)" by force
  show "pu_pending (keepalive wg ps s) = Map.empty"
    using preservesD [OF Probe_dom assms, of wg None ps] run
    by (cases r) (simp_all add: keepalive_def setEndpoint_def Probe_def)
  assume "pu_endpoint (keepalive wg ps s) \<noteq> pu_endpoint s"
  moreover have "pu_endpoint t = pu_endpoint s"
    using preservesD [OF Probe_preserves [OF handle_packet_endpoint], of "pu_endpoint s" s wg ps] run by simp
  ultimately obtain ep where "r = Inr ep" "pu_endpoint (keepalive wg ps s) = ep"
    using run by (cases r) (simp_all add: keepalive_def setEndpoint_def)
  with run show "\<exists>p \<in> set ps. \<exists>(io, packet, remote) \<in> set (pr_arrivals p).
      parseBindingResponse packet = Inr (Some (pr_tid p, pu_endpoint (keepalive wg ps s)))"
    using Probe_answer [of wg None ps s ep t] by (simp add: Probe_def)
qed

section \<open>A run\<close>

text \<open>
  A proxy that one STUN server answered, and a client's first message.
\<close>

definition ref_io :: io where "ref_io = \<lparr>io_now = 5, io_listen = None, io_write = None\<rparr>"

definition ref_tid :: "byte list" where "ref_tid = replicate 12 7"

definition ref_probe :: probe where
  "ref_probe = \<lparr>pr_resolve = None, pr_rand = None, pr_tid = ref_tid, pr_write = None,
     pr_arrivals = [(ref_io, stun_success ref_tid [xor_mapped_address 0xC0A80105 443], ''9.9.9.9:3478'')]\<rparr>"

definition ref_proxy :: punch where
  "ref_proxy = \<lparr>pu_endpoint = ''192.168.1.5:443'', pu_pending = Map.empty, pu_sessions = Map.empty,
     pu_open = {main_sock}, pu_readers = {}, pu_next = main_sock + 1\<rparr>"

lemma ref_answer:
  "parseBindingResponse (stun_success ref_tid [xor_mapped_address 0xC0A80105 443]) =
     Inr (Some (ref_tid, ''192.168.1.5:443''))"
  by code_simp

lemma ref_Probe:
  assumes "pu_pending s = Map.empty"
  shows "Probe wg [ref_probe] s = (Inr ''192.168.1.5:443'', s)"
  using assms
  by (simp add: Probe_def probeOne_def ref_probe_def await.simps handle_packet_def handleSTUN_def ref_answer
      tryE_def caseE_def ret_def Let_def)

lemma ref_proxy_started: "punch_started wg ref_proxy"
proof -
  have "Start \<lparr>pc_listen_port = 51280, pc_wireguard_host = '''', pc_wireguard_port = 51820,
      pc_stun_servers = [''9.9.9.9:3478''], pc_probe_timeout = 0, pc_keepalive_interval = 0\<rparr>
      None None wg [ref_probe] = Inr (ref_proxy, ''192.168.1.5:443'')"
    by (simp add: Start_def check_config_def isLocalHost_def ref_Probe new_service_def setEndpoint_def ref_proxy_def)
  then show ?thesis unfolding punch_started_def by blast
qed

definition ref_client :: string where "ref_client = ''203.0.113.9:40000''"

definition ref_message :: "byte list" where "ref_message = 1 # 0 # 0 # 0 # replicate 144 9"

lemma ref_message_ok: "wireguard_message ref_message"
  by (simp add: wireguard_message_def ref_message_def)

definition ref_session :: session where
  "ref_session = \<lparr>se_external = ref_client, se_conn = 1, se_last_seen = 5\<rparr>"

definition ref_busy :: punch where
  "ref_busy = ref_proxy\<lparr>pu_sessions := [ref_client \<mapsto> ref_session], pu_open := {0, 1}, pu_readers := {1}, pu_next := 2\<rparr>"

lemma ref_step: "punch_step wg ref_proxy ref_busy"
proof (rule punch_step.packet)
  show "handle_packet wg ref_io ref_message ref_client ref_proxy = (Inr [(1, ref_message, wg)], ref_busy)"
    unfolding handle_wireguard [OF ref_message_ok]
    by (auto simp add: forwardToWireGuard_def sessionFor_new ref_proxy_def ref_io_def caseE_def ret_def ref_busy_def
        ref_session_def main_sock_def)
qed

lemma ref_reached: "(punch_step wg)\<^sup>*\<^sup>* ref_proxy ref_busy"
  using ref_step by (rule r_into_rtranclp)

text \<open>The properties on it.\<close>

theorem punch_sessions_isolated_witness:
  "pu_sessions ref_busy ref_client = Some ref_session \<and> se_external ref_session = ref_client \<and>
     pu_open (cleanupIdleSessions 200 100 ref_busy) - {main_sock} = session_socks (cleanupIdleSessions 200 100 ref_busy) \<and>
     pu_sessions (cleanupIdleSessions 200 100 ref_busy) ref_client = None"
proof -
  have "pu_sessions ref_busy ref_client = Some ref_session" by (simp add: ref_busy_def)
  with punch_sessions_isolated [OF ref_proxy_started [of "''wg''"] ref_reached, where now = 200 and maxIdle = 100]
  show ?thesis by (simp add: ref_session_def)
qed


theorem failed_write_leaves_session_deaf_witness:
  "\<exists>s'. handle_packet ''wg'' ref_io ref_message ref_client
        (snd (readFromWireGuard (ref_io\<lparr>io_write := Some ErrWG\<rparr>) ref_client ref_session [4] ref_busy)) =
        (Inr [(1, ref_message, ''wg'')], s') \<and> 1 \<notin> pu_readers s'"
proof -
  have pre: "pu_sessions ref_busy ref_client = Some ref_session" "io_write (ref_io\<lparr>io_write := Some ErrWG\<rparr>) \<noteq> None"
    "io_listen ref_io = None" "io_write ref_io = None" "(100 :: int) - 95 \<le> io_now ref_io" "se_conn ref_session = 1"
    by (simp_all add: ref_io_def ref_session_def ref_busy_def)
  from failed_write_leaves_session_deaf [OF pre(1,2) ref_message_ok pre(3,4,5), of "''wg''" "[4]"] pre(6)
  show ?thesis by auto
qed

theorem probe_unspoofable_witness:
  "pu_endpoint (keepalive ''wg'' [ref_probe] new_service) = ''192.168.1.5:443'' \<and>
     (\<exists>(io, packet, remote) \<in> set (pr_arrivals ref_probe).
        parseBindingResponse packet = Inr (Some (pr_tid ref_probe, ''192.168.1.5:443'')))"
proof -
  have new: "pu_pending new_service = Map.empty" by (simp add: new_service_def)
  then have "pu_endpoint (keepalive ''wg'' [ref_probe] new_service) = ''192.168.1.5:443''"
    by (simp add: keepalive_def ref_Probe setEndpoint_def)
  moreover have "pu_endpoint new_service \<noteq> ''192.168.1.5:443''" by (simp add: new_service_def)
  ultimately show ?thesis using probe_unspoofable [OF new, of "''wg''" "[ref_probe]"] by simp
qed

end
