(* ===== verification/NetURL.thy ===== *)
theory NetURL
  imports GoStrings Errors
begin

text \<open>
  Go's \<open>net/url\<close> as the relay agent and the discovery reporter use it: parsing, printing and
  resolving a reference, with the escaping of each part of a URL.
\<close>

section \<open>Escaping\<close>

datatype url_part = EncodePath | EncodeUserPassword | EncodeHost | EncodeZone | EncodeFragment

definition is_alnum :: "char \<Rightarrow> bool" where
  "is_alnum c \<longleftrightarrow> ascii_letter (of_char c) \<or> ascii_digit (of_char c)"

definition shouldEscape :: "url_part \<Rightarrow> char \<Rightarrow> bool" where
  "shouldEscape part c =
     (if is_alnum c then False
      else if (part = EncodeHost \<or> part = EncodeZone) \<and>
        c \<in> set ''!$&()*+,;=:[]<>'' \<union> {CHR 0x27, CHR 0x22} then False
      else if c \<in> set ''-_.~'' then False
      else if c \<in> set ''$&+,/:;=?@'' then
        (case part of
           EncodePath \<Rightarrow> c = CHR ''?''
         | EncodeUserPassword \<Rightarrow> c \<in> set ''@/?:''
         | EncodeFragment \<Rightarrow> False
         | _ \<Rightarrow> True)
      else \<not> (part = EncodeFragment \<and> c \<in> set ''!()*''))"

definition hex_digit :: "nat \<Rightarrow> char" where
  "hex_digit n = char_of (if n < 10 then 48 + n else 55 + n)"

definition unhex :: "char \<Rightarrow> nat option" where
  "unhex c =
     (let n = of_char c in
      if 48 \<le> n \<and> n \<le> 57 then Some (n - 48)
      else if 97 \<le> n \<and> n \<le> 102 then Some (n - 87)
      else if 65 \<le> n \<and> n \<le> 70 then Some (n - 55) else None)"

definition escape :: "url_part \<Rightarrow> string \<Rightarrow> string" where
  "escape part s =
     concat (map (\<lambda>c. if shouldEscape part c
        then [CHR ''%'', hex_digit (of_char c div 16), hex_digit (of_char c mod 16)] else [c]) s)"

fun unescape :: "url_part \<Rightarrow> string \<Rightarrow> goerr + string" where
  "unescape part [] = Inr []"
| "unescape part (c # s) =
     (if c = CHR ''%'' then
        (case s of
           x # y # rest \<Rightarrow>
             (case (unhex x, unhex y) of
                (Some a, Some b) \<Rightarrow>
                  if part = EncodeHost \<and> a < 8 \<and> \<not> (x = CHR ''2'' \<and> y = CHR ''5'')
                    \<or> part = EncodeZone \<and> \<not> (x = CHR ''2'' \<and> y = CHR ''5'') \<and>
                      a * 16 + b \<noteq> 32 \<and> shouldEscape EncodeHost (char_of (a * 16 + b))
                  then Inl (ErrorString ''invalid URL escape'')
                  else (case unescape part rest of Inl e \<Rightarrow> Inl e | Inr t \<Rightarrow> Inr (char_of (a * 16 + b) # t))
              | _ \<Rightarrow> Inl (ErrorString ''invalid URL escape''))
         | _ \<Rightarrow> Inl (ErrorString ''invalid URL escape''))
      else if (part = EncodeHost \<or> part = EncodeZone) \<and> (of_char c :: nat) < 0x80 \<and> shouldEscape part c
      then Inl (ErrorString ''invalid character in host name'')
      else (case unescape part s of Inl e \<Rightarrow> Inl e | Inr t \<Rightarrow> Inr (c # t)))"

definition validEncoded :: "url_part \<Rightarrow> string \<Rightarrow> bool" where
  "validEncoded part s =
     list_all (\<lambda>c. c \<in> set ''!$&()*+,;=:@[]%'' \<union> {CHR 0x27} \<or> \<not> shouldEscape part c) s"

section \<open>URLs\<close>

record url =
  ur_scheme :: string
  ur_opaque :: string
  ur_user :: "(string \<times> string option) option"
  ur_host :: string
  ur_path :: string
  ur_raw_path :: string
  ur_omit_host :: bool
  ur_force_query :: bool
  ur_raw_query :: string
  ur_fragment :: string
  ur_raw_fragment :: string

definition empty_url :: url where
  "empty_url = \<lparr>ur_scheme = '''', ur_opaque = '''', ur_user = None, ur_host = '''', ur_path = '''', ur_raw_path = '''',
     ur_omit_host = False, ur_force_query = False, ur_raw_query = '''', ur_fragment = '''', ur_raw_fragment = ''''\<rparr>"

text \<open>What \<open>setPath\<close> keeps: the decoded path, and the encoded one when it is not the default.\<close>

definition setPath :: "string \<Rightarrow> url \<Rightarrow> goerr + url" where
  "setPath p u =
     (case unescape EncodePath p of
        Inl e \<Rightarrow> Inl e
      | Inr path \<Rightarrow> Inr (u\<lparr>ur_path := path, ur_raw_path := (if p = escape EncodePath path then '''' else p)\<rparr>))"

definition EscapedPath :: "url \<Rightarrow> string" where
  "EscapedPath u =
     (if ur_raw_path u \<noteq> '''' \<and> validEncoded EncodePath (ur_raw_path u) \<and>
         unescape EncodePath (ur_raw_path u) = Inr (ur_path u) then ur_raw_path u
      else if ur_path u = ''*'' then ''*'' else escape EncodePath (ur_path u))"

definition setFragment :: "string \<Rightarrow> url \<Rightarrow> goerr + url" where
  "setFragment f u =
     (case unescape EncodeFragment f of
        Inl e \<Rightarrow> Inl e
      | Inr frag \<Rightarrow> Inr (u\<lparr>ur_fragment := frag, ur_raw_fragment := (if f = escape EncodeFragment frag then '''' else f)\<rparr>))"

definition EscapedFragment :: "url \<Rightarrow> string" where
  "EscapedFragment u =
     (if ur_raw_fragment u \<noteq> '''' \<and> validEncoded EncodeFragment (ur_raw_fragment u) \<and>
         unescape EncodeFragment (ur_raw_fragment u) = Inr (ur_fragment u) then ur_raw_fragment u
      else escape EncodeFragment (ur_fragment u))"

section \<open>Parsing\<close>

text \<open>\<open>strings.Cut\<close> at a byte, and the last occurrence of a byte.\<close>

definition Cut :: "char \<Rightarrow> string \<Rightarrow> string \<times> string" where
  "Cut c s = (takeWhile (\<lambda>x. x \<noteq> c) s, tl (dropWhile (\<lambda>x. x \<noteq> c) s))"

definition before_last :: "char \<Rightarrow> string \<Rightarrow> string" where
  "before_last c s = rev (tl (dropWhile (\<lambda>x. x \<noteq> c) (rev s)))"

definition after_last :: "char \<Rightarrow> string \<Rightarrow> string" where
  "after_last c s = rev (takeWhile (\<lambda>x. x \<noteq> c) (rev s))"

fun getScheme_from :: "bool \<Rightarrow> string \<Rightarrow> string \<Rightarrow> goerr + (string \<times> string) option" where
  "getScheme_from start acc [] = Inr None"
| "getScheme_from start acc (c # s) =
     (if ascii_letter (of_char c) then getScheme_from False (acc @ [c]) s
      else if ascii_digit (of_char c) \<or> c \<in> set ''+-.'' then
        (if start then Inr None else getScheme_from False (acc @ [c]) s)
      else if c = CHR '':'' then
        (if start then Inl (ErrorString ''missing protocol scheme'') else Inr (Some (acc, s)))
      else Inr None)"

definition getScheme :: "string \<Rightarrow> goerr + string \<times> string" where
  "getScheme raw =
     (case getScheme_from True [] raw of
        Inl e \<Rightarrow> Inl e
      | Inr None \<Rightarrow> Inr ('''', raw)
      | Inr (Some sr) \<Rightarrow> Inr sr)"

definition validOptionalPort :: "string \<Rightarrow> bool" where
  "validOptionalPort p = (case p of [] \<Rightarrow> True | c # ds \<Rightarrow> c = CHR '':'' \<and> list_all is_digit_char ds)"

fun find_zone :: "string \<Rightarrow> string \<Rightarrow> (string \<times> string) option" where
  "find_zone acc [] = None"
| "find_zone acc (c # s) =
     (if HasPrefix (c # s) ''%25'' then Some (acc, c # s) else find_zone (acc @ [c]) s)"

definition unescape3 :: "string \<Rightarrow> string \<Rightarrow> string \<Rightarrow> goerr + string" where
  "unescape3 a b c =
     (case (unescape EncodeHost a, unescape EncodeZone b, unescape EncodeHost c) of
        (Inr x, Inr y, Inr z) \<Rightarrow> Inr (x @ y @ z)
      | _ \<Rightarrow> Inl (ErrorString ''invalid URL escape''))"

definition parseHost :: "string \<Rightarrow> goerr + string" where
  "parseHost host =
     (if HasPrefix host ''['' then
        (if CHR '']'' \<notin> set host then Inl (ErrorString ''missing ] in host'')
         else if \<not> validOptionalPort (after_last CHR '']'' host) then Inl (ErrorString ''invalid port after host'')
         else
           case find_zone [] (before_last CHR '']'' host) of
             Some (h, z) \<Rightarrow> unescape3 h z ('']'' @ after_last CHR '']'' host)
           | None \<Rightarrow> unescape EncodeHost host)
      else if CHR '':'' \<in> set host \<and> \<not> validOptionalPort (CHR '':'' # after_last CHR '':'' host)
      then Inl (ErrorString ''invalid port after host'')
      else unescape EncodeHost host)"

definition validUserinfo :: "string \<Rightarrow> bool" where
  "validUserinfo s = list_all (\<lambda>c. is_alnum c \<or> c \<in> set ''-._:~!$&()*+,;=%@'' \<union> {CHR 0x27}) s"

definition parseUser :: "string \<Rightarrow> goerr + (string \<times> string option)" where
  "parseUser userinfo =
     (if \<not> validUserinfo userinfo then Inl (ErrorString ''net/url: invalid userinfo'')
      else
        case unescape EncodeUserPassword (fst (Cut CHR '':'' userinfo)) of
          Inl e \<Rightarrow> Inl e
        | Inr name \<Rightarrow>
            (if CHR '':'' \<notin> set userinfo then Inr (name, None)
             else
               case unescape EncodeUserPassword (snd (Cut CHR '':'' userinfo)) of
                 Inl e \<Rightarrow> Inl e
               | Inr pw \<Rightarrow> Inr (name, Some pw)))"

definition parseAuthority :: "string \<Rightarrow> goerr + (string \<times> string option) option \<times> string" where
  "parseAuthority authority =
     (if CHR ''@'' \<notin> set authority then
        (case parseHost authority of Inl e \<Rightarrow> Inl e | Inr h \<Rightarrow> Inr (None, h))
      else
        case parseHost (after_last CHR ''@'' authority) of
          Inl e \<Rightarrow> Inl e
        | Inr h \<Rightarrow>
            (case parseUser (before_last CHR ''@'' authority) of Inl e \<Rightarrow> Inl e | Inr us \<Rightarrow> Inr (Some us, h)))"

definition has_ctl :: "string \<Rightarrow> bool" where
  "has_ctl s = list_ex (\<lambda>c. (of_char c :: nat) < 0x20 \<or> (of_char c :: nat) = 0x7F) s"

definition is_scheme_lower :: "string \<Rightarrow> string" where
  "is_scheme_lower s = map (\<lambda>c. char_of (lower_ascii (of_char c))) s"

text \<open>The steps of \<open>parse\<close> after the scheme and the query.\<close>

definition parse_hier :: "string \<Rightarrow> url \<Rightarrow> goerr + url" where
  "parse_hier rest u =
     (if HasPrefix rest ''//'' \<and> (ur_scheme u \<noteq> '''' \<or> \<not> HasPrefix rest ''///'') then
        (let body = drop 2 rest;
             authority = takeWhile (\<lambda>c. c \<noteq> CHR ''/'') body;
             path = dropWhile (\<lambda>c. c \<noteq> CHR ''/'') body in
         case parseAuthority authority of
           Inl e \<Rightarrow> Inl e
         | Inr (us, h) \<Rightarrow> setPath path (u\<lparr>ur_user := us, ur_host := h\<rparr>))
      else setPath rest (u\<lparr>ur_omit_host := (ur_scheme u \<noteq> '''' \<and> HasPrefix rest ''/'')\<rparr>))"

definition parse_rest :: "string \<Rightarrow> url \<Rightarrow> goerr + url" where
  "parse_rest rest u =
     (if \<not> HasPrefix rest ''/'' \<and> ur_scheme u \<noteq> '''' then Inr (u\<lparr>ur_opaque := rest\<rparr>)
      else if \<not> HasPrefix rest ''/'' \<and> CHR '':'' \<in> set (fst (Cut CHR ''/'' rest))
      then Inl (ErrorString ''first path segment in URL cannot contain colon'')
      else parse_hier rest u)"

definition parse_query :: "string \<Rightarrow> url \<Rightarrow> string \<times> url" where
  "parse_query rest u =
     (if HasSuffix rest ''?'' \<and> count_list rest CHR ''?'' = 1
      then (butlast rest, u\<lparr>ur_force_query := True\<rparr>)
      else (fst (Cut CHR ''?'' rest), u\<lparr>ur_raw_query := snd (Cut CHR ''?'' rest)\<rparr>))"

definition parse_nofrag :: "string \<Rightarrow> goerr + url" where
  "parse_nofrag raw =
     (if has_ctl raw then Inl (ErrorString ''net/url: invalid control character in URL'')
      else if raw = ''*'' then Inr (empty_url\<lparr>ur_path := ''*''\<rparr>)
      else
        case getScheme raw of
          Inl e \<Rightarrow> Inl e
        | Inr (scheme, rest) \<Rightarrow>
            (let (rest', u) = parse_query rest (empty_url\<lparr>ur_scheme := is_scheme_lower scheme\<rparr>)
             in parse_rest rest' u))"

definition UrlParse :: "string \<Rightarrow> goerr + url" where
  "UrlParse raw =
     (case parse_nofrag (fst (Cut CHR ''#'' raw)) of
        Inl e \<Rightarrow> Inl (Wrapped ''parse'' e)
      | Inr u \<Rightarrow>
          (if snd (Cut CHR ''#'' raw) = '''' then Inr u
           else case setFragment (snd (Cut CHR ''#'' raw)) u of Inl e \<Rightarrow> Inl (Wrapped ''parse'' e) | Inr v \<Rightarrow> Inr v))"

section \<open>Printing\<close>

definition user_string :: "string \<times> string option \<Rightarrow> string" where
  "user_string us =
     escape EncodeUserPassword (fst us) @
     (case snd us of None \<Rightarrow> '''' | Some pw \<Rightarrow> '':'' @ escape EncodeUserPassword pw)"

definition url_authority :: "url \<Rightarrow> string" where
  "url_authority u =
     (if ur_scheme u \<noteq> '''' \<or> ur_host u \<noteq> '''' \<or> ur_user u \<noteq> None then
        (if ur_omit_host u \<and> ur_host u = '''' \<and> ur_user u = None then ''''
         else
           (if ur_host u \<noteq> '''' \<or> ur_path u \<noteq> '''' \<or> ur_user u \<noteq> None then ''//'' else '''') @
           (case ur_user u of None \<Rightarrow> '''' | Some us \<Rightarrow> user_string us @ ''@'') @
           (if ur_host u \<noteq> '''' then escape EncodeHost (ur_host u) else ''''))
      else '''')"

definition url_hier :: "url \<Rightarrow> string" where
  "url_hier u =
     (let front = (if ur_scheme u \<noteq> '''' then ur_scheme u @ '':'' else '''') @ url_authority u;
          path = EscapedPath u;
          slash = (if path \<noteq> '''' \<and> hd path \<noteq> CHR ''/'' \<and> ur_host u \<noteq> '''' then ''/'' else '''');
          dot = (if front @ slash = '''' \<and> CHR '':'' \<in> set (fst (Cut CHR ''/'' path)) then ''./'' else '''')
      in front @ slash @ dot @ path)"

definition url_tail :: "url \<Rightarrow> string" where
  "url_tail u =
     (if ur_force_query u \<or> ur_raw_query u \<noteq> '''' then ''?'' @ ur_raw_query u else '''') @
     (if ur_fragment u \<noteq> '''' then ''#'' @ EscapedFragment u else '''')"

definition UrlString :: "url \<Rightarrow> string" where
  "UrlString u =
     (if ur_opaque u \<noteq> '''' then (if ur_scheme u \<noteq> '''' then ur_scheme u @ '':'' else '''') @ ur_opaque u else url_hier u) @
     url_tail u"

section \<open>References\<close>

text \<open>The loop of \<open>resolvePath\<close> over the elements; \<open>dst\<close> is what was written, after the first slash.\<close>

fun resolve_elems :: "string list \<Rightarrow> string \<Rightarrow> bool \<Rightarrow> string" where
  "resolve_elems [] dst first = dst"
| "resolve_elems (el # els) dst first =
     (if el = ''.'' then resolve_elems els dst False
      else if el = ''..'' then
        (if CHR ''/'' \<in> set dst then resolve_elems els (before_last CHR ''/'' dst) first
         else resolve_elems els '''' True)
      else resolve_elems els (if first then dst @ el else dst @ ''/'' @ el) False)"

definition resolvePath :: "string \<Rightarrow> string \<Rightarrow> string" where
  "resolvePath base ref =
     (let full = (if ref = '''' then base
                  else if hd ref \<noteq> CHR ''/''
                  then (if CHR ''/'' \<in> set base then before_last CHR ''/'' base @ ''/'' else '''') @ ref
                  else ref) in
      if full = '''' then ''''
      else
        let els = SplitByte CHR ''/'' full;
            r = ''/'' @ resolve_elems els '''' True @ (if last els = ''.'' \<or> last els = ''..'' then ''/'' else '''')
        in if 1 < length r \<and> r ! 1 = CHR ''/'' then tl r else r)"

text \<open>The error of \<open>setPath\<close> is ignored here; it then leaves the URL as it was.\<close>

definition set_path :: "string \<Rightarrow> url \<Rightarrow> url" where
  "set_path p u = (case setPath p u of Inl _ \<Rightarrow> u | Inr v \<Rightarrow> v)"

definition ResolveReference :: "url \<Rightarrow> url \<Rightarrow> url" where
  "ResolveReference u ref =
     (let v = (if ur_scheme ref = '''' then ref\<lparr>ur_scheme := ur_scheme u\<rparr> else ref) in
      if ur_scheme ref \<noteq> '''' \<or> ur_host ref \<noteq> '''' \<or> ur_user ref \<noteq> None
      then set_path (resolvePath (EscapedPath ref) '''') v
      else if ur_opaque ref \<noteq> '''' then v\<lparr>ur_user := None, ur_host := '''', ur_path := ''''\<rparr>
      else
        let v1 = (if ur_path ref = '''' \<and> \<not> ur_force_query ref \<and> ur_raw_query ref = ''''
                  then (if ur_fragment ref = ''''
                        then v\<lparr>ur_raw_query := ur_raw_query u, ur_fragment := ur_fragment u, ur_raw_fragment := ur_raw_fragment u\<rparr>
                        else v\<lparr>ur_raw_query := ur_raw_query u\<rparr>)
                  else v) in
        if ur_path ref = '''' \<and> ur_opaque u \<noteq> ''''
        then v1\<lparr>ur_opaque := ur_opaque u, ur_user := None, ur_host := '''', ur_path := ''''\<rparr>
        else set_path (resolvePath (EscapedPath u) (EscapedPath ref)) (v1\<lparr>ur_host := ur_host u, ur_user := ur_user u\<rparr>))"

end
