(* ===== verification/URLProperties.thy ===== *)
theory URLProperties
  imports NetURL
begin

text \<open>
  Facts on \<open>net/url\<close> for URLs without anything to escape: what is printed is parsed back, and a
  path is resolved against a host.
\<close>

section \<open>Plain URLs\<close>

text \<open>
  URLs without anything to escape: a path of unreserved characters, a host of letters, digits,
  dots and dashes with an optional port, a query without control characters.
\<close>

definition plain_path :: "string \<Rightarrow> bool" where
  "plain_path p \<longleftrightarrow> list_all (\<lambda>c. \<not> shouldEscape EncodePath c) p"

definition plain_host :: "string \<Rightarrow> bool" where
  "plain_host h \<longleftrightarrow> h \<noteq> [] \<and> list_all (\<lambda>c. is_alnum c \<or> c \<in> set ''.-:'') h \<and>
     (CHR '':'' \<in> set h \<longrightarrow> validOptionalPort (CHR '':'' # after_last CHR '':'' h))"

definition plain_query :: "string \<Rightarrow> bool" where
  "plain_query q \<longleftrightarrow> CHR ''#'' \<notin> set q \<and> \<not> has_ctl q"

definition query_suffix :: "string \<Rightarrow> string" where
  "query_suffix q = (if q = [] then [] else CHR ''?'' # q)"

definition plain_url :: "string \<Rightarrow> string \<Rightarrow> string \<Rightarrow> string \<Rightarrow> url" where
  "plain_url s h p q = empty_url\<lparr>ur_scheme := s, ur_host := h, ur_path := p, ur_raw_query := q\<rparr>"

lemma plain_printable:
  assumes "\<not> shouldEscape EncodePath c"
  shows "0x20 < (of_char c :: nat) \<and> (of_char c :: nat) < 0x7F"
proof -
  have "is_alnum c \<or> c \<in> set ''-_.~'' \<or> c \<in> set ''$&+,/:;=?@''"
  proof (rule ccontr)
    assume "\<not> ?thesis"
    then have "shouldEscape EncodePath c" unfolding shouldEscape_def by (simp del: list.set)
    with assms show False by simp
  qed
  moreover have "\<forall>d \<in> set ''-_.~''. 0x20 < (of_char d :: nat) \<and> (of_char d :: nat) < 0x7F"
    "\<forall>d \<in> set ''$&+,/:;=?@''. 0x20 < (of_char d :: nat) \<and> (of_char d :: nat) < 0x7F" by code_simp+
  ultimately show ?thesis by (auto simp add: is_alnum_def ascii_letter_def ascii_digit_def simp del: list.set)
qed

lemma plain_char:
  assumes "\<not> shouldEscape EncodePath c"
  shows "c \<noteq> CHR ''%'' \<and> c \<noteq> CHR ''?'' \<and> c \<noteq> CHR ''#'' \<and> \<not> ((of_char c :: nat) < 0x20 \<or> (of_char c :: nat) = 0x7F)"
proof -
  have "shouldEscape EncodePath CHR ''%''" "shouldEscape EncodePath CHR ''?''" "shouldEscape EncodePath CHR ''#''"
    by code_simp+
  then show ?thesis using assms plain_printable [OF assms] by auto
qed

lemma plain_pathD:
  assumes "plain_path p"
  shows "CHR ''%'' \<notin> set p" "CHR ''?'' \<notin> set p" "CHR ''#'' \<notin> set p" "\<not> has_ctl p"
  using assms plain_char by (fastforce simp add: plain_path_def list_all_iff has_ctl_def list_ex_iff)+

lemma unescape_plain: "plain_path p \<Longrightarrow> unescape EncodePath p = Inr p"
proof (induction p)
  case (Cons c p)
  then have "c \<noteq> CHR ''%''" "unescape EncodePath p = Inr p" using plain_char by (auto simp add: plain_path_def)
  then show ?case by simp
qed simp

lemma escape_plain: "plain_path p \<Longrightarrow> escape EncodePath p = p"
  by (induction p) (auto simp add: plain_path_def escape_def)

lemma setPath_plain: "plain_path p \<Longrightarrow> setPath p u = Inr (u\<lparr>ur_path := p, ur_raw_path := ''''\<rparr>)"
  by (simp add: setPath_def unescape_plain escape_plain)

lemma EscapedPath_plain: "plain_path (ur_path u) \<Longrightarrow> ur_raw_path u = '''' \<Longrightarrow> EscapedPath u = ur_path u"
  by (simp add: EscapedPath_def escape_plain)

lemma has_ctl_append [simp]: "has_ctl (s @ t) \<longleftrightarrow> has_ctl s \<or> has_ctl t"
  by (simp add: has_ctl_def)

lemma Cut_absent: "c \<notin> set s \<Longrightarrow> Cut c s = (s, [])"
  by (induction s) (auto simp add: Cut_def)

lemma Cut_at: "c \<notin> set s \<Longrightarrow> Cut c (s @ c # t) = (s, t)"
  by (auto simp add: Cut_def takeWhile_append dropWhile_append)

lemma query_suffix_facts:
  assumes "plain_query q"
  shows "CHR ''#'' \<notin> set (query_suffix q)" "\<not> has_ctl (query_suffix q)"
  using assms by (auto simp add: query_suffix_def plain_query_def has_ctl_def)

lemma parse_query_plain:
  assumes "CHR ''?'' \<notin> set p"
  shows "parse_query (p @ query_suffix q) u = (p, u\<lparr>ur_raw_query := q\<rparr>)"
proof (cases "q = []")
  case True
  have "\<not> HasSuffix p ''?''" using assms by (auto simp add: HasSuffix_iff)
  with True show ?thesis by (simp add: parse_query_def query_suffix_def Cut_absent [OF assms])
next
  case False
  have no: "\<not> (HasSuffix (p @ CHR ''?'' # q) ''?'' \<and> count_list (p @ CHR ''?'' # q) CHR ''?'' = 1)"
  proof
    assume h: "HasSuffix (p @ CHR ''?'' # q) ''?'' \<and> count_list (p @ CHR ''?'' # q) CHR ''?'' = 1"
    then have "CHR ''?'' \<notin> set q" using assms by (simp add: count_list_0_iff)
    moreover from h obtain t where "p @ CHR ''?'' # q = t @ ''?''" by (auto simp add: HasSuffix_iff)
    then have "last q = CHR ''?''" using False by (metis append_is_Nil_conv last.simps last_appendR last_snoc list.discI)
    ultimately show False using False last_in_set by metis
  qed
  then have "parse_query (p @ CHR ''?'' # q) u = (p, u\<lparr>ur_raw_query := q\<rparr>)"
    by (simp only: parse_query_def no if_False Cut_at [OF assms] fst_conv snd_conv)
  with False show ?thesis by (simp add: query_suffix_def)
qed

text \<open>A reference that is a path on the same host.\<close>

lemma UrlParse_path:
  assumes p: "plain_path (CHR ''/'' # p)" "\<not> HasPrefix p ''/''" and q: "plain_query q"
  shows "UrlParse (CHR ''/'' # p @ query_suffix q) = Inr (plain_url '''' '''' (CHR ''/'' # p) q)"
proof -
  let ?p = "CHR ''/'' # p" and ?raw = "CHR ''/'' # p @ query_suffix q"
  have raw: "?raw = ?p @ query_suffix q" by simp
  have cut: "Cut CHR ''#'' ?raw = (?raw, [])"
    using plain_pathD(3) [OF p(1)] query_suffix_facts(1) [OF q] by (intro Cut_absent) auto
  have ctl: "\<not> has_ctl ?raw"
    using plain_pathD(4) [OF p(1)] query_suffix_facts(2) [OF q] unfolding raw has_ctl_append by blast
  have scheme: "getScheme ?raw = Inr ('''', ?raw)" by (simp add: getScheme_def ascii_letter_def ascii_digit_def)
  have "\<not> HasPrefix ?p ''//''" using p(2) by (auto simp add: HasPrefix_iff)
  then have "parse_rest ?p (empty_url\<lparr>ur_raw_query := q\<rparr>) = Inr (plain_url '''' '''' ?p q)"
    using HasPrefix_append [of "''/''" p]
    by (simp add: parse_rest_def parse_hier_def setPath_plain [OF p(1)] Cut_def plain_url_def empty_url_def)
  moreover have "parse_query ?raw (empty_url\<lparr>ur_scheme := ''''\<rparr>) = (?p, empty_url\<lparr>ur_raw_query := q\<rparr>)"
    unfolding raw using parse_query_plain [OF plain_pathD(2) [OF p(1)]] by (simp add: empty_url_def)
  ultimately have "parse_nofrag ?raw = Inr (plain_url '''' '''' ?p q)"
    using ctl scheme by (simp add: parse_nofrag_def is_scheme_lower_def)
  then show ?thesis using cut by (simp add: UrlParse_def)
qed

section \<open>Absolute URLs\<close>

lemma plain_hostD:
  assumes "plain_host h"
  shows "h \<noteq> []" "c \<in> set h \<Longrightarrow> is_alnum c \<or> c \<in> set ''.-:''"
  using assms by (auto simp add: plain_host_def list_all_iff simp del: list.set)

lemma plain_host_char:
  assumes "plain_host h" "c \<in> set h"
  shows "c \<notin> set ''/?#@[]%'' \<and> \<not> shouldEscape EncodeHost c \<and> \<not> ((of_char c :: nat) < 0x20 \<or> (of_char c :: nat) = 0x7F)"
proof -
  have "\<forall>d \<in> set ''.-:''. d \<notin> set ''/?#@[]%'' \<and> \<not> shouldEscape EncodeHost d \<and>
      \<not> ((of_char d :: nat) < 0x20 \<or> (of_char d :: nat) = 0x7F)" by code_simp
  moreover have "\<forall>d \<in> set ''/?#@[]%''. \<not> is_alnum d" by code_simp
  moreover have "is_alnum c \<or> c \<in> set ''.-:''" using plain_hostD(2) [OF assms] .
  moreover have "is_alnum c \<Longrightarrow> \<not> ((of_char c :: nat) < 0x20 \<or> (of_char c :: nat) = 0x7F)"
    by (auto simp add: is_alnum_def ascii_letter_def ascii_digit_def)
  moreover have "is_alnum c \<Longrightarrow> \<not> shouldEscape EncodeHost c" by (simp add: shouldEscape_def)
  ultimately show ?thesis by metis
qed

lemma plain_host_facts:
  assumes "plain_host h"
  shows "CHR ''/'' \<notin> set h" "CHR ''?'' \<notin> set h" "CHR ''#'' \<notin> set h" "CHR ''@'' \<notin> set h" "CHR ''['' \<notin> set h"
    "CHR ''%'' \<notin> set h" "\<not> has_ctl h" "escape EncodeHost h = h"
proof -
  note c = plain_host_char [OF assms]
  show "CHR ''/'' \<notin> set h" "CHR ''?'' \<notin> set h" "CHR ''#'' \<notin> set h" "CHR ''@'' \<notin> set h" "CHR ''['' \<notin> set h"
    "CHR ''%'' \<notin> set h"
    using c by fastforce+
  show "\<not> has_ctl h" using c by (auto simp add: has_ctl_def list_ex_iff)
  have "\<forall>c \<in> set h. \<not> shouldEscape EncodeHost c" using c by blast
  then show "escape EncodeHost h = h" by (induction h) (auto simp add: escape_def)
qed

lemma unescape_host:
  "\<forall>c \<in> set h. c \<noteq> CHR ''%'' \<and> \<not> shouldEscape EncodeHost c \<Longrightarrow> unescape EncodeHost h = Inr h"
  by (induction h) auto

lemma parseAuthority_plain:
  assumes "plain_host h"
  shows "parseAuthority h = Inr (None, h)"
proof -
  note f = plain_host_facts [OF assms]
  have "\<forall>c \<in> set h. c \<noteq> CHR ''%'' \<and> \<not> shouldEscape EncodeHost c" using plain_host_char [OF assms] f(6) by blast
  then have "unescape EncodeHost h = Inr h" by (rule unescape_host)
  moreover have "\<not> HasPrefix h ''[''" using f(5) by (auto simp add: HasPrefix_iff)
  moreover have "CHR '':'' \<in> set h \<longrightarrow> validOptionalPort (CHR '':'' # after_last CHR '':'' h)"
    using assms by (simp add: plain_host_def)
  ultimately show ?thesis using f(4) by (simp add: parseAuthority_def parseHost_def)
qed

definition web_scheme :: "string \<Rightarrow> bool" where
  "web_scheme s \<longleftrightarrow> s = ''http'' \<or> s = ''https''"

lemma web_scheme_facts:
  assumes "web_scheme s"
  shows "s \<noteq> []" "getScheme (s @ '':'' @ t) = Inr (s, t)" "is_scheme_lower s = s" "CHR ''#'' \<notin> set s" "\<not> has_ctl s"
proof -
  have "is_scheme_lower ''http'' = ''http''" "is_scheme_lower ''https'' = ''https''" by code_simp+
  then show "s \<noteq> []" "getScheme (s @ '':'' @ t) = Inr (s, t)" "is_scheme_lower s = s" "CHR ''#'' \<notin> set s" "\<not> has_ctl s"
    using assms by (auto simp add: web_scheme_def getScheme_def ascii_letter_def ascii_digit_def has_ctl_def)
qed

lemma UrlString_plain_path:
  assumes "web_scheme s" "plain_host h" "plain_path p" "p = [] \<or> hd p = CHR ''/''"
  shows "UrlString (plain_url s h p q) = s @ ''://'' @ h @ p @ query_suffix q"
  using assms(3,4) plain_hostD(1) [OF assms(2)] web_scheme_facts(1) [OF assms(1)] plain_host_facts(8) [OF assms(2)]
  by (simp add: UrlString_def url_hier_def url_authority_def url_tail_def plain_url_def empty_url_def EscapedPath_plain
      query_suffix_def Let_def)

lemma UrlParse_plain_path:
  assumes s: "web_scheme s" and h: "plain_host h" and p: "plain_path p" "p = [] \<or> hd p = CHR ''/''" and q: "plain_query q"
  shows "UrlParse (s @ ''://'' @ h @ p @ query_suffix q) = Inr (plain_url s h p q)"
proof -
  let ?rest = "''//'' @ h @ p" and ?raw = "s @ ''://'' @ h @ p @ query_suffix q"
  note sf = web_scheme_facts [OF s] and hf = plain_host_facts [OF h] and pf = plain_pathD [OF p(1)] and qf = query_suffix_facts [OF q]
  have cut: "Cut CHR ''#'' ?raw = (?raw, [])"
    using sf(4) hf(3) pf(3) qf(1) by (intro Cut_absent) auto
  have ctl: "\<not> has_ctl ?raw"
  proof -
    have "?raw = s @ ''://'' @ h @ p @ query_suffix q" "\<not> has_ctl ''://''" by (simp_all add: has_ctl_def)
    then show ?thesis using sf(5) hf(7) pf(4) qf(2) unfolding has_ctl_append by (metis has_ctl_append append_Cons)
  qed
  have scheme: "getScheme ?raw = Inr (s, ?rest @ query_suffix q)"
    using sf(2) [of "?rest @ query_suffix q"] by simp
  have query: "parse_query (?rest @ query_suffix q) u = (?rest, u\<lparr>ur_raw_query := q\<rparr>)" for u
    using hf(2) pf(2) by (intro parse_query_plain) auto
  have "takeWhile (\<lambda>c. c \<noteq> CHR ''/'') (h @ p) = h" "dropWhile (\<lambda>c. c \<noteq> CHR ''/'') (h @ p) = p"
    using hf(1) p(2) by (cases p; auto simp add: takeWhile_append dropWhile_append)+
  moreover have "HasPrefix ?rest ''//''" "HasPrefix ?rest ''/''" 
    using HasPrefix_append [of "''/''" "''/'' @ h @ p"] HasPrefix_append [of "''//''" "h @ p"] by simp_all
  ultimately have "parse_rest ?rest (empty_url\<lparr>ur_scheme := s, ur_raw_query := q\<rparr>) = Inr (plain_url s h p q)"
    using sf(1) by (simp add: parse_rest_def parse_hier_def parseAuthority_plain [OF h] setPath_plain [OF p(1)] plain_url_def empty_url_def)
  then have "parse_nofrag ?raw = Inr (plain_url s h p q)"
    using ctl scheme query sf(3) by (simp add: parse_nofrag_def)
  then show ?thesis using cut by (simp add: UrlParse_def)
qed


lemma UrlString_plain:
  "web_scheme s \<Longrightarrow> plain_host h \<Longrightarrow> plain_path (CHR ''/'' # p) \<Longrightarrow>
     UrlString (plain_url s h (CHR ''/'' # p) q) = s @ ''://'' @ h @ CHR ''/'' # p @ query_suffix q"
  using UrlString_plain_path [of s h "CHR ''/'' # p" q] by simp

lemma UrlParse_plain:
  "web_scheme s \<Longrightarrow> plain_host h \<Longrightarrow> plain_path (CHR ''/'' # p) \<Longrightarrow> plain_query q \<Longrightarrow>
     UrlParse (s @ ''://'' @ h @ CHR ''/'' # p @ query_suffix q) = Inr (plain_url s h (CHR ''/'' # p) q)"
  using UrlParse_plain_path [of s h "CHR ''/'' # p" q] by simp

section \<open>References\<close>

lemma set_before_last: "set (before_last c s) \<subseteq> set s"
proof -
  have "set (tl xs) \<subseteq> set xs" for xs :: string by (cases xs) auto
  moreover have "set (dropWhile (\<lambda>x. x \<noteq> c) (rev s)) \<subseteq> set (rev s)" by (auto dest: set_dropWhileD)
  ultimately show ?thesis unfolding before_last_def by fastforce
qed

lemma plain_path_iff: "plain_path p \<longleftrightarrow> (\<forall>c \<in> set p. \<not> shouldEscape EncodePath c)"
  by (simp add: plain_path_def list_all_iff)

lemma plain_path_slash: "plain_path ''/''"
  by code_simp

lemma plain_path_append [simp]: "plain_path (s @ t) \<longleftrightarrow> plain_path s \<and> plain_path t"
  by (simp add: plain_path_def)

lemma plain_path_Cons_slash [simp]: "plain_path (CHR ''/'' # s) \<longleftrightarrow> plain_path s"
  using plain_path_slash by (simp add: plain_path_def)

lemma resolve_elems_plain:
  "list_all plain_path els \<Longrightarrow> plain_path dst \<Longrightarrow> plain_path (resolve_elems els dst first)"
proof (induction els arbitrary: dst first)
  case (Cons el els)
  have "plain_path (before_last CHR ''/'' dst)"
    using Cons.prems(2) set_before_last [of "CHR ''/''" dst] unfolding plain_path_iff by blast
  moreover have "plain_path ''''" by (simp add: plain_path_def)
  ultimately show ?case using Cons by simp
qed simp

lemma set_SplitByte: "w \<in> set (SplitByte c s) \<Longrightarrow> set w \<subseteq> set s"
  by (induction s arbitrary: w) (auto split: list.splits if_splits, blast+)

lemma resolvePath_plain:
  assumes "plain_path (CHR ''/'' # p)"
  shows "\<exists>r. resolvePath base (CHR ''/'' # p) = CHR ''/'' # r \<and> plain_path (CHR ''/'' # r)"
proof -
  let ?els = "SplitByte CHR ''/'' (CHR ''/'' # p)"
  let ?t = "resolve_elems ?els '''' True @ (if last ?els = ''.'' \<or> last ?els = ''..'' then ''/'' else '''')"
  have "list_all plain_path ?els"
    using assms set_SplitByte [of _ "CHR ''/''" "CHR ''/'' # p"] unfolding plain_path_iff list_all_iff by blast
  then have "plain_path (resolve_elems ?els '''' True)" by (intro resolve_elems_plain) (simp_all add: plain_path_iff)
  then have t: "plain_path (CHR ''/'' # ?t)" using plain_path_slash by (auto simp add: plain_path_iff)
  have eq: "resolvePath base (CHR ''/'' # p) =
      (if 1 < length (CHR ''/'' # ?t) \<and> (CHR ''/'' # ?t) ! 1 = CHR ''/'' then ?t else CHR ''/'' # ?t)"
    by (simp add: resolvePath_def Let_def del: SplitByte.simps)
  show ?thesis
  proof (cases "1 < length (CHR ''/'' # ?t) \<and> (CHR ''/'' # ?t) ! 1 = CHR ''/''")
    case True
    then have "resolvePath base (CHR ''/'' # p) = ?t" using eq by (simp only: True if_True simp_thms)
    moreover from True obtain r where "?t = CHR ''/'' # r" by (cases ?t) auto
    ultimately show ?thesis using t by (auto simp add: plain_path_iff)
  next
    case False
    then have "resolvePath base (CHR ''/'' # p) = CHR ''/'' # ?t" using eq by (simp only: False if_False)
    with t show ?thesis by blast
  qed
qed

lemma resolve_elems_straight:
  "\<forall>e \<in> set els. e \<noteq> ''.'' \<and> e \<noteq> ''..'' \<Longrightarrow>
     resolve_elems els dst False = dst @ concat (map ((#) CHR ''/'') els)"
  by (induction els arbitrary: dst) auto

lemma concat_slash: "els \<noteq> [] \<Longrightarrow> concat (map ((#) CHR ''/'') els) = CHR ''/'' # Join els ''/''"
  by (induction els "''/''" rule: Join.induct) auto

lemma resolvePath_straight:
  assumes "\<forall>e \<in> set (SplitByte CHR ''/'' p). e \<noteq> ''.'' \<and> e \<noteq> ''..''"
  shows "resolvePath base (CHR ''/'' # p) = CHR ''/'' # p"
proof -
  let ?els = "SplitByte CHR ''/'' p"
  have "resolve_elems ?els [] False = CHR ''/'' # p"
    using resolve_elems_straight [OF assms, of "[]"] concat_slash [OF SplitByte_nonempty] Join_SplitByte by simp
  moreover have "last ?els \<noteq> ''.''" "last ?els \<noteq> ''..''" using assms last_in_set [OF SplitByte_nonempty] by blast+
  ultimately show ?thesis using SplitByte_nonempty [of "CHR ''/''" p] by (simp add: resolvePath_def Let_def)
qed

lemma ResolveReference_path:
  assumes b: "ur_scheme b = s" "ur_host b = h" "ur_user b = None" "s \<noteq> ''''"
    and p: "plain_path (CHR ''/'' # p)"
  shows "ResolveReference b (plain_url '''' '''' (CHR ''/'' # p) q) = plain_url s h (resolvePath '''' (CHR ''/'' # p)) q"
proof -
  have "EscapedPath (plain_url '''' '''' (CHR ''/'' # p) q) = CHR ''/'' # p"
    using p by (simp add: EscapedPath_plain plain_url_def empty_url_def)
  moreover have "resolvePath base (CHR ''/'' # p) = resolvePath '''' (CHR ''/'' # p)" for base
    by (simp add: resolvePath_def)
  moreover obtain r where "resolvePath '''' (CHR ''/'' # p) = CHR ''/'' # r" "plain_path (CHR ''/'' # r)"
    using resolvePath_plain [OF p] by blast
  ultimately show ?thesis
    using b by (simp add: ResolveReference_def Let_def set_path_def setPath_plain plain_url_def empty_url_def)
qed

end
