(* ===== verification/Discovery.thy ===== *)
theory Discovery
  imports URLProperties
begin

text \<open>
  \<open>internal/discovery/reporter.go\<close>: the address of the API that the server publishes, and the
  reports it sends. The HTTP client is not part of a report's content; the body is the payload
  before it is encoded.
\<close>

record reporter_config =
  rp_enabled :: bool
  rp_url :: string
  rp_secret :: string

record report_payload =
  py_api_url :: string
  py_wg_endpoint :: string

record reporter =
  rep_cfg :: reporter_config
  rep_api_addr :: string

definition TrimRightByte :: "char \<Rightarrow> string \<Rightarrow> string" where
  "TrimRightByte c s = rev (dropWhile (\<lambda>x. x = c) (rev s))"

definition api_path :: "string \<Rightarrow> string" where
  "api_path path =
     (let p = TrimRightByte CHR ''/'' path in
      if p = '''' then ''/api/v1'' else if \<not> HasSuffix p ''/api/v1'' then p @ ''/api/v1'' else p)"

definition APIURL :: "string \<Rightarrow> string" where
  "APIURL addr =
     (let a = TrimSpace addr in
      if a = '''' then ''''
      else
        case UrlParse (if Contains a ''://'' then a else ''https://'' @ a) of
          Inl _ \<Rightarrow> ''''
        | Inr parsed \<Rightarrow>
            if ur_host parsed = '''' then ''''
            else UrlString (parsed\<lparr>ur_raw_query := '''', ur_fragment := '''', ur_path := api_path (ur_path parsed)\<rparr>))"

definition NewReporterFunc :: "reporter_config \<Rightarrow> string \<Rightarrow> reporter" where
  "NewReporterFunc cfg apiAddr = \<lparr>rep_cfg = cfg, rep_api_addr = APIURL apiAddr\<rparr>"

text \<open>
  One \<open>report\<close>: the request it makes, if any. \<open>endpoint\<close> is what \<open>wgEndpointValue\<close> answers; the
  reports of \<open>Start\<close> are one at once and one at each tick.
\<close>

record report_request =
  rr_url :: string
  rr_content_type :: string
  rr_authorization :: string
  rr_payload :: report_payload

definition report :: "reporter \<Rightarrow> string \<Rightarrow> report_request option" where
  "report r endpoint =
     (if rep_api_addr r = '''' then None
      else Some \<lparr>rr_url = rp_url (rep_cfg r), rr_content_type = ''application/json'',
        rr_authorization = ''Bearer '' @ rp_secret (rep_cfg r),
        rr_payload = \<lparr>py_api_url = rep_api_addr r, py_wg_endpoint = endpoint\<rparr>\<rparr>)"

text \<open>The endpoints that were current at the first report and at the ticks that followed.\<close>

definition reports :: "reporter \<Rightarrow> string list \<Rightarrow> report_request list" where
  "reports r endpoints = (if rp_enabled (rep_cfg r) then List.map_filter (report r) endpoints else [])"

section \<open>The published address\<close>

definition printable :: "string \<Rightarrow> bool" where
  "printable s \<longleftrightarrow> list_all (\<lambda>c. 0x20 < (of_char c :: nat) \<and> (of_char c :: nat) < 0x7F) s"

lemma printable_append [simp]: "printable (s @ t) \<longleftrightarrow> printable s \<and> printable t"
  by (simp add: printable_def)

lemma TrimSpace_printable: "printable s \<Longrightarrow> TrimSpace s = s"
proof -
  assume s: "printable s"
  have seqs: "\<forall>p \<in> set space_seqs. \<not> printable p" by code_simp
  have "\<not> space_start s"
  proof
    assume "space_start s"
    then obtain p t where "p \<in> set space_seqs" "s = p @ t" by (auto simp add: space_start_def HasPrefix_iff)
    with s seqs show False by auto
  qed
  moreover have "\<not> space_end s"
  proof
    assume "space_end s"
    then obtain p t where "p \<in> set space_seqs" "s = t @ p" by (auto simp add: space_end_def HasSuffix_iff)
    with s seqs show False by auto
  qed
  ultimately show ?thesis by (rule TrimSpace_id)
qed

lemma plain_path_printable: "plain_path p \<Longrightarrow> printable p"
  using plain_printable by (simp add: plain_path_def printable_def list_all_iff)

lemma plain_host_printable: "plain_host h \<Longrightarrow> printable h"
proof -
  have "\<forall>d \<in> set ''.-:''. 0x20 < (of_char d :: nat) \<and> (of_char d :: nat) < 0x7F" by code_simp
  then show "plain_host h \<Longrightarrow> printable h"
    using plain_hostD(2) unfolding printable_def list_all_iff is_alnum_def ascii_letter_def ascii_digit_def by fastforce
qed

definition printable_query :: "string \<Rightarrow> bool" where
  "printable_query q \<longleftrightarrow> printable q \<and> CHR ''#'' \<notin> set q"

lemma printable_plain_query: "printable_query q \<Longrightarrow> plain_query q"
  by (auto simp add: printable_query_def plain_query_def printable_def has_ctl_def list_all_iff list_ex_iff)

lemma TrimRight_prefix: "\<exists>n. TrimRightByte c s = take n s"
proof -
  have "dropWhile (\<lambda>x. x = c) (rev s) = drop (length (takeWhile (\<lambda>x. x = c) (rev s))) (rev s)"
    by (metis dropWhile_eq_drop)
  then show ?thesis by (simp add: TrimRightByte_def rev_drop) blast
qed

lemma TrimRight_id: "s = [] \<or> last s \<noteq> c \<Longrightarrow> TrimRightByte c s = s"
  by (cases s rule: rev_cases) (auto simp add: TrimRightByte_def)

lemma api_path_ok:
  assumes "plain_path p" "p = [] \<or> hd p = CHR ''/''"
  shows "plain_path (api_path p)" "hd (api_path p) = CHR ''/''" "HasSuffix (api_path p) ''/api/v1''"
    "api_path (api_path p) = api_path p" "api_path p \<noteq> []"
proof -
  obtain n where n: "TrimRightByte CHR ''/'' p = take n p" using TrimRight_prefix by blast
  have "plain_path (take n p)" using assms(1) set_take_subset [of n p] unfolding plain_path_iff by blast
  moreover have v1: "plain_path ''/api/v1''"
    by (simp add: plain_path_def shouldEscape_def is_alnum_def ascii_letter_def ascii_digit_def)
  ultimately show plain: "plain_path (api_path p)" by (simp add: api_path_def n Let_def)
  show hd: "hd (api_path p) = CHR ''/''" using assms(2) n by (cases p; cases n) (auto simp add: api_path_def Let_def)
  show suf: "HasSuffix (api_path p) ''/api/v1''"
    using HasSuffix_append [of "[]" "''/api/v1''"] by (simp add: api_path_def Let_def)
  then obtain t where t: "api_path p = t @ ''/api/v1''" by (auto simp add: HasSuffix_iff)
  then show ne: "api_path p \<noteq> []" by simp
  have "last (api_path p) \<noteq> CHR ''/''" unfolding t by simp
  then have "TrimRightByte CHR ''/'' (api_path p) = api_path p" by (intro TrimRight_id) simp
  then show "api_path (api_path p) = api_path p" using suf ne by (simp only: api_path_def [of "api_path p"] Let_def) simp
qed




text \<open>A question mark with nothing behind it stays: \<open>ForceQuery\<close> is not cleared.\<close>

lemma APIURL_keeps_question_mark: "APIURL ''https://h/?'' = ''https://h/api/v1?''"
  by code_simp

end
