(* ===== verification/Boot.thy ===== *)
theory Boot
  imports Restart ConfigProperties MigrationProperties PunchProperties Discovery
begin

text \<open>
  \<open>main\<close> of \<open>cmd/scnet-server/main.go\<close>: the parts put together. From the configuration file, the
  environment, the database and the host it makes a running server, or exits with an error. The
  database the migrations run on is the tables of the world. Everything outside the process is in
  \<open>boot_env\<close>.
\<close>

section \<open>Starting\<close>

record 'h boot_env =
  be_libs :: libs
  be_read_file :: "string \<Rightarrow> goerr + string"
  be_yaml :: yaml
  be_env :: "string \<Rightarrow> string"
  be_open :: "string \<Rightarrow> goerr option"  \<comment> \<open>\<open>pgxpool.New\<close> for a connection string\<close>
  be_ping :: "goerr option"
  be_sql :: "string \<Rightarrow> world \<Rightarrow> world option"
  be_legacy :: "world \<Rightarrow> bool"
  be_is_dir :: "string \<Rightarrow> bool"
  be_exe :: "string option"
  be_read_dir :: "string \<Rightarrow> goerr + entry list"
  be_wgctrl :: "goerr option"
  be_upstream :: "punch_config \<Rightarrow> goerr + string"  \<comment> \<open>\<open>net.ResolveUDPAddr\<close> of the WireGuard address\<close>
  be_listen :: "goerr option"
  be_probes :: "probe list"
  be_look_path :: "goerr option"
  be_ip :: "string list \<Rightarrow> ('h, string \<times> string, unit) op"
  be_match :: "route list \<Rightarrow> string \<Rightarrow> string \<Rightarrow> (route \<times> (string \<times> string) list) option"
  be_slash :: "route list \<Rightarrow> string \<Rightarrow> string \<Rightarrow> bool"

text \<open>\<open>if err != nil { slog.Error(...); os.Exit(1) }\<close>; the error is kept, the log is not.\<close>

definition orExit :: "goerr + 'a \<Rightarrow> ('a \<Rightarrow> goerr + 'b) \<Rightarrow> goerr + 'b" where
  "orExit r k = (case r of Inl e \<Rightarrow> Inl e | Inr x \<Rightarrow> k x)"

definition failing :: "goerr option \<Rightarrow> goerr + unit" where
  "failing e = (case e of None \<Rightarrow> Inr () | Some err \<Rightarrow> Inl err)"

definition NewPool :: "(string \<Rightarrow> goerr option) \<Rightarrow> goerr option \<Rightarrow> database_section \<Rightarrow> goerr + unit" where
  "NewPool opened ping cfg =
     (case opened (DSN cfg) of
        Some err \<Rightarrow> Inl (Wrapped ''create connection pool'' err)
      | None \<Rightarrow> (case ping of Some err \<Rightarrow> Inl (Wrapped ''ping database'' err) | None \<Rightarrow> Inr ()))"

definition punchConfig :: "config \<Rightarrow> int \<Rightarrow> punch_config" where
  "punchConfig cfg wgPort =
     (let p = c_punch cfg in
      \<lparr>pc_listen_port = pn_listen_port p, pc_wireguard_host = pn_wireguard_host p, pc_wireguard_port = wgPort,
       pc_stun_servers = pn_stun_servers p, pc_probe_timeout = wrap_int (pn_probe_timeout p * second),
       pc_keepalive_interval = wrap_int (pn_keepalive_interval p * second)\<rparr>)"

definition start_punch :: "'h boot_env \<Rightarrow> config \<Rightarrow> int \<Rightarrow> goerr + string" where
  "start_punch E cfg wgPort =
     (let pc = punchConfig cfg wgPort in
      case (case be_upstream E pc of
              Inl e \<Rightarrow> Start pc (Some e) (be_listen E) '''' (be_probes E)
            | Inr wg \<Rightarrow> Start pc None (be_listen E) wg (be_probes E)) of
        Inl e \<Rightarrow> Inl e
      | Inr (_, ep) \<Rightarrow> Inr ep)"

definition endpointConfig :: "config \<Rightarrow> endpoint_config" where
  "endpointConfig cfg =
     \<lparr>ec_wg_endpoint = dc_wg_endpoint (c_discovery cfg), ec_punch_enabled = pn_enabled (c_punch cfg),
      ec_punch_wg_port = pn_wireguard_port (c_punch cfg), ec_listen_port = wg_listen_port (c_wireguard cfg),
      ec_discovery_enabled = dc_enabled (c_discovery cfg)\<rparr>"

record 'h booted =
  bt_config :: config
  bt_server :: server
  bt_gw :: string
  bt_world :: world
  bt_host :: 'h
  bt_reporter :: reporter

definition ensureWireGuardReady :: "'h boot_env \<Rightarrow> string \<Rightarrow> string \<Rightarrow> world \<times> 'h \<Rightarrow> goerr + (world \<times> 'h)" where
  "ensureWireGuardReady E iface address = (\<lambda>(w, h).
     case ensureWireGuardInterface (be_look_path E) (be_ip E) iface address h of
       (Inl e, _) \<Rightarrow> Inl e
     | (Inr _, h') \<Rightarrow>
         (case SetWGEnabled (be_libs E) True w of
            (Inl e, _) \<Rightarrow> Inl (Wrapped ''configure interface'' e)
          | (Inr _, w') \<Rightarrow> Inr (w', h')))"

definition server_of :: "'h boot_env \<Rightarrow> config \<Rightarrow> server" where
  "server_of E cfg =
     \<lparr>srv_libs = be_libs E,
      srv_auth = \<lparr>jwtSecret = jwt_secret (c_jwt cfg), expiryHours = jwt_expiry_hours (c_jwt cfg)\<rparr>,
      srv_admin = \<lparr>defaultInviteMaxUses = iv_max_uses (c_invite cfg), defaultInviteExpiryDays = iv_expiry_days (c_invite cfg)\<rparr>,
      srv_match = be_match E, srv_slash = be_slash E\<rparr>"

text \<open>The state of a process that starts on the tables of \<open>w\<close>.\<close>

definition process :: "ipam \<Rightarrow> wgkey \<Rightarrow> int \<Rightarrow> string \<Rightarrow> world \<Rightarrow> world" where
  "process i key port ep w =
     w\<lparr>pool := i, limits := Map.empty, server_key := key, listen_port := port, endpoint := ep\<rparr>"

definition migrate :: "'h boot_env \<Rightarrow> (world, unit) mop" where
  "migrate E = RunMigrations (be_sql E) (be_legacy E) (be_is_dir E) (be_exe E) (be_read_dir E) ''migrations''"

definition boot :: "'h boot_env \<Rightarrow> string \<Rightarrow> world mig_db \<Rightarrow> 'h \<Rightarrow> goerr + 'h booted" where
  "boot E configPath db host =
     orExit (Load (be_read_file E) (be_yaml E) (be_env E) configPath) (\<lambda>cfg.
     orExit (NewPool (be_open E) (be_ping E) (c_database cfg)) (\<lambda>_.
     case migrate E db of (migrated, db') \<Rightarrow>
     orExit migrated (\<lambda>_.
     orExit (failing (be_wgctrl E)) (\<lambda>_.
     orExit
       (case ParseKey (be_libs E) (wg_private_key (c_wireguard cfg)) of None \<Rightarrow> Inl ErrParseKey | Some k \<Rightarrow> Inr k) (\<lambda>serverKey.
     orExit
       (init_pool (ip6 (be_libs E)) (wg_subnet (c_wireguard cfg)) (wg_address (c_wireguard cfg))) (\<lambda>(i, wgAddress, wgHostIP).
     orExit (published_endpoint (start_punch E cfg) (endpointConfig cfg)) (\<lambda>ep.
     orExit
       (ensureWireGuardReady E (wg_interface (c_wireguard cfg)) wgAddress
         (process i serverKey (wg_listen_port (c_wireguard cfg)) ep (md_rest db'), host)) (\<lambda>(w, h).
     Inr \<lparr>bt_config = cfg, bt_server = server_of E cfg, bt_gw = wgHostIP, bt_world = w, bt_host = h,
       bt_reporter = NewReporterFunc
         \<lparr>rp_enabled = dc_enabled (c_discovery cfg), rp_url = dc_url (c_discovery cfg), rp_secret = dc_secret (c_discovery cfg)\<rparr>
         (dc_api_addr (c_discovery cfg))\<rparr>))))))))"

section \<open>What a start leaves\<close>

lemma orExit_Inr: "orExit r k = Inr y \<longleftrightarrow> (\<exists>x. r = Inr x \<and> k x = Inr y)"
  by (simp add: orExit_def split: sum.splits)

definition same_tables :: "world \<Rightarrow> world \<Rightarrow> bool" where
  "same_tables w v \<longleftrightarrow> users v = users w \<and> invites v = invites w \<and> peers v = peers w"

text \<open>Turning the interface on configures the device with the server's key and port, and no more.\<close>

lemma SetWGEnabled_wp:
  "wp (SetWGEnabled L True) (\<lambda>r v. same_tables w v \<and> pool v = pool w \<and> limits v = limits w \<and> server_key v = server_key w \<and>
     listen_port v = listen_port w \<and>
     (r = Inr () \<longrightarrow> (\<exists>ps. device v = wg_apply L \<lparr>cfg_private_key = Some (server_key w), cfg_listen_port = Some (listen_port w),
        cfg_replace_peers = True, cfg_peers = ps\<rparr> (device w)))) w"
proof -
  obtain r w1 where l: "peers_ListActive w = (r, w1)" by (rule prod.exhaust)
  have "stutters w w1" using readonlyD [OF readonly_peers_ListActive l] .
  from stutters_same [OF this] l show ?thesis
    by (cases r) (auto simp add: SetWGEnabled_def enableWG_def wp_rules wp_def [of peers_ListActive] same_tables_def tick_def)
qed

lemma SetWGEnabled_run:
  assumes "SetWGEnabled L True w = (Inr (), v)"
  shows "same_tables w v" "pool v = pool w" "limits v = limits w" "server_key v = server_key w" "listen_port v = listen_port w"
    "\<exists>ps. device v = wg_apply L \<lparr>cfg_private_key = Some (server_key w), cfg_listen_port = Some (listen_port w),
        cfg_replace_peers = True, cfg_peers = ps\<rparr> (device w)"
  using wp_I [OF SetWGEnabled_wp assms] by simp_all

text \<open>Migrations that do not touch the rows of the three tables.\<close>

definition rows_kept :: "(string \<Rightarrow> world \<Rightarrow> world option) \<Rightarrow> bool" where
  "rows_kept sql \<longleftrightarrow> (\<forall>up w v. sql up w = Some v \<longrightarrow> same_tables w v)"

lemma migrate_rows:
  assumes "rows_kept (be_sql E)" "migrate E db = (Inr (), db')"
  shows "same_tables (md_rest db) (md_rest db')"
proof -
  have run: "RunMigrations (be_sql E) (be_legacy E) (be_is_dir E) (be_exe E) (be_read_dir E) ''migrations'' db = (Inr (), db')"
    using assms(2) by (simp add: migrate_def)
  then obtain dir entries where dir: "ResolveMigrationsDir (be_is_dir E) (be_exe E) ''migrations'' = Inr dir"
    "be_read_dir E dir = Inr entries"
    by (auto simp add: RunMigrations_def tryE_def caseE_def fail_def split: sum.splits prod.splits)
  have "same_tables (fst u) (fst v)" if "(mig_step (be_sql E) (be_legacy E) X)\<^sup>*\<^sup>* u v" for u v X
    using that
  proof (induction rule: rtranclp_induct)
    case (step v x)
    from step(2) assms(1) have "same_tables (fst v) (fst x)" by cases (auto simp add: rows_kept_def same_tables_def)
    with step.IH show ?case by (simp add: same_tables_def)
  qed (simp add: same_tables_def)
  with RunMigrations_run [OF dir run] show ?thesis by (auto simp add: run_view_def Let_def mig_view_def)
qed

text \<open>The stages of a start that succeeded.\<close>

lemma bootE:
  assumes "boot E configPath db host = Inr b"
  obtains cfg db' key i a ep where
    "Load (be_read_file E) (be_yaml E) (be_env E) configPath = Inr cfg" "bt_config b = cfg" "bt_server b = server_of E cfg"
    "migrate E db = (Inr (), db')"
    "ParseKey (be_libs E) (wg_private_key (c_wireguard cfg)) = Some key"
    "init_pool (ip6 (be_libs E)) (wg_subnet (c_wireguard cfg)) (wg_address (c_wireguard cfg)) = Inr (i, a, bt_gw b)"
    "published_endpoint (start_punch E cfg) (endpointConfig cfg) = Inr ep"
    "SetWGEnabled (be_libs E) True (process i key (wg_listen_port (c_wireguard cfg)) ep (md_rest db')) = (Inr (), bt_world b)"
proof -
  obtain m db' where m: "migrate E db = (m, db')" by (rule prod.exhaust)
  from assms obtain cfg where cfg: "Load (be_read_file E) (be_yaml E) (be_env E) configPath = Inr cfg"
    unfolding boot_def orExit_Inr by blast
  from assms m obtain key i a gw ep w h where
    st: "m = Inr ()" "ParseKey (be_libs E) (wg_private_key (c_wireguard cfg)) = Some key"
      "init_pool (ip6 (be_libs E)) (wg_subnet (c_wireguard cfg)) (wg_address (c_wireguard cfg)) = Inr (i, a, gw)"
      "published_endpoint (start_punch E cfg) (endpointConfig cfg) = Inr ep"
      "ensureWireGuardReady E (wg_interface (c_wireguard cfg)) a
         (process i key (wg_listen_port (c_wireguard cfg)) ep (md_rest db'), host) = Inr (w, h)"
    and b: "bt_config b = cfg" "bt_server b = server_of E cfg" "bt_gw b = gw" "bt_world b = w"
    by (auto simp add: boot_def orExit_Inr cfg split: option.splits prod.splits)
  from st(5) have "SetWGEnabled (be_libs E) True (process i key (wg_listen_port (c_wireguard cfg)) ep (md_rest db')) = (Inr (), w)"
    by (auto simp add: ensureWireGuardReady_def split: prod.splits sum.splits)
  with that [OF cfg] b st(1-4) m show thesis by simp
qed





section \<open>The reference server started by \<open>main\<close>\<close>

text \<open>A migration directory with one script that changes no row; nothing outside the process fails.\<close>

definition ref_config :: config where
  "ref_config = DefaultConfig
     \<lparr>c_database := (c_database DefaultConfig)\<lparr>db_password := ''pw''\<rparr>,
      c_wireguard := (c_wireguard DefaultConfig)\<lparr>wg_private_key := ''9'', wg_subnet := ''10.8.0.0/29'', wg_address := ''''\<rparr>,
      c_jwt := (c_jwt DefaultConfig)\<lparr>jwt_secret := ''secret3''\<rparr>,
      c_discovery := (c_discovery DefaultConfig)\<lparr>dc_wg_endpoint := ''vpn:51820''\<rparr>\<rparr>"

definition ref_boot :: "unit boot_env" where
  "ref_boot =
     \<lparr>be_libs = ref_libs, be_read_file = (\<lambda>_. Inr ''''), be_yaml = (\<lambda>_ _. Inr ref_config), be_env = (\<lambda>_. ''''),
      be_open = (\<lambda>_. None), be_ping = None, be_sql = (\<lambda>_ w. Some w), be_legacy = (\<lambda>_. False),
      be_is_dir = (\<lambda>d. d = ''migrations''), be_exe = None,
      be_read_dir = (\<lambda>_. Inr [\<lparr>en_name = ''1.sql'', en_dir = False, en_data = Inr ''-- +migrate Up''\<rparr>]),
      be_wgctrl = None, be_upstream = (\<lambda>_. Inr ''''), be_listen = None, be_probes = [], be_look_path = None,
      be_ip = (\<lambda>_ h. (Inr (), h)), be_match = (\<lambda>_ _ _. None), be_slash = (\<lambda>_ _ _. False)\<rparr>"

definition ref_tables :: "world \<Rightarrow> world mig_db" where
  "ref_tables w = \<lparr>md_rest = w, md_recorded = Some [''1.sql''], md_fate = (\<lambda>_. Works), md_calls = 0\<rparr>"

lemma ref_rows_kept: "rows_kept (be_sql ref_boot)"
  by (simp add: rows_kept_def ref_boot_def same_tables_def)

lemma ref_boots:
  "case boot ref_boot ''f'' (ref_tables ref_world1) () of
     Inl _ \<Rightarrow> False
   | Inr b \<Rightarrow> bt_gw b = ''10.8.0.1'' \<and> subnet (pool (bt_world b)) = subnet ref_pool \<and> next_outcome (bt_world b) = Done"
  by code_simp

lemma ref_boots_empty: "case boot ref_boot ''f'' (ref_tables ref_start) () of Inl _ \<Rightarrow> False | Inr b \<Rightarrow> bt_gw b = ''10.8.0.1''"
  by code_simp



end
