(* ===== verification/Concurrent.thy ===== *)
theory Concurrent
  imports Restart
begin

text \<open>
  Registrations that run at the same time. gin serves each request in a goroutine of its own and the
  peer manager has no lock, only the allocator does. Here \<open>AddPeer\<close> is cut at its calls: between
  any two of them the calls of other registrations, whole removals and whatever leaves peers and
  addresses alone may come. The lemmas show which guarantees survive that, and two schedules that
  break the others.
\<close>

section \<open>One registration, call by call\<close>

datatype add_phase =
    Admitting
  | Admitted uuid "peer option"
  | Leased uuid "peer option" string
  | OnDevice uuid "peer option" string
  | Undoing string goerr
  | Releasing string goerr
  | Ended "goerr + PeerRegistration"

fun add_call :: "libs \<Rightarrow> string \<Rightarrow> wgkey \<Rightarrow> add_phase \<Rightarrow> world \<Rightarrow> add_phase \<times> world" where
  "add_call L userID k Admitting w =
     (case AddPeer_admit L userID k w of
        (Inl e, w') \<Rightarrow> (Ended (Inl e), w')
      | (Inr (uid, ex), w') \<Rightarrow> (Admitted uid ex, w'))"
| "add_call L userID k (Admitted uid ex) w =
     (case on_pool Allocate w of
        (Inl e, w') \<Rightarrow> (Ended (Inl e), w')
      | (Inr a, w') \<Rightarrow> (Leased uid ex a, w'))"
| "add_call L userID k (Leased uid ex a) w =
     (case ConfigureDevice L (peers_config [add_config k (ParseIP (ip6 L) a)]) w of
        (Inl e, w') \<Rightarrow> (Releasing a e, w')
      | (Inr _, w') \<Rightarrow> (OnDevice uid ex a, w'))"
| "add_call L userID k (OnDevice uid (Some q) a) w =
     (case peers_Activate (p_id q) a w of
        (Inl e, w') \<Rightarrow> (Undoing a e, w')
      | (Inr _, w') \<Rightarrow> (Ended (Inr (registration L (p_public_key q) a False w')), w'))"
| "add_call L userID k (OnDevice uid None a) w =
     (case tryE fresh_uuid (\<lambda>i. peers_Create \<lparr>p_id = i, p_user_id = uid, p_public_key = key_string L k,
                   p_assigned_ip = a, p_status = ''active'', p_last_seen = None,
                   p_created_at = 0, p_updated_at = 0\<rparr>) w of
        (Inl e, w') \<Rightarrow> (Undoing a e, w')
      | (Inr _, w') \<Rightarrow> (Ended (Inr (registration L (key_string L k) a False w')), w'))"
| "add_call L userID k (Undoing a e) w =
     (Releasing a e, snd (ConfigureDevice L (peers_config [remove_config k]) w))"
| "add_call L userID k (Releasing a e) w = (Ended (Inl e), snd (on_pool (Release a) w))"
| "add_call L userID k (Ended r) w = (Ended r, w)"

text \<open>Alone, a registration that makes its calls one after the other is \<open>AddPeer\<close>.\<close>

fun add_calls :: "nat \<Rightarrow> libs \<Rightarrow> string \<Rightarrow> wgkey \<Rightarrow> add_phase \<Rightarrow> world \<Rightarrow> add_phase \<times> world" where
  "add_calls 0 L userID k ph w = (ph, w)"
| "add_calls (Suc n) L userID k ph w = (case add_call L userID k ph w of (ph', w') \<Rightarrow> add_calls n L userID k ph' w')"

lemma add_calls_Ended: "add_calls n L userID k (Ended r) w = (Ended r, w)"
  by (induction n) simp_all

lemma add_calls_release: "add_calls (Suc n) L userID k (Releasing a e) w = (Ended (Inl e), snd (on_pool (Release a) w))"
  by (simp add: add_calls_Ended)

lemma add_calls_undo:
  "add_calls (Suc (Suc n)) L userID k (Undoing a e) w = (case AddPeer_undo L k a e w of (r, w') \<Rightarrow> (Ended r, w'))"
  by (simp add: add_calls_Ended AddPeer_undo_def ignoreE_def caseE_def fail_def split: prod.splits sum.splits)

lemma add_calls_write:
  "add_calls (Suc (Suc (Suc n))) L userID k (OnDevice uid ex a) w =
     (case (case ex of
        Some q \<Rightarrow> caseE (peers_Activate (p_id q) a) (AddPeer_undo L k a) (\<lambda>_. gets (registration L (p_public_key q) a False))
      | None \<Rightarrow> tryE fresh_uuid (\<lambda>i. caseE (peers_Create \<lparr>p_id = i, p_user_id = uid, p_public_key = key_string L k,
            p_assigned_ip = a, p_status = ''active'', p_last_seen = None, p_created_at = 0, p_updated_at = 0\<rparr>)
          (AddPeer_undo L k a) (\<lambda>_. gets (registration L (key_string L k) a False)))) w of (r, w') \<Rightarrow> (Ended r, w'))"
proof (cases ex)
  case None
  show ?thesis
    unfolding None add_calls.simps(2) [of "Suc (Suc n)"]
    by (simp add: tryE_def caseE_def gets_def fresh_uuid_def add_calls_undo add_calls_Ended
        del: add_calls.simps split: prod.splits sum.splits)
next
  case (Some q)
  show ?thesis
    unfolding Some add_calls.simps(2) [of "Suc (Suc n)"]
    by (simp add: caseE_def gets_def add_calls_undo add_calls_Ended del: add_calls.simps split: prod.splits sum.splits)
qed

lemma add_calls_register:
  "add_calls (Suc (Suc (Suc (Suc (Suc n))))) L userID k (Admitted uid ex) w =
     (case AddPeer_register L k uid ex w of (r, w') \<Rightarrow> (Ended r, w'))"
proof -
  obtain r w1 where al: "on_pool Allocate w = (r, w1)" by (rule prod.exhaust)
  show ?thesis
  proof (cases r)
    case (Inl e)
    with al show ?thesis by (simp add: AddPeer_register_def tryE_def caseE_def fail_def add_calls_Ended)
  next
    case (Inr a)
    obtain r2 w2 where dev: "ConfigureDevice L (peers_config [add_config k (ParseIP (ip6 L) a)]) w1 = (r2, w2)"
      by (rule prod.exhaust)
    note steps = add_calls.simps(2) [of "Suc (Suc (Suc (Suc n)))"] add_calls.simps(2) [of "Suc (Suc (Suc n))"]
    show ?thesis
    proof (cases r2)
      case (Inl e)
      show ?thesis
        unfolding steps AddPeer_register_def tryE_def caseE_def
        by (simp add: al \<open>r = Inr a\<close> dev Inl add_calls_release ignoreE_def caseE_def fail_def
            del: add_calls.simps split: prod.splits sum.splits)
    next
      case (Inr u)
      show ?thesis
        unfolding steps AddPeer_register_def tryE_def [of "on_pool Allocate"]
        by (simp add: al \<open>r = Inr a\<close> dev Inr caseE_def [of "on_pool Allocate"]
            caseE_def [of "ConfigureDevice L (peers_config [add_config k (ParseIP (ip6 L) a)])"]
            add_calls_write del: add_calls.simps)
    qed
  qed
qed

lemma add_calls_alone:
  "add_calls 6 L userID k Admitting w = (case AddPeer L userID k w of (r, w') \<Rightarrow> (Ended r, w'))"
proof -
  have "add_calls (Suc (Suc (Suc (Suc (Suc (Suc 0)))))) L userID k Admitting w =
      (case AddPeer L userID k w of (r, w') \<Rightarrow> (Ended r, w'))"
    unfolding add_calls.simps(2) [of "Suc (Suc (Suc (Suc (Suc 0))))"]
    by (simp add: AddPeer_def tryE_def caseE_def fail_def add_calls_register add_calls_Ended
        del: add_calls.simps split: prod.splits sum.splits)
  then show ?thesis by (simp only: numeral_nat One_nat_def)
qed


section \<open>What every call keeps\<close>

text \<open>An address that a registration holds and that no active row has.\<close>

fun held :: "add_phase \<Rightarrow> string option" where
  "held (Leased _ _ a) = Some a"
| "held (OnDevice _ _ a) = Some a"
| "held (Undoing a _) = Some a"
| "held (Releasing a _) = Some a"
| "held _ = None"

definition reserved :: "string \<Rightarrow> world \<Rightarrow> string \<Rightarrow> bool" where
  "reserved gw w a \<longleftrightarrow> a \<in> used (pool w) \<and> a \<in> host_ips (subnet (pool w)) \<and> a \<noteq> gw \<and>
     (\<forall>p \<in> set (peers w). p_status p = ''active'' \<longrightarrow> p_assigned_ip p \<noteq> a)"

lemma reserved_cong: "pool w' = pool w \<Longrightarrow> peers w' = peers w \<Longrightarrow> reserved gw w' a = reserved gw w a"
  by (simp add: reserved_def)

text \<open>
  \<open>moved gw w w' out back\<close>: from \<open>w\<close> to \<open>w'\<close> the invariant stays, every address reserved before but
  \<open>out\<close> is still reserved, and \<open>back\<close> is reserved and was so, or was free.
\<close>

definition moved :: "string \<Rightarrow> world \<Rightarrow> world \<Rightarrow> string option \<Rightarrow> string option \<Rightarrow> bool" where
  "moved gw w w' out back \<longleftrightarrow> leases_ok gw w' \<and>
     (\<forall>a. reserved gw w a \<longrightarrow> out \<noteq> Some a \<longrightarrow> reserved gw w' a \<and> back \<noteq> Some a) \<and>
     (\<forall>a. back = Some a \<longrightarrow> reserved gw w' a)"

lemma moved_same:
  assumes "leases_ok gw w" "pool w' = pool w" "peers w' = peers w" "\<forall>a. held ph = Some a \<longrightarrow> reserved gw w a"
    and "held ph' = held ph \<or> held ph' = None"
  shows "moved gw w w' (held ph) (held ph')"
  using assms leases_ok_cong [of w' w gw] reserved_cong [of w' w gw] by (auto simp add: moved_def)

lemma moved_allocate:
  assumes I: "leases_ok gw w" and al: "Allocate (pool w) = (Inr a, i)"
  shows "moved gw w (w\<lparr>pool := i\<rparr>) None (Some a)"
proof -
  have n: "net4 (subnet (pool w))" and lr: "lease_rows gw (pool w) (peers w)" using I by (simp_all add: leases_ok_def)
  note a = Allocate_Inr [OF n al]
  have "p_assigned_ip p \<noteq> a" if "p \<in> set (peers w)" "p_status p = ''active''" for p
    using lease_rowsD(1) [OF lr that] a(2) by auto
  moreover have "lease_rows gw i (peers w)" using a(3) by (intro lease_rows_used_mono [OF lr]) auto
  ultimately show ?thesis using I a by (auto simp add: moved_def reserved_def leases_ok_def)
qed

lemma moved_release:
  assumes I: "leases_ok gw w" and a: "reserved gw w a"
  shows "moved gw w (w\<lparr>pool := (pool w)\<lparr>used := used (pool w) - {a}\<rparr>\<rparr>) (Some a) None"
proof -
  have "lease_rows gw ((pool w)\<lparr>used := used (pool w) - {a}\<rparr>) (peers w)"
    using I a by (intro lease_rows_release) (auto simp add: leases_ok_def reserved_def)
  with I a show ?thesis by (auto simp add: moved_def reserved_def leases_ok_def)
qed

lemma moved_write:
  assumes I: "leases_ok gw w" and a: "reserved gw w a"
    and new: "ex = None \<longrightarrow> (\<forall>q \<in> set (peers w). p_public_key q \<noteq> k \<and> p_id q \<noteq> j)"
    and w': "pool w' = pool w" "peers w' = registered ex uid k a j t (peers w)"
  shows "moved gw w w' (Some a) None"
proof -
  let ?i = "(pool w)\<lparr>used := used (pool w) - {a}\<rparr>"
  have "lease_rows gw (?i\<lparr>used := insert a (used ?i)\<rparr>) (peers w')"
    unfolding w'(2) using I a new
    by (intro lease_rows_registered lease_rows_release) (auto simp add: leases_ok_def reserved_def)
  moreover have "?i\<lparr>used := insert a (used ?i)\<rparr> = pool w" using a by (simp add: reserved_def insert_absorb)
  moreover have "peers_wf (peers w')"
    unfolding w'(2) using I new by (intro peers_wf_registered) (auto simp add: leases_ok_def)
  ultimately have "leases_ok gw w'" using I by (simp add: leases_ok_def w'(1))
  moreover have "reserved gw w' b" if "reserved gw w b" "b \<noteq> a" for b
    using that unfolding reserved_def w' by (cases ex) (auto simp add: registered_def in_update_rows split: if_splits)
  ultimately show ?thesis by (auto simp add: moved_def)
qed

lemma add_call_moved:
  assumes I: "leases_ok gw w" and h: "\<forall>a. held ph = Some a \<longrightarrow> reserved gw w a"
    and st: "add_call L userID k ph w = (ph', w')"
  shows "moved gw w w' (held ph) (held ph')"
proof (cases ph)
  case Admitting
  obtain r v where ad: "AddPeer_admit L userID k w = (r, v)" by (rule prod.exhaust)
  have same: "pool v = pool w" "peers v = peers w"
    using stutters_same [OF readonlyD [OF readonly_AddPeer_admit ad]] by simp_all
  then show ?thesis
    using st ad Admitting by (intro moved_same [OF I _ _ h]) (auto split: sum.splits prod.splits)
next
  case (Admitted uid ex)
  obtain r i where al: "Allocate (pool w) = (r, i)" by (rule prod.exhaust)
  show ?thesis
  proof (cases r)
    case (Inl e)
    with al Allocate_Inl have "i = pool w" by blast
    with st al Inl Admitted show ?thesis by (intro moved_same [OF I _ _ h]) (auto simp add: on_pool_def)
  next
    case (Inr a)
    with st al Admitted have "ph' = Leased uid ex a" "w' = w\<lparr>pool := i\<rparr>" by (auto simp add: on_pool_def)
    with moved_allocate [OF I] al Inr Admitted show ?thesis by simp
  qed
next
  case (Leased uid ex a)
  have "wp (ConfigureDevice L cfg) (\<lambda>_ v. pool v = pool w \<and> peers v = peers w) w" for cfg by (simp add: wp_rules)
  from wp_I [OF this] st Leased show ?thesis
    by (intro moved_same [OF I _ _ h]) (auto split: sum.splits prod.splits)
next
  case (OnDevice uid ex a)
  have a: "reserved gw w a" using h OnDevice by simp
  show ?thesis
  proof (cases ex)
    case (Some q)
    obtain r v where run: "peers_Activate (p_id q) a w = (r, v)" by (rule prod.exhaust)
    have "wp (peers_Activate (p_id q) a) (\<lambda>r v. pool v = pool w \<and> (case r of Inl _ \<Rightarrow> peers v = peers w
        | Inr _ \<Rightarrow> \<exists>t. peers v = registered (Some q) uid k' a j t (peers w))) w" for k' j
      by (auto simp add: wp_rules registered_def)
    from wp_I [OF this run] have v: "pool v = pool w" "case r of Inl _ \<Rightarrow> peers v = peers w
        | Inr _ \<Rightarrow> \<exists>t. peers v = registered (Some q) uid [] a 0 t (peers w)" by blast+
    show ?thesis
    proof (cases r)
      case (Inl e)
      with st OnDevice Some run v show ?thesis by (intro moved_same [OF I _ _ h]) auto
    next
      case (Inr u)
      with v obtain t where "peers v = registered (Some q) uid [] a 0 t (peers w)" by auto
      from moved_write [OF I a _ v(1) this] st OnDevice Some run Inr show ?thesis by auto
    qed
  next
    case None
    let ?p = "\<lambda>i. \<lparr>p_id = i, p_user_id = uid, p_public_key = key_string L k, p_assigned_ip = a, p_status = ''active'',
        p_last_seen = None, p_created_at = 0, p_updated_at = 0\<rparr>"
    obtain r v where run: "tryE fresh_uuid (\<lambda>i. peers_Create (?p i)) w = (r, v)" by (rule prod.exhaust)
    have "wp (tryE fresh_uuid (\<lambda>i. peers_Create (?p i))) (\<lambda>r v. pool v = pool w \<and> (case r of Inl _ \<Rightarrow> peers v = peers w
        | Inr _ \<Rightarrow> \<exists>j t. (\<forall>q \<in> set (peers w). p_public_key q \<noteq> key_string L k \<and> p_id q \<noteq> j) \<and>
            peers v = registered None uid (key_string L k) a j t (peers w))) w"
      by (auto simp add: wp_rules registered_def Let_def)
    from wp_I [OF this run] have v: "pool v = pool w" "case r of Inl _ \<Rightarrow> peers v = peers w
        | Inr _ \<Rightarrow> \<exists>j t. (\<forall>q \<in> set (peers w). p_public_key q \<noteq> key_string L k \<and> p_id q \<noteq> j) \<and>
            peers v = registered None uid (key_string L k) a j t (peers w)" by blast+
    show ?thesis
    proof (cases r)
      case (Inl e)
      with st OnDevice None run v show ?thesis by (intro moved_same [OF I _ _ h]) auto
    next
      case (Inr u)
      with v obtain j t where new: "\<forall>q \<in> set (peers w). p_public_key q \<noteq> key_string L k \<and> p_id q \<noteq> j"
        and "peers v = registered None uid (key_string L k) a j t (peers w)" by auto
      from moved_write [OF I a _ v(1) this(2)] new st OnDevice None run Inr show ?thesis by auto
    qed
  qed
next
  case (Undoing a e)
  have "wp (ConfigureDevice L cfg) (\<lambda>_ v. pool v = pool w \<and> peers v = peers w) w" for cfg by (simp add: wp_rules)
  from this [unfolded wp_iff] st Undoing show ?thesis by (intro moved_same [OF I _ _ h]) auto
next
  case (Releasing a e)
  with st have "ph' = Ended (Inl e)" "w' = w\<lparr>pool := (pool w)\<lparr>used := used (pool w) - {a}\<rparr>\<rparr>"
    by (auto simp add: on_pool_def Release_eq)
  with moved_release [OF I] h Releasing show ?thesis by simp
next
  case (Ended r)
  with st show ?thesis by (intro moved_same [OF I _ _ h]) auto
qed


text \<open>A removal takes an address from an active row, so none that is reserved.\<close>

lemma RemovePeer_reserved: "preserves (\<lambda>w. leases_ok gw w \<and> reserved gw w a) (RemovePeer L userID key)"
proof (rule preservesI)
  fix w
  assume I: "leases_ok gw w \<and> reserved gw w a"
  obtain r v where t: "find_target L userID key w = (r, v)" by (rule prod.exhaust)
  have same: "pool v = pool w" "peers v = peers w"
    using stutters_same [OF readonlyD [OF readonly_find_target t]] by simp_all
  have I': "leases_ok gw v" "reserved gw v a"
    using I leases_ok_cong [OF same] reserved_cong [OF same] by simp_all
  have "wp (RemovePeer_commit L key p) (\<lambda>_ u. reserved gw u a) v"
    if p: "p \<in> set (peers v)" "p_status p = ''active''" for p
  proof -
    have "p_assigned_ip p \<noteq> a" using p I'(2) by (simp add: reserved_def)
    then show ?thesis
      using I'(2) by (auto simp add: RemovePeer_commit_def wp_rules wp_peers_UpdateStatus reserved_def in_update_rows split: if_splits)
  qed
  moreover have "p \<in> set (peers v)" "p_status p = ''active''" if "r = Inr p" for p
    using find_target_Inr(2,3) [OF t [unfolded that]] same by simp_all
  ultimately have "wp (RemovePeer L userID key) (\<lambda>_ u. reserved gw u a) w"
    using t I'(2) by (cases r) (simp_all add: RemovePeer_def wp_tryE wp_def [of "find_target L userID key"])
  moreover have "wp (RemovePeer L userID key) (\<lambda>_. leases_ok gw) w"
    using preserves_wp [OF RemovePeer_leases] I by blast
  ultimately show "wp (RemovePeer L userID key) (\<lambda>_ u. leases_ok gw u \<and> reserved gw u a) w"
    by (simp add: wp_iff)
qed

section \<open>Any interleaving\<close>

type_synonym adding = "(string \<times> wgkey \<times> add_phase) list"

inductive conc_step :: "libs \<Rightarrow> adding \<times> world \<Rightarrow> adding \<times> world \<Rightarrow> bool" for L where
  call: "i < length ts \<Longrightarrow> ts ! i = (userID, k, ph) \<Longrightarrow> add_call L userID k ph w = (ph', w') \<Longrightarrow>
    conc_step L (ts, w) (ts[i := (userID, k, ph')], w')"
| arrive: "conc_step L (ts, w) (ts @ [(userID, k, Admitting)], w)"
| remove: "RemovePeer L userID key w = (r, w') \<Longrightarrow> conc_step L (ts, w) (ts, w')"
| elsewhere: "pool w' = pool w \<Longrightarrow> peers w' = peers w \<Longrightarrow> conc_step L (ts, w) (ts, w')"

definition conc_ok :: "string \<Rightarrow> adding \<times> world \<Rightarrow> bool" where
  "conc_ok gw s \<longleftrightarrow> leases_ok gw (snd s) \<and>
     (\<forall>i < length (fst s). \<forall>a. held (snd (snd (fst s ! i))) = Some a \<longrightarrow> reserved gw (snd s) a \<and>
        (\<forall>j < length (fst s). held (snd (snd (fst s ! j))) = Some a \<longrightarrow> j = i))"

lemma conc_okI:
  assumes "leases_ok gw w"
    and "\<And>i a. i < length ts \<Longrightarrow> held (snd (snd (ts ! i))) = Some a \<Longrightarrow> reserved gw w a"
    and "\<And>i j a. i < length ts \<Longrightarrow> j < length ts \<Longrightarrow> held (snd (snd (ts ! i))) = Some a \<Longrightarrow>
      held (snd (snd (ts ! j))) = Some a \<Longrightarrow> j = i"
  shows "conc_ok gw (ts, w)"
  unfolding conc_ok_def fst_conv snd_conv using assms by blast

lemma conc_okD:
  assumes "conc_ok gw (ts, w)"
  shows "leases_ok gw w"
    and "i < length ts \<Longrightarrow> held (snd (snd (ts ! i))) = Some a \<Longrightarrow> reserved gw w a"
    and "i < length ts \<Longrightarrow> j < length ts \<Longrightarrow> held (snd (snd (ts ! i))) = Some a \<Longrightarrow>
      held (snd (snd (ts ! j))) = Some a \<Longrightarrow> j = i"
  using assms unfolding conc_ok_def fst_conv snd_conv by blast+

lemma conc_ok_call:
  assumes ok: "conc_ok gw (ts, w)" and i: "i < length ts" "ts ! i = (userID, k, ph)"
    and st: "add_call L userID k ph w = (ph', w')"
  shows "conc_ok gw (ts[i := (userID, k, ph')], w')"
proof -
  let ?ts = "ts[i := (userID, k, ph')]"
  have "moved gw w w' (held ph) (held ph')"
    using conc_okD(1,2) [OF ok] i by (intro add_call_moved [OF _ _ st]) auto
  then have m: "leases_ok gw w'" "\<And>a. reserved gw w a \<Longrightarrow> held ph \<noteq> Some a \<Longrightarrow> reserved gw w' a \<and> held ph' \<noteq> Some a"
    "\<And>a. held ph' = Some a \<Longrightarrow> reserved gw w' a"
    by (simp_all add: moved_def)
  have other: "reserved gw w' a \<and> held ph' \<noteq> Some a"
    if j: "j < length ts" "j \<noteq> i" "held (snd (snd (ts ! j))) = Some a" for j a
  proof (rule m(2) [OF conc_okD(2) [OF ok j(1,3)]])
    show "held ph \<noteq> Some a" using conc_okD(3) [OF ok i(1) j(1) _ j(3)] i(2) j(2) by auto
  qed
  show ?thesis
  proof (rule conc_okI [OF m(1)])
    fix j a assume "j < length ?ts" "held (snd (snd (?ts ! j))) = Some a"
    then show "reserved gw w' a" using other [of j a] m(3) i(1) by (cases "j = i") auto
  next
    fix j l a
    assume "j < length ?ts" "l < length ?ts" "held (snd (snd (?ts ! j))) = Some a" "held (snd (snd (?ts ! l))) = Some a"
    then show "l = j"
      using other [of j a] other [of l a] conc_okD(3) [OF ok, of j l a] i(1)
      by (cases "j = i"; cases "l = i") auto
  qed
qed

lemma conc_ok_step: "conc_step L s t \<Longrightarrow> conc_ok gw s \<Longrightarrow> conc_ok gw t"
proof (induction rule: conc_step.induct)
  case (call i ts userID k ph w ph' w')
  then show ?case using conc_ok_call by blast
next
  case (arrive ts w userID k)
  show ?case
    using conc_okD [OF arrive] by (intro conc_okI) (auto simp add: nth_append split: if_splits)
next
  case (remove userID key w r w' ts)
  have "leases_ok gw w'" using preservesD [OF RemovePeer_leases conc_okD(1) [OF remove(2)]] remove(1) by (metis snd_conv)
  moreover have "reserved gw w' a" if "reserved gw w a" for a
    using preservesD [OF RemovePeer_reserved conjI [OF conc_okD(1) [OF remove(2)] that]] remove(1) by (metis snd_conv)
  ultimately show ?case using conc_okD(2,3) [OF remove(2)] by (intro conc_okI) blast+
next
  case (elsewhere w' w ts)
  show ?case
    using conc_okD [OF elsewhere(3)] leases_ok_cong [OF elsewhere(1,2)] reserved_cong [OF elsewhere(1,2)]
    by (intro conc_okI) blast+
qed

interpretation conc: invariant_system "\<lambda>s. fst s = [] \<and> leases_ok gw (snd s)" "conc_step L" "conc_ok gw" for L gw
  by (unfold_locales, simp add: conc_ok_def) (rule conc_ok_step)



text \<open>Runs as lists of thread numbers.\<close>

definition call_at :: "libs \<Rightarrow> nat \<Rightarrow> adding \<times> world \<Rightarrow> adding \<times> world" where
  "call_at L i s =
     (case s of (ts, w) \<Rightarrow>
        if i < length ts
        then (case ts ! i of (userID, k, ph) \<Rightarrow> case add_call L userID k ph w of (ph', w') \<Rightarrow> (ts[i := (userID, k, ph')], w'))
        else s)"

lemma call_at_step: "call_at L i s = s \<or> conc_step L s (call_at L i s)"
  by (auto simp add: call_at_def split: prod.splits intro: conc_step.call)

lemma run_calls: "(conc_step L)\<^sup>*\<^sup>* s (fold (call_at L) ns s)"
proof (induction ns arbitrary: s)
  case (Cons i ns)
  from call_at_step [of L i s] Cons [of "call_at L i s"] show ?case
    by (auto intro: converse_rtranclp_into_rtranclp)
qed simp

lemma run_arrive: "(conc_step L)\<^sup>*\<^sup>* ([], w) (map (\<lambda>j. (fst j, snd j, Admitting)) jobs, w)"
proof (induction jobs rule: rev_induct)
  case (snoc j jobs)
  then show ?case
    using conc_step.arrive [of L "map (\<lambda>j. (fst j, snd j, Admitting)) jobs" w "fst j" "snd j"]
    by (auto intro: rtranclp.rtrancl_into_rtrancl)
qed simp

definition ref_jobs :: adding where
  "ref_jobs = [(''1'', 7, Admitting), (''1'', 8, Admitting)]"

definition ref_alternate :: "adding \<times> world" where
  "ref_alternate = fold (call_at ref_libs) [0, 1, 1, 0, 1, 0, 0, 1] (ref_jobs, ref_world)"

lemma ref_alternate_run: "(conc_step ref_libs)\<^sup>*\<^sup>* ([], ref_world) ref_alternate"
proof -
  have "(conc_step ref_libs)\<^sup>*\<^sup>* ([], ref_world) (ref_jobs, ref_world)"
    using run_arrive [of ref_libs ref_world "[(''1'', 7), (''1'', 8)]"] by (simp add: ref_jobs_def)
  also have "(conc_step ref_libs)\<^sup>*\<^sup>* (ref_jobs, ref_world) ref_alternate"
    unfolding ref_alternate_def by (rule run_calls)
  finally show ?thesis .
qed


section \<open>What does not survive\<close>

lemma AddPeer_register_Inr:
  assumes "net4 (subnet (pool w))" "AddPeer_register L k uid ex w = (Inr reg, w')"
  obtains a j t where "a \<in> host_ips (subnet (pool w))" "a \<notin> used (pool w)"
    "pool w' = (pool w)\<lparr>used := insert a (used (pool w))\<rparr>"
    "peers w' = registered ex uid (key_string L k) a j t (peers w)" "r_assigned_ip reg = a"
  using wp_I [OF AddPeer_register_wp [OF assms(1)] assms(2)] by (auto simp add: registration_def)

text \<open>
  C13: the limit on peers does not survive. Two registrations of one user that are both admitted
  before either writes its row both go through: they get different addresses, but the user ends
  with two active peers more than the count both were measured against, so with one more than
  allowed when there was room for one.
\<close>

theorem concurrent_limit_overrun:
  assumes I: "leases_ok gw w" and a1: "AddPeer_admit L userID k1 w = (Inr (uid, ex1), w1)"
    and a2: "AddPeer_admit L userID k2 w1 = (Inr (uid, ex2), w2)"
    and r1: "AddPeer_register L k1 uid ex1 w2 = (Inr reg1, w3)" and r2: "AddPeer_register L k2 uid ex2 w3 = (Inr reg2, w4)"
    and keys: "key_string L k1 \<noteq> key_string L k2"
  shows "length (active_of uid (peers w4)) = length (active_of uid (peers w)) + 2 \<and>
     r_assigned_ip reg1 \<noteq> r_assigned_ip reg2 \<and>
     (\<exists>u \<in> set (users w). u_id u = uid \<and> int (length (active_of uid (peers w))) < u_max_peers u)"
proof -
  have same: "pool w1 = pool w" "peers w1 = peers w" "pool w2 = pool w" "peers w2 = peers w"
    using stutters_same [OF readonlyD [OF readonly_AddPeer_admit a1]]
      stutters_same [OF readonlyD [OF readonly_AddPeer_admit a2]] by simp_all
  note ad = AddPeer_admit_Inr(2) [OF a1] AddPeer_admit_Inr(2) [OF a2]
  have n: "net4 (subnet (pool w2))" and wf: "peers_wf (peers w)" using I same by (simp_all add: leases_ok_def)
  from AddPeer_register_Inr [OF n r1] same obtain a j t where o1: "pool w3 = (pool w)\<lparr>used := insert a (used (pool w))\<rparr>"
    "peers w3 = registered ex1 uid (key_string L k1) a j t (peers w)" "r_assigned_ip reg1 = a" by metis
  then have "net4 (subnet (pool w3))" using n same by simp
  from AddPeer_register_Inr [OF this r2] obtain b j' t' where o2: "b \<notin> used (pool w3)"
    "peers w4 = registered ex2 uid (key_string L k2) b j' t' (peers w3)" "r_assigned_ip reg2 = b" by metis
  have ex1: "\<forall>q. ex1 = Some q \<longrightarrow> q \<in> set (peers w) \<and> p_user_id q = uid \<and> p_status q = ''disconnected''"
    using ad(1) by (auto simp add: admitted_def dest: find_SomeD)
  have ex2: "\<forall>q. ex2 = Some q \<longrightarrow> q \<in> set (peers w) \<and> p_user_id q = uid \<and> p_status q = ''disconnected'' \<and>
      p_public_key q = key_string L k2"
    using ad(2) same by (auto simp add: admitted_def dest: find_SomeD)
  have key1: "\<forall>q. ex1 = Some q \<longrightarrow> p_public_key q = key_string L k1"
    using ad(1) by (auto simp add: admitted_def dest: find_SomeD)
  have ids: "p_id q \<noteq> p_id p" if "ex1 = Some p" "ex2 = Some q" for p q
  proof
    have pq: "q \<in> set (peers w)" "p \<in> set (peers w)" using that ex1 ex2 by blast+
    assume "p_id q = p_id p"
    then have "q = p" using distinct_map_inj_on [OF _ pq, of p_id] wf by (simp add: peers_wf_def)
    with that ex2 key1 keys show False by metis
  qed
  have in_registered: "q \<in> set (peers w3)" if "ex2 = Some q" "q \<in> set (peers w)" for q
    using that ids [of _ q] by (cases ex1) (auto simp add: o1(2) registered_def in_update_rows intro!: bexI [of _ q])
  then have "\<forall>q. ex2 = Some q \<longrightarrow> q \<in> set (peers w3) \<and> p_user_id q = uid \<and> p_status q = ''disconnected''"
    using ex2 by blast
  moreover have "peers_wf (peers w3)"
    using preservesD [OF AddPeer_register_leases, of gw w2] r1 I leases_ok_cong [OF same(3,4)]
    by (metis leases_ok_def snd_conv)
  ultimately have "length (active_of uid (peers w4)) = length (active_of uid (peers w3)) + 1"
    unfolding o2(2) by (intro active_of_registered)
  moreover have "length (active_of uid (peers w3)) = length (active_of uid (peers w)) + 1"
    unfolding o1(2) by (rule active_of_registered [OF wf ex1])
  moreover have "a \<noteq> b" using o1(1) o2(1) by auto
  ultimately show ?thesis using o1(3) o2(3) ad(1) by (auto simp add: admitted_def dest: find_SomeD)
qed

theorem concurrent_limit_overrun_witness:
  "\<exists>ex1 w1 ex2 w2 reg1 w3 reg2 w4. let w = ref_world\<lparr>users := [ref_admin\<lparr>u_max_peers := 1\<rparr>]\<rparr> in
     AddPeer_admit ref_libs ''1'' 7 w = (Inr (1, ex1), w1) \<and> AddPeer_admit ref_libs ''1'' 8 w1 = (Inr (1, ex2), w2) \<and>
     AddPeer_register ref_libs 7 1 ex1 w2 = (Inr reg1, w3) \<and> AddPeer_register ref_libs 8 1 ex2 w3 = (Inr reg2, w4) \<and>
     length (active_of 1 (peers w4)) = 2"
proof -
  let ?w = "ref_world\<lparr>users := [ref_admin\<lparr>u_max_peers := 1\<rparr>]\<rparr>"
  obtain r1 w1 where a1: "AddPeer_admit ref_libs ''1'' 7 ?w = (r1, w1)" by (rule prod.exhaust)
  obtain r2 w2 where a2: "AddPeer_admit ref_libs ''1'' 8 w1 = (r2, w2)" by (rule prod.exhaust)
  obtain r3 w3 where g1: "AddPeer_register ref_libs 7 1 None w2 = (r3, w3)" by (rule prod.exhaust)
  obtain r4 w4 where g2: "AddPeer_register ref_libs 8 1 None w3 = (r4, w4)" by (rule prod.exhaust)
  have "fst (AddPeer_admit ref_libs ''1'' 7 ?w) = Inr (1, None)" by code_simp
  moreover have "fst (AddPeer_admit ref_libs ''1'' 8 (snd (AddPeer_admit ref_libs ''1'' 7 ?w))) = Inr (1, None)" by code_simp
  moreover have "\<not> isl (fst (AddPeer_register ref_libs 7 1 None (snd (AddPeer_admit ref_libs ''1'' 8 (snd (AddPeer_admit ref_libs ''1'' 7 ?w))))))"
    by code_simp
  moreover have "\<not> isl (fst (AddPeer_register ref_libs 8 1 None (snd (AddPeer_register ref_libs 7 1 None
      (snd (AddPeer_admit ref_libs ''1'' 8 (snd (AddPeer_admit ref_libs ''1'' 7 ?w))))))))" by code_simp
  ultimately obtain reg1 reg2 where r: "r1 = Inr (1, None)" "r2 = Inr (1, None)" "r3 = Inr reg1" "r4 = Inr reg2"
    using a1 a2 g1 g2 by (cases r3; cases r4) auto
  have I: "leases_ok ''10.8.0.1'' ?w" using ref_sys_inv by (simp add: sys_inv_def)
  have "key_string ref_libs 7 \<noteq> key_string ref_libs 8" by code_simp
  from concurrent_limit_overrun [OF I a1 [unfolded r(1)] a2 [unfolded r(2)] g1 [unfolded r(3)] g2 [unfolded r(4)] this]
  have "length (active_of 1 (peers w4)) = 2" by (simp add: ref_world_def active_of_def)
  with a1 a2 g1 g2 show ?thesis unfolding Let_def r by blast
qed


text \<open>A removal that finished.\<close>

lemma RemovePeer_commit_Inr:
  assumes "RemovePeer_commit L key p w = (Inr (), w')"
  shows "pool w' = (pool w)\<lparr>used := used (pool w) - {p_assigned_ip p}\<rparr>"
    "\<exists>t. peers w' = update_rows (\<lambda>q. p_id q = p_id p) (\<lambda>q. q\<lparr>p_status := ''disconnected'', p_updated_at := t\<rparr>) (peers w)"
proof -
  have "wp (RemovePeer_commit L key p) (\<lambda>r w'. r = Inr () \<longrightarrow>
      pool w' = (pool w)\<lparr>used := used (pool w) - {p_assigned_ip p}\<rparr> \<and>
      (\<exists>t. peers w' = update_rows (\<lambda>q. p_id q = p_id p) (\<lambda>q. q\<lparr>p_status := ''disconnected'', p_updated_at := t\<rparr>) (peers w))) w"
    by (auto simp add: RemovePeer_commit_def wp_rules wp_peers_UpdateStatus Release_eq)
  from wp_I [OF this assms]
  show "pool w' = (pool w)\<lparr>used := used (pool w) - {p_assigned_ip p}\<rparr>"
    "\<exists>t. peers w' = update_rows (\<lambda>q. p_id q = p_id p) (\<lambda>q. q\<lparr>p_status := ''disconnected'', p_updated_at := t\<rparr>) (peers w)"
    by simp_all
qed

text \<open>
  C12: a removal done twice takes somebody else's address away. When two requests to remove one
  peer have both found it before either changes it, and between them another key is registered
  and gets the address that the first one gave back, the second removal, which succeeds like the
  first, gives that address back once more: the new peer is active with an address that the
  allocator holds to be free and hands out again.
\<close>

theorem double_removal_frees_lease:
  assumes I: "leases_ok gw w" and f1: "find_target L userID key w = (Inr p, w1)"
    and f2: "find_target L userID key w1 = (Inr p', w2)"
    and c1: "RemovePeer_commit L key p w2 = (Inr (), w3)"
    and add: "AddPeer L other k w3 = (Inr reg, w4)" "r_assigned_ip reg = p_assigned_ip p" "key_string L k \<noteq> key"
    and c2: "RemovePeer_commit L key p' w4 = (Inr (), w5)"
  shows "(\<exists>q \<in> set (peers w5). p_public_key q = key_string L k \<and> p_status q = ''active'' \<and>
       p_assigned_ip q = r_assigned_ip reg) \<and>
     r_assigned_ip reg \<notin> used (pool w5) \<and> r_assigned_ip reg \<in> host_ips (subnet (pool w5)) \<and>
     fst (Allocate (pool w5)) \<noteq> Inl ErrNoIPAvailable"
proof -
  note s1 = find_target_Inr [OF f1] and s2 = find_target_Inr [OF f2]
  have same: "pool w1 = pool w" "peers w1 = peers w" "pool w2 = pool w" "peers w2 = peers w"
    using stutters_same [OF s1(1)] stutters_same [OF s2(1)] by simp_all
  have wf: "peers_wf (peers w)" using I by (simp add: leases_ok_def)
  have "p' = p"
    using distinct_map_inj_on [OF _ _ s1(2), of p_public_key p'] s1(4) s2(2,4) wf same by (simp add: peers_wf_def)
  have I2: "leases_ok gw w2" using I leases_ok_cong [OF same(3,4)] by simp
  have I3: "leases_ok gw w3"
    using wp_I [OF RemovePeer_commit_leases [OF I2 _ s1(3)] c1] s1(2) same by simp
  from RemovePeer_commit_Inr(2) [OF c1] obtain t where w3: "peers w3 =
      update_rows (\<lambda>q. p_id q = p_id p) (\<lambda>q. q\<lparr>p_status := ''disconnected'', p_updated_at := t\<rparr>) (peers w)"
    using same by auto
  have n: "net4 (subnet (pool w3))" and wf3: "peers_wf (peers w3)" using I3 by (simp_all add: leases_ok_def)
  from AddPeer_Inr [OF n add(1)] obtain uid ex a i t' where adm: "admitted L other k w3 uid ex"
    and a: "a \<in> host_ips (subnet (pool w3))" and pool4: "pool w4 = (pool w3)\<lparr>used := insert a (used (pool w3))\<rparr>"
    and w4: "peers w4 = registered ex uid (key_string L k) a i t' (peers w3)" and reg: "r_assigned_ip reg = a" .
  have row3: "p\<lparr>p_status := ''disconnected'', p_updated_at := t\<rparr> \<in> set (peers w3)"
    unfolding w3 in_update_rows using s1(2) by (intro bexI [of _ p]) simp_all
  have I4: "leases_ok gw w4" using preservesD [OF AddPeer_leases I3] add(1) by (metis snd_conv)
  then have wf4: "peers_wf (peers w4)" by (simp add: leases_ok_def)
  obtain q where q: "q \<in> set (peers w4)" "p_public_key q = key_string L k" "p_status q = ''active''" "p_assigned_ip q = a"
    "p_id q \<noteq> p_id p"
  proof (cases ex)
    case None
    let ?q = "\<lparr>p_id = i, p_user_id = uid, p_public_key = key_string L k, p_assigned_ip = a,
        p_status = ''active'', p_last_seen = None, p_created_at = t', p_updated_at = t'\<rparr>"
    have "?q \<in> set (peers w4)" "p\<lparr>p_status := ''disconnected'', p_updated_at := t\<rparr> \<in> set (peers w4)"
      using row3 by (simp_all add: w4 None registered_def)
    moreover have "i \<noteq> p_id p"
      using row3 wf4 by (auto simp add: w4 None registered_def peers_wf_def image_iff)
    ultimately show thesis using that [of ?q] by simp
  next
    case (Some e)
    with adm have "find (\<lambda>p. p_public_key p = key_string L k) (peers w3) = Some e" by (metis admitted_def)
    from find_SomeD [OF this] have e: "e \<in> set (peers w3)" "p_public_key e = key_string L k" by simp_all
    let ?q = "e\<lparr>p_assigned_ip := a, p_status := ''active'', p_updated_at := t'\<rparr>"
    have "?q \<in> set (peers w4)" using e(1) by (auto simp add: w4 Some registered_def in_update_rows intro!: bexI [of _ e])
    moreover have "p_id e \<noteq> p_id p"
      using distinct_map_inj_on [OF _ e(1) row3, of p_id] wf3 e(2) s1(4) add(3) by (auto simp add: peers_wf_def)
    ultimately show thesis using that [of ?q] e(2) by simp
  qed
  from RemovePeer_commit_Inr(2) [OF c2] q(1,5) have "q \<in> set (peers w5)"
    unfolding \<open>p' = p\<close> by (auto simp add: in_update_rows intro!: bexI [of _ q])
  moreover have p5: "pool w5 = (pool w4)\<lparr>used := used (pool w4) - {a}\<rparr>"
    using RemovePeer_commit_Inr(1) [OF c2] add(2) reg \<open>p' = p\<close> by simp
  moreover have "fst (Allocate (pool w5)) \<noteq> Inl ErrNoIPAvailable"
    using Allocate_exhausted [of "pool w5"] n a by (auto simp add: p5 pool4)
  ultimately show ?thesis using q a reg by (auto simp add: pool4)
qed

text \<open>One peer is removed by two requests at once, and another key registered in between.\<close>

theorem double_removal_frees_lease_witness:
  "\<exists>p w1 p' w2 w3 reg w4 w5. find_target ref_libs ''1'' ''7'' ref_world1 = (Inr p, w1) \<and>
     find_target ref_libs ''1'' ''7'' w1 = (Inr p', w2) \<and> RemovePeer_commit ref_libs ''7'' p w2 = (Inr (), w3) \<and>
     AddPeer ref_libs ''1'' 8 w3 = (Inr reg, w4) \<and> RemovePeer_commit ref_libs ''7'' p' w4 = (Inr (), w5) \<and>
     r_assigned_ip reg = ''10.8.0.2'' \<and> ''10.8.0.2'' \<notin> used (pool w5)"
proof -
  let ?f1 = "find_target ref_libs ''1'' ''7'' ref_world1"
  let ?f2 = "find_target ref_libs ''1'' ''7'' (snd ?f1)"
  let ?c1 = "RemovePeer_commit ref_libs ''7'' ref_peer (snd ?f2)"
  let ?ad = "AddPeer ref_libs ''1'' 8 (snd ?c1)"
  let ?c2 = "RemovePeer_commit ref_libs ''7'' ref_peer (snd ?ad)"
  have runs: "fst ?f1 = Inr ref_peer" "fst ?f2 = Inr ref_peer" "fst ?c1 = Inr ()"
    "(case fst ?ad of Inr reg \<Rightarrow> r_assigned_ip reg = ''10.8.0.2'' | Inl _ \<Rightarrow> False)" "fst ?c2 = Inr ()" by code_simp+
  from runs(4) obtain reg where reg: "fst ?ad = Inr reg" "r_assigned_ip reg = ''10.8.0.2''" by (auto split: sum.splits)
  have I: "leases_ok ''10.8.0.1'' ref_world1" using ref_world1_inv by (simp add: sys_inv_def)
  have eqs: "?f1 = (Inr ref_peer, snd ?f1)" "?f2 = (Inr ref_peer, snd ?f2)" "?c1 = (Inr (), snd ?c1)"
    "?ad = (Inr reg, snd ?ad)" "?c2 = (Inr (), snd ?c2)"
    using runs(1,2,3,5) reg(1) by (metis prod.collapse)+
  have ip: "r_assigned_ip reg = p_assigned_ip ref_peer" using reg(2) by (simp add: ref_peer_def)
  have "key_string ref_libs 8 \<noteq> ''7''" by code_simp
  from double_removal_frees_lease [OF I eqs(1-4) ip this eqs(5)] reg(2)
  have "''10.8.0.2'' \<notin> used (pool (snd ?c2))" by (simp only:) blast
  with eqs reg(2) show ?thesis by blast
qed

end
