(* ===== verification/Spa.thy ===== *)
theory Spa
  imports ServerProperties
begin

text \<open>
  Serving the single page application (\<open>api/router.go\<close>, the second half of \<open>SetupRouter\<close> with
  \<open>spaFileServer\<close> and \<open>spaIndexFallback\<close>): the files of one directory under \<open>/app/\<close> and \<open>/admin/\<close>,
  and its \<open>index.html\<close> for every other path there. \<open>os.DirFS\<close> and \<open>http.FileServer\<close> are modelled as
  far as the code uses them; the directory is a function from names to nodes.
\<close>

section \<open>Paths\<close>

definition TrimPrefix :: "string \<Rightarrow> string \<Rightarrow> string" where
  "TrimPrefix s p = (if HasPrefix s p then drop (length p) s else s)"

text \<open>\<open>path.Clean\<close> of a path that starts with a slash, and \<open>path.Base\<close>.\<close>

fun clean_elements :: "string list \<Rightarrow> string list \<Rightarrow> string list" where
  "clean_elements [] acc = rev acc"
| "clean_elements (s # ss) acc =
     (if s = '''' \<or> s = ''.'' then clean_elements ss acc
      else if s = ''..'' then clean_elements ss (tl acc)
      else clean_elements ss (s # acc))"

definition Clean :: "string \<Rightarrow> string" where
  "Clean p = CHR ''/'' # Join (clean_elements (SplitByte CHR ''/'' p) []) ''/''"

definition Base :: "string \<Rightarrow> string" where
  "Base p =
     (if p = '''' then ''.''
      else let t = rev (dropWhile (\<lambda>c. c = CHR ''/'') (rev p))
           in if t = '''' then ''/'' else last (SplitByte CHR ''/'' t))"

text \<open>\<open>fs.ValidPath\<close>: UTF-8, and no empty, \<open>.\<close> or \<open>..\<close> element, but for \<open>.\<close> alone.\<close>

definition ValidString :: "string \<Rightarrow> bool" where
  "ValidString s \<longleftrightarrow> concat (map EncodeRune (runes s)) = str_bytes s"

definition ValidPath :: "string \<Rightarrow> bool" where
  "ValidPath name \<longleftrightarrow> ValidString name \<and>
     (name = ''.'' \<or> list_all (\<lambda>w. w \<noteq> '''' \<and> w \<noteq> ''.'' \<and> w \<noteq> ''..'') (SplitByte CHR ''/'' name))"

section \<open>The directory and the file server\<close>

datatype fs_node = Dir | File string

type_synonym spa_fs = "string \<Rightarrow> fs_node option"

definition spa_open :: "spa_fs \<Rightarrow> string \<Rightarrow> fs_node option" where
  "spa_open fs name = (if ValidPath name then fs name else None)"

text \<open>
  What a browser gets: the content of a file, a redirect (the query of the request is added to it),
  a page or text with its status, the listing of a directory.
\<close>

datatype spa_reply = SpaFile string | SpaRedirect string | SpaPage int string | SpaListing

definition FileServer :: "spa_fs \<Rightarrow> string \<Rightarrow> spa_reply" where
  "FileServer fs path =
     (let upath = if HasPrefix path ''/'' then path else CHR ''/'' # path in
      if HasSuffix upath ''/index.html'' then SpaRedirect ''./''
      else
        let name = Clean upath; open_name = (if name = ''/'' then ''.'' else tl name) in
        case spa_open fs open_name of
          None \<Rightarrow> SpaPage 404 ''404 page not found''
        | Some (File c) \<Rightarrow> if last upath = CHR ''/'' then SpaRedirect (''../'' @ Base upath) else SpaFile c
        | Some Dir \<Rightarrow>
            if last upath \<noteq> CHR ''/'' then SpaRedirect (Base upath @ ''/'')
            else (case spa_open fs (tl ((if name = ''/'' then '''' else name) @ ''/index.html'')) of
                    Some (File c) \<Rightarrow> SpaFile c
                  | _ \<Rightarrow> SpaListing))"

section \<open>The handlers\<close>

definition spaServingEnabled :: "(string \<Rightarrow> string) \<Rightarrow> bool" where
  "spaServingEnabled env \<longleftrightarrow>
     map lower_ascii (str_bytes (TrimSpace (env ''SCNET_ENABLE_SPA_SERVING''))) = str_bytes ''true''"

text \<open>The path below the prefix; both prefixes are cut, one after the other.\<close>

definition spa_path :: "string \<Rightarrow> string" where
  "spa_path path =
     (let p = TrimPrefix (TrimPrefix path ''/app'') ''/admin'' in if p = '''' then ''/'' else p)"

text \<open>
  \<open>None\<close> is \<open>c.Next()\<close>. Only then is the fallback called, so nothing has been written yet and its
  test of \<open>Written\<close> is left out.
\<close>

definition spaFileServer :: "spa_fs option \<Rightarrow> string \<Rightarrow> string \<Rightarrow> spa_reply option" where
  "spaFileServer spaFS meth urlPath =
     (if meth \<noteq> ''GET'' \<and> meth \<noteq> ''HEAD'' then None
      else
        let path = spa_path urlPath in
        case spaFS of
          None \<Rightarrow> None
        | Some fs \<Rightarrow> if spa_open fs (TrimPrefix path ''/'') \<noteq> None then Some (FileServer fs path) else None)"

definition spaIndexFallback :: "spa_fs option \<Rightarrow> spa_reply" where
  "spaIndexFallback spaFS =
     (case spaFS of
        None \<Rightarrow> SpaPage 503 ''SPA not available''
      | Some fs \<Rightarrow>
          (case spa_open fs ''index.html'' of
             Some (File c) \<Rightarrow> SpaPage 200 c
           | _ \<Rightarrow> SpaPage 404 ''SPA index not found''))"

text \<open>
  The directory: \<open>SCNET_SPA_DIR\<close> or the default, if it is one. \<open>None\<close> for a server that does not
  serve the application at all.
\<close>

definition spa_content :: "(string \<Rightarrow> string) \<Rightarrow> (string \<Rightarrow> spa_fs option) \<Rightarrow> spa_fs option option" where
  "spa_content env stat =
     (if \<not> spaServingEnabled env then None
      else Some (stat (let d = env ''SCNET_SPA_DIR'' in if d = '''' then ''admin-panel/dist/spa'' else d)))"

text \<open>
  The routes \<open>GET /app/*path\<close> and \<open>GET /admin/*path\<close>; gin redirects \<open>/app\<close> and \<open>/admin\<close> to them.
  Everything else goes where it goes without them, and \<open>GET\<close> is no preflight request.
\<close>

definition serve_spa :: "spa_fs option option \<Rightarrow> server \<Rightarrow> request \<Rightarrow> spa_reply + response wop" where
  "serve_spa spa S rq =
     (case spa of
        None \<Rightarrow> Inr (serve S rq)
      | Some spaFS \<Rightarrow>
          if rq_method rq \<noteq> ''GET'' then Inr (serve S rq)
          else if rq_path rq = ''/app'' \<or> rq_path rq = ''/admin'' then Inl (SpaRedirect (rq_path rq @ ''/''))
          else if HasPrefix (rq_path rq) ''/app/'' \<or> HasPrefix (rq_path rq) ''/admin/''
          then Inl (case spaFileServer spaFS (rq_method rq) (rq_path rq) of
                      Some a \<Rightarrow> a
                    | None \<Rightarrow> spaIndexFallback spaFS)
          else Inr (serve S rq))"

section \<open>Names that can be opened\<close>

lemma TrimPrefix_slash: "TrimPrefix (CHR ''/'' # p) ''/'' = p"
  by (simp add: TrimPrefix_def HasPrefix_def)

lemma clean_elements_plain:
  "list_all (\<lambda>w. w \<noteq> '''' \<and> w \<noteq> ''.'' \<and> w \<noteq> ''..'') ws \<Longrightarrow> clean_elements ws acc = rev acc @ ws"
  by (induction ws arbitrary: acc) simp_all

lemma Clean_valid:
  assumes "ValidPath name" "name \<noteq> ''.''"
  shows "Clean (CHR ''/'' # name) = CHR ''/'' # name"
proof -
  have "SplitByte CHR ''/'' (CHR ''/'' # name) = '''' # SplitByte CHR ''/'' name" by simp
  with assms show ?thesis
    by (simp add: Clean_def ValidPath_def clean_elements_plain Join_SplitByte)
qed

lemma SplitByte_snoc: "last (SplitByte c (s @ [c])) = []"
proof -
  have "SplitByte c (s @ [c]) = SplitByte c s @ [[]]"
    by (induction c s rule: SplitByte.induct) (auto split: list.splits simp add: SplitByte_nonempty)
  then show ?thesis by simp
qed

lemma ValidPath_slash:
  assumes "ValidPath name"
  shows "name \<noteq> ''''" "\<not> HasPrefix name ''/''" "last (CHR ''/'' # name) \<noteq> CHR ''/''" "''..'' \<notin> set (SplitByte CHR ''/'' name)"
proof -
  note split = SplitByte_nonempty [of "CHR ''/''" name]
  have el: "name = ''.'' \<or> (\<forall>w \<in> set (SplitByte CHR ''/'' name). w \<noteq> '''' \<and> w \<noteq> ''..'')"
    using assms by (auto simp add: ValidPath_def list_all_iff)
  then have ends: "name = ''.'' \<or> hd (SplitByte CHR ''/'' name) \<noteq> '''' \<and> last (SplitByte CHR ''/'' name) \<noteq> ''''"
    using split by (meson hd_in_set last_in_set)
  show "''..'' \<notin> set (SplitByte CHR ''/'' name)" using el by (cases "name = ''.''") auto
  show n: "name \<noteq> ''''" using el by (cases "name = ''''") auto
  show "\<not> HasPrefix name ''/''" using ends by (cases "name = ''.''") (auto simp add: HasPrefix_iff)
  have "last name \<noteq> CHR ''/''"
    using ends SplitByte_snoc [of "CHR ''/''" "butlast name"] append_butlast_last_id [OF n]
    by (cases "name = ''.''") (simp, metis)
  with n show "last (CHR ''/'' # name) \<noteq> CHR ''/''" by simp
qed

lemma FileServer_open:
  assumes open_: "spa_open fs (TrimPrefix path ''/'') = Some node"
  shows "FileServer fs path =
     (let name = TrimPrefix path ''/'' in
      if HasSuffix (CHR ''/'' # name) ''/index.html'' then SpaRedirect ''./''
      else case node of File c \<Rightarrow> SpaFile c | Dir \<Rightarrow> SpaRedirect (Base (CHR ''/'' # name) @ ''/''))"
proof -
  let ?name = "TrimPrefix path ''/''"
  have v: "ValidPath ?name" using open_ by (auto simp add: spa_open_def split: if_splits)
  note f = ValidPath_slash [OF v]
  have upath: "(if HasPrefix path ''/'' then path else CHR ''/'' # path) = CHR ''/'' # ?name"
    by (auto simp add: TrimPrefix_def HasPrefix_iff)
  have clean: "(if Clean (CHR ''/'' # ?name) = ''/'' then ''.'' else tl (Clean (CHR ''/'' # ?name))) = ?name"
  proof (cases "?name = ''.''")
    case True
    have "Clean ''/.'' = ''/''" by code_simp
    with True show ?thesis by simp
  next
    case False
    with Clean_valid [OF v] f(1) show ?thesis by simp
  qed
  show ?thesis unfolding FileServer_def Let_def upath clean open_ using f(3) by (simp split: fs_node.splits)
qed

section \<open>What is served\<close>

lemma app_segments:
  assumes "path = ''/app'' \<or> path = ''/admin'' \<or> HasPrefix path ''/app/'' \<or> HasPrefix path ''/admin/''"
  shows "take 1 (tl (SplitByte CHR ''/'' path)) \<in> {[''app''], [''admin'']}"
  using assms by (auto simp add: HasPrefix_iff split: list.splits)

lemma no_route_app: "list_all (\<lambda>(seg, gs, h). take 1 (tl seg) \<notin> {[''app''], [''admin'']}) (map route_key routes)"
  by code_simp

text \<open>
  C39: the application is served from its directory, and from nowhere else. Below \<open>/app/\<close> and
  \<open>/admin/\<close> a request gets the file its path names, when the directory has it, a redirect for a
  directory or for \<open>index.html\<close>, and otherwise the page \<open>index.html\<close>, whatever the path is; the name
  of a file sent has no \<open>..\<close> element and no slash in front, a directory is never listed, and no route
  of the API is hidden.
\<close>

theorem spa_contained:
  assumes "rq_method rq = ''GET''"
  shows "(HasPrefix (rq_path rq) ''/app/'' \<or> HasPrefix (rq_path rq) ''/admin/'' \<longrightarrow>
      serve_spa (Some (Some fs)) S rq = Inl
        (let name = TrimPrefix (spa_path (rq_path rq)) ''/'' in
         case spa_open fs name of
           None \<Rightarrow> spaIndexFallback (Some fs)
         | Some node \<Rightarrow>
             if HasSuffix (CHR ''/'' # name) ''/index.html'' then SpaRedirect ''./''
             else (case node of File c \<Rightarrow> SpaFile c | Dir \<Rightarrow> SpaRedirect (Base (CHR ''/'' # name) @ ''/'')))) \<and>
     (\<forall>c. serve_spa (Some (Some fs)) S rq = Inl (SpaFile c) \<longrightarrow>
        (\<exists>name. fs name = Some (File c) \<and> ''..'' \<notin> set (SplitByte CHR ''/'' name) \<and> \<not> HasPrefix name ''/'')) \<and>
     serve_spa (Some (Some fs)) S rq \<noteq> Inl SpaListing \<and>
     (\<forall>r \<in> set routes. match_pattern (rt_pattern r) (rq_path rq) \<noteq> None \<longrightarrow>
        serve_spa spa S rq = Inr (serve S rq))"
proof -
  let ?name = "TrimPrefix (spa_path (rq_path rq)) ''/''"
  let ?answer = "case spa_open fs ?name of
           None \<Rightarrow> spaIndexFallback (Some fs)
         | Some node \<Rightarrow>
             if HasSuffix (CHR ''/'' # ?name) ''/index.html'' then SpaRedirect ''./''
             else (case node of File c \<Rightarrow> SpaFile c | Dir \<Rightarrow> SpaRedirect (Base (CHR ''/'' # ?name) @ ''/''))"
  have spec: "serve_spa (Some (Some fs)) S rq = Inl ?answer"
    if p: "HasPrefix (rq_path rq) ''/app/'' \<or> HasPrefix (rq_path rq) ''/admin/''"
  proof -
    have "rq_path rq \<noteq> ''/app''" "rq_path rq \<noteq> ''/admin''" using p by (auto simp add: HasPrefix_def)
    with p assms show ?thesis
      by (auto simp add: serve_spa_def spaFileServer_def Let_def FileServer_open split: option.splits)
  qed
  have elsewhere: "serve_spa spa' S rq = Inr (serve S rq) \<or> (\<exists>l. serve_spa spa' S rq = Inl (SpaRedirect l)) \<or>
      HasPrefix (rq_path rq) ''/app/'' \<or> HasPrefix (rq_path rq) ''/admin/''" for spa'
    by (auto simp add: serve_spa_def split: option.splits)
  have answer: "?answer \<noteq> SpaListing \<and> (\<forall>c. ?answer = SpaFile c \<longrightarrow>
      (\<exists>name. fs name = Some (File c) \<and> ''..'' \<notin> set (SplitByte CHR ''/'' name) \<and> \<not> HasPrefix name ''/''))"
    using ValidPath_slash [of ?name]
    by (auto simp add: spa_open_def spaIndexFallback_def split: option.splits fs_node.splits if_splits)
  have api: "serve_spa spa S rq = Inr (serve S rq)"
    if r: "r \<in> set routes" "match_pattern (rt_pattern r) (rq_path rq) \<noteq> None" for r
  proof -
    obtain ps where "match_pattern (rt_pattern r) (rq_path rq) = Some ps" using r(2) by auto
    from arg_cong [OF match_pattern_take [OF r(1) this], of "\<lambda>xs. take 1 (tl xs)"]
    have "take 1 (tl (SplitByte CHR ''/'' (rq_path rq))) = take 1 (tl (fst (route_key r)))" by (simp add: tl_take)
    then have "take 1 (tl (SplitByte CHR ''/'' (rq_path rq))) \<notin> {[''app''], [''admin'']}"
      using no_route_app r(1) by (auto simp add: list_all_iff)
    with app_segments [of "rq_path rq"] show ?thesis by (auto simp add: serve_spa_def split: option.splits)
  qed
  show ?thesis
  proof (intro conjI allI impI ballI)
    show "serve_spa (Some (Some fs)) S rq \<noteq> Inl SpaListing" using elsewhere [of "Some (Some fs)"] spec answer by auto
  next
    fix c assume "serve_spa (Some (Some fs)) S rq = Inl (SpaFile c)"
    then show "\<exists>name. fs name = Some (File c) \<and> ''..'' \<notin> set (SplitByte CHR ''/'' name) \<and> \<not> HasPrefix name ''/''"
      using elsewhere [of "Some (Some fs)"] spec answer by auto
  qed (use spec api in \<open>simp_all only: Let_def\<close>)
qed

text \<open>A client that tries to climb out of the directory gets the page.\<close>

definition ref_fs :: spa_fs where
  "ref_fs = [''.'' \<mapsto> Dir, ''index.html'' \<mapsto> File ''<html>'', ''assets'' \<mapsto> Dir, ''assets/a.js'' \<mapsto> File ''x'']"

definition ref_get :: "string \<Rightarrow> request" where
  "ref_get path = ref_key_request\<lparr>rq_method := ''GET'', rq_path := path\<rparr>"

theorem spa_contained_witness:
  "serve_spa (Some (Some ref_fs)) ref_server (ref_get ''/app/assets/a.js'') = Inl (SpaFile ''x'') \<and>
   serve_spa (Some (Some ref_fs)) ref_server (ref_get ''/app/../../etc/passwd'') = Inl (SpaPage 200 ''<html>'') \<and>
   serve_spa (Some (Some ref_fs)) ref_server (ref_get ''/admin/assets'') = Inl (SpaRedirect ''assets/'')"
proof -
  have get: "rq_method (ref_get path) = ''GET''" "rq_path (ref_get path) = path" for path by (simp_all add: ref_get_def)
  have names: "TrimPrefix (spa_path ''/app/assets/a.js'') ''/'' = ''assets/a.js''"
    "TrimPrefix (spa_path ''/app/../../etc/passwd'') ''/'' = ''../../etc/passwd''"
    "TrimPrefix (spa_path ''/admin/assets'') ''/'' = ''assets''" by code_simp+
  have opened: "spa_open ref_fs ''assets/a.js'' = Some (File ''x'')" "spa_open ref_fs ''../../etc/passwd'' = None"
    "spa_open ref_fs ''assets'' = Some Dir" "spaIndexFallback (Some ref_fs) = SpaPage 200 ''<html>''"
    "Base ''/assets'' = ''assets''" by code_simp+
  note spec = spa_contained [OF get(1), THEN conjunct1, unfolded get(2), rule_format, of _ ref_fs ref_server]
  have p: "HasPrefix ''/app/assets/a.js'' ''/app/''" "HasPrefix ''/app/../../etc/passwd'' ''/app/''"
    "HasPrefix ''/admin/assets'' ''/admin/''" "\<not> HasSuffix ''/assets/a.js'' ''/index.html''"
    "\<not> HasSuffix ''/assets'' ''/index.html''" by code_simp+
  show ?thesis
    using spec [of "''/app/assets/a.js''"] spec [of "''/app/../../etc/passwd''"] spec [of "''/admin/assets''"] p
    by (simp add: Let_def names opened)
qed

text \<open>A file whose name begins like the prefix of the other application cannot be reached.\<close>

lemma spa_path_cut_twice: "spa_path ''/app/admin.js'' = ''.js''" "spa_path ''/app/admin/x.js'' = spa_path ''/app/x.js''"
  by code_simp+

end
