(* ===== verification/Relay.thy ===== *)
theory Relay
  imports NetURL
begin

text \<open>
  \<open>internal/relayagent/agent.go\<close> and \<open>cmd/scnet-relay-agent/main.go\<close>: the agent that keeps a
  WebSocket to a relay, gets HTTP requests over it, sends them to the backend and returns the
  answers. JSON and base64 coding and the HTTP client are arguments; durations are nanoseconds.
\<close>

section \<open>Configuration\<close>

record relay_config =
  rc_agent_url :: string
  rc_token :: string
  rc_agent_id :: string
  rc_backend_url :: string
  rc_ping_interval :: int
  rc_request_timeout :: int
  rc_reconnect_delay :: int

definition millisecond :: int where "millisecond = 1000000"

definition envString :: "(string \<Rightarrow> string) \<Rightarrow> string \<Rightarrow> string \<Rightarrow> string" where
  "envString env key fallback = (let v = TrimSpace (env key) in if v = '''' then fallback else v)"

definition envInt :: "(string \<Rightarrow> string) \<Rightarrow> string \<Rightarrow> int \<Rightarrow> int" where
  "envInt env key fallback =
     (let v = TrimSpace (env key) in
      if v = '''' then fallback else if snd (Atoi v) then fst (Atoi v) else fallback)"

text \<open>The flags that were given on the command line win over the environment.\<close>

definition loadConfig ::
  "(string \<Rightarrow> string) \<Rightarrow> string \<Rightarrow> (string \<Rightarrow> string option) \<Rightarrow> (string \<Rightarrow> int option) \<Rightarrow> relay_config" where
  "loadConfig env hostname flag_string flag_int =
     (let defaultAgentID = (if TrimSpace hostname = '''' then ''scnet-relay-agent'' else hostname);
          str = (\<lambda>name d. case flag_string name of Some v \<Rightarrow> v | None \<Rightarrow> d);
          ms = (\<lambda>name d. wrap_int ((case flag_int name of Some v \<Rightarrow> v | None \<Rightarrow> d) * millisecond)) in
      \<lparr>rc_agent_url = str ''url'' (envString env ''SCNET_AGENT_URL'' ''''),
       rc_token = str ''token'' (envString env ''SCNET_AGENT_TOKEN'' ''''),
       rc_agent_id = str ''id'' (envString env ''SCNET_AGENT_ID'' defaultAgentID),
       rc_backend_url = str ''backend'' (envString env ''SCNET_AGENT_BACKEND_URL'' ''http://127.0.0.1:8080''),
       rc_ping_interval = ms ''ping-ms'' (envInt env ''SCNET_AGENT_PING_INTERVAL_MS'' 15000),
       rc_request_timeout = ms ''timeout-ms'' (envInt env ''SCNET_AGENT_REQUEST_TIMEOUT_MS'' 20000),
       rc_reconnect_delay = ms ''reconnect-ms'' (envInt env ''SCNET_AGENT_RECONNECT_DELAY_MS'' 3000)\<rparr>)"

definition normalizeAgentURL :: "string \<Rightarrow> goerr + string" where
  "normalizeAgentURL raw =
     (let trimmed = TrimSpace raw in
      if trimmed = '''' then Inl (ErrorString ''SCNET_AGENT_URL is required'')
      else
        case UrlParse trimmed of
          Inl e \<Rightarrow> Inl (Wrapped ''parse SCNET_AGENT_URL'' e)
        | Inr u \<Rightarrow>
            (if ur_scheme u \<notin> {''https'', ''http'', ''wss'', ''ws''}
             then Inl (ErrorString ''SCNET_AGENT_URL must start with https://, http://, wss://, or ws://'')
             else
               let v = (if ur_scheme u = ''https'' then u\<lparr>ur_scheme := ''wss''\<rparr>
                        else if ur_scheme u = ''http'' then u\<lparr>ur_scheme := ''ws''\<rparr> else u)
               in Inr (UrlString
                    (if ur_path v = '''' \<or> ur_path v = ''/'' then v\<lparr>ur_path := ''/_agent/connect''\<rparr> else v))))"

definition normalizeBackendURL :: "string \<Rightarrow> goerr + url" where
  "normalizeBackendURL raw =
     (let trimmed = (if TrimSpace raw = '''' then ''http://127.0.0.1:8080'' else TrimSpace raw) in
      case UrlParse trimmed of
        Inl e \<Rightarrow> Inl (Wrapped ''parse SCNET_AGENT_BACKEND_URL'' e)
      | Inr u \<Rightarrow>
          if ur_scheme u \<noteq> ''http'' \<and> ur_scheme u \<noteq> ''https''
          then Inl (ErrorString ''SCNET_AGENT_BACKEND_URL must start with http:// or https://'')
          else if ur_host u = '''' then Inl (ErrorString ''SCNET_AGENT_BACKEND_URL must include host'')
          else Inr (if ur_path u = '''' then u\<lparr>ur_path := ''/''\<rparr> else u))"

record agent =
  ag_agent_url :: string
  ag_backend_url :: url
  ag_cfg :: relay_config

definition New :: "relay_config \<Rightarrow> goerr + agent" where
  "New cfg =
     (if TrimSpace (rc_token cfg) = '''' then Inl (ErrorString ''SCNET_AGENT_TOKEN is required'')
      else
        case normalizeAgentURL (rc_agent_url cfg) of
          Inl e \<Rightarrow> Inl e
        | Inr agentURL \<Rightarrow>
            (case normalizeBackendURL (rc_backend_url cfg) of
               Inl e \<Rightarrow> Inl e
             | Inr backendURL \<Rightarrow>
                 (let c1 = (if TrimSpace (rc_agent_id cfg) = '''' then cfg\<lparr>rc_agent_id := ''scnet-relay-agent''\<rparr> else cfg);
                      c2 = (if rc_ping_interval c1 \<le> 0 then c1\<lparr>rc_ping_interval := 15000 * millisecond\<rparr> else c1);
                      c3 = (if rc_request_timeout c2 \<le> 0 then c2\<lparr>rc_request_timeout := 20000 * millisecond\<rparr> else c2);
                      c4 = (if rc_reconnect_delay c3 \<le> 0 then c3\<lparr>rc_reconnect_delay := 3000 * millisecond\<rparr> else c3)
                  in Inr \<lparr>ag_agent_url = agentURL, ag_backend_url = backendURL, ag_cfg = c4\<rparr>)))"

section \<open>Headers\<close>

text \<open>
  \<open>http.Header\<close>: the values of each canonical name. \<open>CanonicalHeaderKey\<close> leaves a name with a
  byte that no header name has as it is, and else has capitals at the start and after each dash.
\<close>

type_synonym header = "string \<Rightarrow> string list"

definition validHeaderFieldByte :: "char \<Rightarrow> bool" where
  "validHeaderFieldByte c \<longleftrightarrow> is_alnum c \<or> c \<in> set ''!#$%&*+-.^_`|~'' \<union> {CHR 0x27}"

fun canonical_case :: "bool \<Rightarrow> string \<Rightarrow> string" where
  "canonical_case upper [] = []"
| "canonical_case upper (c # s) =
     (let n = of_char c :: nat;
          d = (if upper \<and> 97 \<le> n \<and> n \<le> 122 then char_of (n - 32)
               else if \<not> upper \<and> 65 \<le> n \<and> n \<le> 90 then char_of (n + 32) else c)
      in d # canonical_case (d = CHR ''-'') s)"

definition CanonicalHeaderKey :: "string \<Rightarrow> string" where
  "CanonicalHeaderKey s = (if list_all validHeaderFieldByte s then canonical_case True s else s)"

definition header_Add :: "string \<Rightarrow> string \<Rightarrow> header \<Rightarrow> header" where
  "header_Add name v h = h(CanonicalHeaderKey name := h (CanonicalHeaderKey name) @ [v])"

definition header_Set :: "string \<Rightarrow> string \<Rightarrow> header \<Rightarrow> header" where
  "header_Set name v h = h(CanonicalHeaderKey name := [v])"

definition hopByHopHeaders :: "string list" where
  "hopByHopHeaders =
     [''connection'', ''content-length'', ''host'', ''proxy-authenticate'', ''proxy-authorization'', ''te'', ''trailer'',
      ''transfer-encoding'', ''upgrade'', ''x-forwarded-for'', ''x-forwarded-host'', ''x-forwarded-proto'']"

definition copyRequestHeaders :: "unicode \<Rightarrow> (string \<times> string) list \<Rightarrow> header \<Rightarrow> header" where
  "copyRequestHeaders u src dst =
     fold (\<lambda>(name, v) h. if name = '''' \<or> ToLower u name \<in> set hopByHopHeaders then h else header_Add name v h) src dst"

text \<open>A response's headers in the order in which \<open>range\<close> visits them.\<close>

definition collectResponseHeaders :: "unicode \<Rightarrow> (string \<times> string list) list \<Rightarrow> (string \<times> string) list" where
  "collectResponseHeaders u src =
     concat (map (\<lambda>(name, vs). if ToLower u name \<in> set hopByHopHeaders then [] else map (Pair name) vs) src)"

section \<open>Requests\<close>

record relay_request =
  rq_id :: string
  rq_method :: string
  rq_url :: string
  rq_headers :: "(string \<times> string) list"
  rq_body :: string
  rq_forwarded_host :: string
  rq_forwarded_proto :: string
  rq_client_ip :: string
  rq_client_origin :: string

record http_request =
  hr_method :: string
  hr_url :: url
  hr_header :: header
  hr_body :: string

record http_response =
  hp_status :: int
  hp_header :: "(string \<times> string list) list"
  hp_body :: "goerr + string"

text \<open>The codecs and the HTTP client.\<close>

record relay_libs =
  b64_decode :: "string \<Rightarrow> goerr + string"
  b64_encode :: "string \<Rightarrow> string"
  http_do :: "http_request \<Rightarrow> goerr + http_response"
  rl_unicode :: unicode

datatype envelope =
    Hello string
  | Ping
  | Pong
  | Response string int "(string \<times> string) list" string
  | ErrorEnvelope string string goerr

definition resolveTargetURL :: "agent \<Rightarrow> string \<Rightarrow> goerr + string" where
  "resolveTargetURL a raw =
     (case UrlParse raw of
        Inl e \<Rightarrow> Inl e
      | Inr relative \<Rightarrow> Inr (UrlString (ResolveReference (ag_backend_url a) relative)))"

text \<open>
  \<open>http.NewRequest\<close>: an empty method is GET, any other one must be a token, the URL is parsed, and
  an empty port is dropped from its host.
\<close>

definition removeEmptyPort :: "string \<Rightarrow> string" where
  "removeEmptyPort h = (if HasSuffix h '':'' then butlast h else h)"

definition NewRequest :: "string \<Rightarrow> string \<Rightarrow> string \<Rightarrow> goerr + http_request" where
  "NewRequest method target body =
     (let m = (if method = '''' then ''GET'' else method) in
      if \<not> list_all validHeaderFieldByte m then Inl (ErrorString ''net/http: invalid method'')
      else
        case UrlParse target of
          Inl e \<Rightarrow> Inl e
        | Inr u \<Rightarrow>
            Inr \<lparr>hr_method = m, hr_url = u\<lparr>ur_host := removeEmptyPort (ur_host u)\<rparr>, hr_header = (\<lambda>_. []), hr_body = body\<rparr>)"

definition set_if :: "string \<Rightarrow> string \<Rightarrow> header \<Rightarrow> header" where
  "set_if name v h = (if v \<noteq> '''' then header_Set name v h else h)"

definition request_header :: "unicode \<Rightarrow> relay_request \<Rightarrow> header \<Rightarrow> header" where
  "request_header u request h =
     set_if ''X-SCNET-Client-Origin'' (rq_client_origin request)
       (set_if ''X-Forwarded-For'' (rq_client_ip request)
         (set_if ''X-Forwarded-Proto'' (rq_forwarded_proto request)
           (set_if ''X-Forwarded-Host'' (rq_forwarded_host request)
             (copyRequestHeaders u (rq_headers request) h))))"

definition proxyRequest :: "relay_libs \<Rightarrow> agent \<Rightarrow> relay_request \<Rightarrow> goerr + envelope" where
  "proxyRequest L a request =
     (case resolveTargetURL a (rq_url request) of
        Inl e \<Rightarrow> Inl (Wrapped ''resolve target url'' e)
      | Inr targetURL \<Rightarrow>
          (case b64_decode L (rq_body request) of
             Inl e \<Rightarrow> Inl (Wrapped ''decode request body'' e)
           | Inr body \<Rightarrow>
               (case NewRequest (rq_method request) targetURL body of
                  Inl e \<Rightarrow> Inl (Wrapped ''create upstream request'' e)
                | Inr hr \<Rightarrow>
                    (case http_do L (hr\<lparr>hr_header := request_header (rl_unicode L) request (hr_header hr)\<rparr>) of
                       Inl e \<Rightarrow> Inl (Wrapped ''perform upstream request'' e)
                     | Inr resp \<Rightarrow>
                         (case hp_body resp of
                            Inl e \<Rightarrow> Inl (Wrapped ''read upstream response'' e)
                          | Inr respBody \<Rightarrow>
                              Inr (Response (rq_id request) (hp_status resp)
                                (collectResponseHeaders (rl_unicode L) (hp_header resp)) (b64_encode L respBody)))))))"

text \<open>The envelope that \<open>handleRequest\<close> writes.\<close>

definition handleRequest :: "relay_libs \<Rightarrow> agent \<Rightarrow> relay_request \<Rightarrow> envelope" where
  "handleRequest L a request =
     (case proxyRequest L a request of
        Inl e \<Rightarrow> ErrorEnvelope (rq_id request) ''UPSTREAM_REQUEST_FAILED'' e
      | Inr response \<Rightarrow> response)"

section \<open>Messages\<close>

text \<open>What \<open>json.Unmarshal\<close> makes of a message: its type, and the request it carries.\<close>

record message =
  ms_type :: "goerr + string"
  ms_request :: "goerr + relay_request"
  ms_error :: "goerr + unit"

text \<open>The error, if any, what is written at once, and the requests that get a goroutine.\<close>

definition handleMessage :: "message \<Rightarrow> goerr option \<times> envelope list \<times> relay_request list" where
  "handleMessage m =
     (case ms_type m of
        Inl e \<Rightarrow> (Some (Wrapped ''decode relay envelope'' e), [], [])
      | Inr t \<Rightarrow>
          if t = ''hello'' then (None, [], [])
          else if t = ''ping'' then (None, [Pong], [])
          else if t = ''pong'' then (None, [], [])
          else if t = ''request'' then
            (case ms_request m of
               Inl e \<Rightarrow> (Some (Wrapped ''decode relay request'' e), [], [])
             | Inr request \<Rightarrow> (None, [], [request]))
          else if t = ''error'' then
            (case ms_error m of
               Inl e \<Rightarrow> (Some (Wrapped ''decode relay error'' e), [], [])
             | Inr _ \<Rightarrow> (None, [], []))
          else (None, [ErrorEnvelope '''' ''UNSUPPORTED_MESSAGE'' (ErrorString ''unsupported relay message type'')], []))"

section \<open>Sessions\<close>

text \<open>
  A session: the messages read so far, the requests whose goroutine runs, and what was written, in
  order. The read loop handles each message, its errors are logged; goroutines finish in any order.
\<close>

record relay_session =
  rs_read :: "message list"
  rs_running :: "relay_request list"
  rs_written :: "envelope list"

definition open_session :: "agent \<Rightarrow> relay_session" where
  "open_session a = \<lparr>rs_read = [], rs_running = [], rs_written = [Hello (rc_agent_id (ag_cfg a))]\<rparr>"

definition read_message :: "message \<Rightarrow> relay_session \<Rightarrow> relay_session" where
  "read_message m s =
     (case handleMessage m of (_, out, spawned) \<Rightarrow>
        \<lparr>rs_read = rs_read s @ [m], rs_running = rs_running s @ spawned, rs_written = rs_written s @ out\<rparr>)"

definition finish_request :: "relay_libs \<Rightarrow> agent \<Rightarrow> nat \<Rightarrow> relay_session \<Rightarrow> relay_session" where
  "finish_request L a i s =
     s\<lparr>rs_running := take i (rs_running s) @ drop (Suc i) (rs_running s),
       rs_written := rs_written s @ [handleRequest L a (rs_running s ! i)]\<rparr>"

definition ping_tick :: "relay_session \<Rightarrow> relay_session" where
  "ping_tick s = s\<lparr>rs_written := rs_written s @ [Ping]\<rparr>"

end
