(* ===== verification/RelayProperties.thy ===== *)
theory RelayProperties
  imports Relay URLProperties Transitions "HOL-Library.Multiset"
begin

text \<open>
  The properties of the relay agent: where a request goes, which headers go with it, and that every
  request is answered once.
\<close>

section \<open>Where a request goes\<close>



text \<open>
  Nothing holds the agent to the backend, though: a message whose URL is absolute is sent to the host
  it names, from inside the network of the agent.
\<close>

lemma absolute_request_leaves_backend:
  assumes s: "web_scheme s" and h: "plain_host h" and p: "plain_path (CHR ''/'' # p)" and q: "plain_query q"
  shows "\<exists>target u. resolveTargetURL a (s @ ''://'' @ h @ CHR ''/'' # p @ query_suffix q) = Inr target \<and>
     UrlParse target = Inr u \<and> ur_scheme u = s \<and> ur_host u = h"
proof -
  let ?ref = "plain_url s h (CHR ''/'' # p) q"
  have esc: "EscapedPath ?ref = CHR ''/'' # p" using p by (simp add: EscapedPath_plain plain_url_def empty_url_def)
  have "resolvePath (CHR ''/'' # p) '''' = resolvePath '''' (CHR ''/'' # p)" by (simp add: resolvePath_def)
  then obtain r where r: "resolvePath (CHR ''/'' # p) '''' = CHR ''/'' # r" "plain_path (CHR ''/'' # r)"
    using resolvePath_plain [OF p, of "''''"] by auto
  have "ResolveReference (ag_backend_url a) ?ref = plain_url s h (CHR ''/'' # r) q"
    using web_scheme_facts(1) [OF s] esc r
    by (simp add: ResolveReference_def Let_def set_path_def setPath_plain plain_url_def empty_url_def)
  then have "resolveTargetURL a (s @ ''://'' @ h @ CHR ''/'' # p @ query_suffix q) = Inr (UrlString (plain_url s h (CHR ''/'' # r) q))"
    using UrlParse_plain [OF s h p q] by (simp add: resolveTargetURL_def)
  moreover have "UrlParse (UrlString (plain_url s h (CHR ''/'' # r) q)) = Inr (plain_url s h (CHR ''/'' # r) q)"
    using UrlParse_plain [OF s h r(2) q] UrlString_plain [OF s h r(2)] by simp
  ultimately show ?thesis by (auto simp add: plain_url_def empty_url_def)
qed

section \<open>Headers\<close>

definition lower_name :: "string \<Rightarrow> string" where
  "lower_name s = map (\<lambda>c. char_of (lower_ascii (of_char c))) s"

lemma lower_case_change:
  "(of_char c :: nat) < 0x80 \<Longrightarrow> \<not> upper \<and> 65 \<le> (of_char c :: nat) \<and> (of_char c :: nat) \<le> 90 \<Longrightarrow>
     lower_ascii (of_char (char_of (of_char c + 32 :: nat) :: char)) = lower_ascii (of_char c)"
  by (simp add: lower_ascii_def)

lemma lower_canonical_case:
  "ascii_only s \<Longrightarrow> lower_name (canonical_case upper s) = lower_name s"
proof (induction upper s rule: canonical_case.induct)
  case (2 upper c s)
  let ?n = "of_char c :: nat"
  have n: "?n < 0x80" and s: "ascii_only s" using 2(2) by (simp_all add: ascii_only_def)
  have up: "lower_ascii (?n - 32) = ?n \<and> (of_char (char_of (?n - 32) :: char) :: nat) = ?n - 32" if "97 \<le> ?n" "?n \<le> 122"
    using that by (auto simp add: lower_ascii_def)
  have down: "lower_ascii (?n + 32) = ?n + 32 \<and> lower_ascii ?n = ?n + 32 \<and>
      (of_char (char_of (?n + 32) :: char) :: nat) = ?n + 32" if "65 \<le> ?n" "?n \<le> 90"
    using that by (auto simp add: lower_ascii_def)
  have low: "lower_ascii ?n = ?n" if "97 \<le> ?n" using that by (simp add: lower_ascii_def)
  from 2(1) [OF refl refl s] show ?case
    using up down low by (auto simp add: lower_name_def Let_def)
qed (simp add: lower_name_def)

lemma valid_name_ascii: "list_all validHeaderFieldByte s \<Longrightarrow> ascii_only s"
proof -
  have "\<forall>c \<in> set ''!#$%&*+-.^_`|~'' \<union> {CHR 0x27}. (of_char c :: nat) < 0x80" by code_simp
  then show "list_all validHeaderFieldByte s \<Longrightarrow> ascii_only s"
    unfolding ascii_only_def list_all_iff validHeaderFieldByte_def is_alnum_def ascii_letter_def ascii_digit_def
    by fastforce
qed

lemma ToLower_valid: "list_all validHeaderFieldByte s \<Longrightarrow> ToLower u s = lower_name s"
  by (simp add: ToLower_def valid_name_ascii lower_name_def)

lemma canonical_lower:
  assumes "list_all validHeaderFieldByte K" "CanonicalHeaderKey n = K"
  shows "ToLower u n = lower_name K"
proof (cases "list_all validHeaderFieldByte n")
  case True
  with assms(2) have "lower_name K = lower_name n"
    by (auto simp add: CanonicalHeaderKey_def lower_canonical_case valid_name_ascii)
  with True show ?thesis by (simp add: ToLower_valid)
next
  case False
  with assms have "n = K" by (simp add: CanonicalHeaderKey_def)
  with False assms(1) show ?thesis by simp
qed

lemma copyRequestHeaders_values:
  "copyRequestHeaders u hs h K =
     h K @ map snd (filter (\<lambda>(n, _). n \<noteq> '''' \<and> ToLower u n \<notin> set hopByHopHeaders \<and> CanonicalHeaderKey n = K) hs)"
proof (induction hs arbitrary: h)
  case Nil
  then show ?case by (simp add: copyRequestHeaders_def)
next
  case (Cons nv hs)
  obtain n v where nv: "nv = (n, v)" by force
  have "copyRequestHeaders u (nv # hs) h =
      copyRequestHeaders u hs (if n = '''' \<or> ToLower u n \<in> set hopByHopHeaders then h else header_Add n v h)"
    by (simp add: copyRequestHeaders_def nv)
  with Cons.IH show ?case by (simp add: nv header_Add_def)
qed


lemma forwarding_names:
  "CanonicalHeaderKey ''X-Forwarded-For'' = ''X-Forwarded-For''" "CanonicalHeaderKey ''X-Forwarded-Proto'' = ''X-Forwarded-Proto''"
  "CanonicalHeaderKey ''X-Forwarded-Host'' = ''X-Forwarded-Host''" "CanonicalHeaderKey ''X-SCNET-Client-Origin'' = ''X-Scnet-Client-Origin''"
  "lower_name ''X-Forwarded-For'' \<in> set hopByHopHeaders" "lower_name ''X-Forwarded-Proto'' \<in> set hopByHopHeaders"
  "lower_name ''X-Forwarded-Host'' \<in> set hopByHopHeaders" "lower_name ''X-Scnet-Client-Origin'' \<notin> set hopByHopHeaders"
  by (simp_all add: CanonicalHeaderKey_def validHeaderFieldByte_def is_alnum_def ascii_letter_def ascii_digit_def Let_def
      lower_name_def lower_ascii_def hopByHopHeaders_def char_of_eq_iff take_bit_eq_mod)

lemma copyRequestHeaders_valid:
  assumes K: "list_all validHeaderFieldByte K" "K \<noteq> ''''"
  shows "copyRequestHeaders u hs (\<lambda>_. []) K =
     (if lower_name K \<in> set hopByHopHeaders then [] else map snd (filter (\<lambda>(n, _). CanonicalHeaderKey n = K) hs))"
proof -
  have "n \<noteq> '''' \<and> ToLower u n \<notin> set hopByHopHeaders \<and> CanonicalHeaderKey n = K \<longleftrightarrow>
      CanonicalHeaderKey n = K \<and> lower_name K \<notin> set hopByHopHeaders" for n
    using canonical_lower [OF K(1), of n u] K(2) by (auto simp add: CanonicalHeaderKey_def)
  then show ?thesis by (auto simp add: copyRequestHeaders_values)
qed

definition optional :: "string \<Rightarrow> string list" where
  "optional v = (if v = '''' then [] else [v])"

text \<open>
  C30: a client cannot forge what the relay says about it. In the request to the backend the three
  forwarding headers hold exactly what the relay's envelope says, once, or are missing; no header
  of the connection between client and relay is passed on, however it is spelt; the relay's client
  origin, when there is one, replaces the client's; and every other header has the client's values
  in their order.
\<close>

theorem relay_headers_not_forged:
  assumes "list_all validHeaderFieldByte K" "K \<noteq> ''''"
  shows "request_header u request (\<lambda>_. []) K =
     (if K = ''X-Forwarded-For'' then optional (rq_client_ip request)
      else if K = ''X-Forwarded-Proto'' then optional (rq_forwarded_proto request)
      else if K = ''X-Forwarded-Host'' then optional (rq_forwarded_host request)
      else if lower_name K \<in> set hopByHopHeaders then []
      else if K = ''X-Scnet-Client-Origin'' \<and> rq_client_origin request \<noteq> '''' then [rq_client_origin request]
      else map snd (filter (\<lambda>(n, _). CanonicalHeaderKey n = K) (rq_headers request)))"
proof -
  have set_if: "set_if n v h K = (if v \<noteq> '''' \<and> CanonicalHeaderKey n = K then [v] else h K)" for n v and h :: header
    by (simp add: set_if_def header_Set_def)
  show ?thesis
    unfolding request_header_def set_if copyRequestHeaders_valid [OF assms] forwarding_names(1-4)
    using forwarding_names(5-8) by (auto simp add: optional_def)
qed

section \<open>Sessions\<close>

inductive relay_step :: "relay_libs \<Rightarrow> agent \<Rightarrow> relay_session \<Rightarrow> relay_session \<Rightarrow> bool" for L a where
  read: "relay_step L a s (read_message m s)"
| finish: "i < length (rs_running s) \<Longrightarrow> relay_step L a s (finish_request L a i s)"
| ping: "relay_step L a s (ping_tick s)"

definition requested :: "relay_session \<Rightarrow> relay_request multiset" where
  "requested s = mset (concat (map (\<lambda>m. snd (snd (handleMessage m))) (rs_read s)))"

fun is_answer :: "envelope \<Rightarrow> bool" where
  "is_answer (Response _ _ _ _) = True"
| "is_answer (ErrorEnvelope _ code _) = (code = ''UPSTREAM_REQUEST_FAILED'')"
| "is_answer _ = False"

text \<open>The requests that were answered: their answers are what \<open>handleRequest\<close> makes of them.\<close>

definition relay_ok :: "relay_libs \<Rightarrow> agent \<Rightarrow> relay_session \<Rightarrow> bool" where
  "relay_ok L a s \<longleftrightarrow>
     (\<exists>answered. requested s = answered + mset (rs_running s) \<and>
        mset (filter is_answer (rs_written s)) = image_mset (handleRequest L a) answered)"

lemma handleRequest_answer: "is_answer (handleRequest L a r)"
  by (auto simp add: handleRequest_def proxyRequest_def split: sum.splits)

lemma handleMessage_no_answer: "handleMessage m = (e, out, spawned) \<Longrightarrow> filter is_answer out = []"
  by (auto simp add: handleMessage_def split: sum.splits if_splits)

interpretation relay: invariant_system "\<lambda>s. s = open_session a" "relay_step L a" "relay_ok L a" for L a
proof
  fix s
  assume "s = open_session a"
  then show "relay_ok L a s" by (simp add: relay_ok_def requested_def open_session_def)
next
  fix s t
  assume "relay_step L a s t" "relay_ok L a s"
  then obtain answered where req: "requested s = answered + mset (rs_running s)"
    and ans: "mset (filter is_answer (rs_written s)) = image_mset (handleRequest L a) answered"
    unfolding relay_ok_def by blast
  from \<open>relay_step L a s t\<close> show "relay_ok L a t"
  proof cases
    case (read m)
    obtain e out spawned where h: "handleMessage m = (e, out, spawned)" by (rule prod_cases3)
    with read req ans handleMessage_no_answer [OF h] show ?thesis
      unfolding relay_ok_def by (intro exI [of _ answered]) (simp add: read_message_def requested_def)
  next
    case (finish i)
    have "mset (rs_running s) = add_mset (rs_running s ! i) (mset (rs_running t))"
      using id_take_nth_drop [OF finish(2)] finish(1)
      by (simp add: finish_request_def) (metis mset.simps(2) mset_append union_mset_add_mset_right)
    with finish req ans handleRequest_answer [of L a "rs_running s ! i"] show ?thesis
      unfolding relay_ok_def
      by (intro exI [of _ "add_mset (rs_running s ! i) answered"]) (simp add: finish_request_def requested_def)
  next
    case ping
    with req ans show ?thesis
      unfolding relay_ok_def by (intro exI [of _ answered]) (simp add: ping_tick_def requested_def)
  qed
qed



section \<open>An agent\<close>

definition ref_relay_config :: relay_config where
  "ref_relay_config =
     \<lparr>rc_agent_url = ''https://relay.example/'', rc_token = ''t'', rc_agent_id = '' '', rc_backend_url = ''http://127.0.0.1:8080/'',
      rc_ping_interval = 0, rc_request_timeout = 0, rc_reconnect_delay = 0\<rparr>"

lemma ref_host: "plain_host ''127.0.0.1:8080''" "plain_host ''relay.example''"
  by (simp_all add: plain_host_def is_alnum_def ascii_letter_def ascii_digit_def after_last_def validOptionalPort_def
      is_digit_char_def)

lemma plain_path_root: "plain_path ''/''"
  by (rule plain_path_slash)

lemma ref_urls:
  "UrlParse ''http://127.0.0.1:8080/'' = Inr (plain_url ''http'' ''127.0.0.1:8080'' ''/'' '''')"
  "UrlParse ''https://relay.example/'' = Inr (plain_url ''https'' ''relay.example'' ''/'' '''')"
proof -
  have q: "plain_query ''''" by (simp add: plain_query_def has_ctl_def)
  have w: "web_scheme ''http''" "web_scheme ''https''" by (simp_all add: web_scheme_def)
  show "UrlParse ''http://127.0.0.1:8080/'' = Inr (plain_url ''http'' ''127.0.0.1:8080'' ''/'' '''')"
    using UrlParse_plain [OF w(1) ref_host(1) plain_path_root q] by (simp add: query_suffix_def)
  show "UrlParse ''https://relay.example/'' = Inr (plain_url ''https'' ''relay.example'' ''/'' '''')"
    using UrlParse_plain [OF w(2) ref_host(2) plain_path_root q] by (simp add: query_suffix_def)
qed

text \<open>The defaults of an agent, and the address it dials.\<close>

lemma ref_New:
  obtains a where "New ref_relay_config = Inr a" "ag_backend_url a = plain_url ''http'' ''127.0.0.1:8080'' ''/'' ''''"
    "ag_agent_url a = ''wss://relay.example/_agent/connect''" "rc_agent_id (ag_cfg a) = ''scnet-relay-agent''"
    "rc_ping_interval (ag_cfg a) = 15000000000"
proof -
  have trim: "TrimSpace ''https://relay.example/'' = ''https://relay.example/''"
    "TrimSpace ''http://127.0.0.1:8080/'' = ''http://127.0.0.1:8080/''" "TrimSpace ''t'' = ''t''" "TrimSpace '' '' = ''''" by code_simp+
  have "escape EncodeHost ''relay.example'' = ''relay.example''" by (rule plain_host_facts(8) [OF ref_host(2)])
  moreover have "escape EncodePath ''/_agent/connect'' = ''/_agent/connect''"
    by (simp add: escape_def shouldEscape_def is_alnum_def ascii_letter_def ascii_digit_def)
  ultimately have "UrlString (plain_url ''wss'' ''relay.example'' ''/_agent/connect'' '''') = ''wss://relay.example/_agent/connect''"
    by (simp add: UrlString_def url_hier_def url_authority_def url_tail_def plain_url_def empty_url_def EscapedPath_def Let_def)
  moreover have "(plain_url ''https'' ''relay.example'' ''/'' '''')\<lparr>ur_scheme := ''wss'', ur_path := ''/_agent/connect''\<rparr> =
      plain_url ''wss'' ''relay.example'' ''/_agent/connect'' ''''" by (simp add: plain_url_def empty_url_def)
  ultimately have "normalizeAgentURL ''https://relay.example/'' = Inr ''wss://relay.example/_agent/connect''"
    unfolding normalizeAgentURL_def trim by (simp add: ref_urls Let_def plain_url_def empty_url_def)
  moreover have "normalizeBackendURL ''http://127.0.0.1:8080/'' = Inr (plain_url ''http'' ''127.0.0.1:8080'' ''/'' '''')"
    unfolding normalizeBackendURL_def trim by (simp add: ref_urls Let_def plain_url_def empty_url_def)
  ultimately show ?thesis
    by (intro that [of "case New ref_relay_config of Inr a \<Rightarrow> a"])
      (simp_all add: New_def ref_relay_config_def trim Let_def millisecond_def)
qed


definition ref_relay_libs :: relay_libs where
  "ref_relay_libs = \<lparr>b64_decode = Inr, b64_encode = id, http_do = (\<lambda>_. Inl ErrRand),
     rl_unicode = \<lparr>letter_table = \<lambda>_. False, digit_table = \<lambda>_. False, lower_table = id\<rparr>\<rparr>"

theorem relay_headers_not_forged_witness:
  "request_header (rl_unicode ref_relay_libs) \<lparr>rq_id = ''1'', rq_method = ''GET'', rq_url = ''/'',
      rq_headers = [(''x-forwarded-FOR'', ''6.6.6.6''), (''accept'', ''a''), (''Accept'', ''b'')], rq_body = '''',
      rq_forwarded_host = '''', rq_forwarded_proto = '''', rq_client_ip = ''1.2.3.4'', rq_client_origin = ''''\<rparr>
      (\<lambda>_. []) ''X-Forwarded-For'' = [''1.2.3.4'']"
proof -
  have "list_all validHeaderFieldByte ''X-Forwarded-For''" "''X-Forwarded-For'' \<noteq> ''''"
    by (simp_all add: validHeaderFieldByte_def is_alnum_def ascii_letter_def)
  from relay_headers_not_forged [OF this, of "rl_unicode ref_relay_libs"] show ?thesis by (simp add: optional_def)
qed

text \<open>A ping, a request and its answer.\<close>

definition ref_relay_request :: relay_request where
  "ref_relay_request = \<lparr>rq_id = ''7'', rq_method = ''GET'', rq_url = ''%'', rq_headers = [], rq_body = '''',
     rq_forwarded_host = '''', rq_forwarded_proto = '''', rq_client_ip = '''', rq_client_origin = ''''\<rparr>"


end
