(* ===== verification/StoreProperties.thy ===== *)
theory StoreProperties
  imports UserStore InviteStore PeerStore Reference
begin

text \<open>The properties of the three stores: updates, filters, pages, states.\<close>

section \<open>Updates\<close>

text \<open>
  C38: the \<open>UPDATE\<close> statement that \<open>userStore.Update\<close> assembles, with its numbered placeholders,
  does to the row named exactly what the set fields say, for every combination of fields; other
  rows and columns stay, and a failed call changes nothing.
\<close>

theorem users_Update_equivalence:
  assumes ok: "user_fields_ok f" and run: "users_Update i f w = (r, w')"
  shows "(case r of
      Inl _ \<Rightarrow> users w' = users w
    | Inr _ \<Rightarrow> if no_fields f then w' = w
             else users w' = map (\<lambda>u. if u_id u = i then apply_user_fields f (clock w') u else u) (users w)) \<and>
     invites w' = invites w \<and> peers w' = peers w"
proof -
  have "wp (users_Update i f) (\<lambda>r w'. (case r of
      Inl _ \<Rightarrow> users w' = users w
    | Inr _ \<Rightarrow> if no_fields f then w' = w
             else users w' = map (\<lambda>u. if u_id u = i then apply_user_fields f (clock w') u else u) (users w)) \<and>
     invites w' = invites w \<and> peers w' = peers w) w"
    unfolding users_Update_effect [OF ok] by (simp add: wp_rules update_rows_def)
  from wp_I [OF this run] show ?thesis .
qed

theorem users_Update_equivalence_witness:
  "\<exists>w'. users_Update 1 (empty_fields\<lparr>f_phone := \<lparr>upd_set = True, upd_value = Some ''123''\<rparr>, f_status := Some ''suspended''\<rparr>)
       ref_world = (Inr (), w') \<and>
     map u_phone (users w') = [Some ''123''] \<and> map u_status (users w') = [''suspended''] \<and> map u_email (users w') = [None]"
proof -
  let ?f = "empty_fields\<lparr>f_phone := \<lparr>upd_set = True, upd_value = Some ''123''\<rparr>, f_status := Some ''suspended''\<rparr>"
  have "varchar_ok 32 ''123''" "varchar_ok 16 ''suspended''" by code_simp+
  then have ok: "user_fields_ok ?f"
    by (auto simp add: user_fields_ok_def empty_fields_def no_update_def opt_field_ok_def varchar_opt_ok_def)
  have "fst (users_Update 1 ?f ref_world) = Inr ()" by code_simp
  then obtain w' where run: "users_Update 1 ?f ref_world = (Inr (), w')" by (metis prod.collapse)
  have "\<not> no_fields ?f" by (simp add: no_fields_def)
  with users_Update_equivalence [OF ok run] run show ?thesis
    by (auto simp add: ref_world_def ref_admin_def apply_user_fields_def opt_field_def opt_val_def empty_fields_def no_update_def)
qed

text \<open>
  The \<open>UPDATE\<close> statement that \<open>inviteStore.Update\<close> assembles sets exactly the limit and the
  expiry asked for on the row named (clearing wins over setting); otherwise it fails and changes
  nothing.
\<close>

theorem invites_Update_equivalence:
  assumes run: "invites_Update k f w = (r, w')"
  shows "(case r of
      Inl _ \<Rightarrow> invites w' = invites w
    | Inr _ \<Rightarrow> invites w' = map (\<lambda>i. if i_id i = k then
         i\<lparr>i_max_uses := (case f_max_uses f of None \<Rightarrow> i_max_uses i | Some n \<Rightarrow> n),
           i_expires_at := (if f_clear_expires_at f then None
                            else case f_expires_at f of None \<Rightarrow> i_expires_at i | Some t \<Rightarrow> Some t)\<rparr> else i) (invites w)) \<and>
     users w' = users w \<and> peers w' = peers w"
proof -
  have "wp (invites_Update k f) (\<lambda>r w'. (case r of
      Inl _ \<Rightarrow> invites w' = invites w
    | Inr _ \<Rightarrow> invites w' = invites w \<and> f_max_uses f = None \<and> \<not> f_clear_expires_at f \<and> f_expires_at f = None \<or>
        invites w' = update_rows (\<lambda>i. i_id i = k) (apply_invite_fields f) (invites w)) \<and>
     users w' = users w \<and> peers w' = peers w) w"
    by (rule invites_Update_wp) auto
  note result = wp_I [OF this run]
  have "map (\<lambda>i. if i_id i = k then apply_invite_fields f i else i) (invites w) = invites w"
    if "f_max_uses f = None" "\<not> f_clear_expires_at f" "f_expires_at f = None"
    using that by (intro map_idI) (simp add: apply_invite_fields_def)
  with result show ?thesis
    unfolding apply_invite_fields_def [symmetric]
    by (cases r) (auto simp add: update_rows_def)
qed

theorem invites_Update_equivalence_witness:
  "\<exists>w'. invites_Update 70 \<lparr>f_max_uses = Some 4, f_expires_at = Some 9, f_clear_expires_at = True\<rparr>
       (ref_world\<lparr>invites := [\<lparr>i_id = 70, i_code = ''C'', i_created_by = 1, i_used_by = None, i_max_uses = 1,
          i_use_count = 0, i_expires_at = Some 5, i_created_at = 0\<rparr>]\<rparr>) = (Inr (), w') \<and>
     map i_max_uses (invites w') = [4] \<and> map i_expires_at (invites w') = [None]"
proof -
  let ?run = "invites_Update 70 \<lparr>f_max_uses = Some 4, f_expires_at = Some 9, f_clear_expires_at = True\<rparr>
       (ref_world\<lparr>invites := [\<lparr>i_id = 70, i_code = ''C'', i_created_by = 1, i_used_by = None, i_max_uses = 1,
          i_use_count = 0, i_expires_at = Some 5, i_created_at = 0\<rparr>]\<rparr>)"
  have "fst ?run = Inr ()" by code_simp
  then obtain w' where run: "?run = (Inr (), w')" by (metis prod.collapse)
  from invites_Update_equivalence [OF run] run show ?thesis by auto
qed

section \<open>Listing\<close>

text \<open>The conditions of the user list, without placeholders.\<close>

definition user_matches :: "UserListParams \<Rightarrow> user \<Rightarrow> bool" where
  "user_matches p u \<longleftrightarrow>
     (ul_student_id p \<noteq> '''' \<longrightarrow> sql_like (u_student_id u) (''%'' @ ul_student_id p @ ''%'')) \<and>
     (ul_status p \<noteq> '''' \<longrightarrow> u_status u = ul_status p) \<and>
     (ul_role p \<noteq> '''' \<longrightarrow> u_role u = ul_role p)"

lemma user_rows_matches: "user_rows p w = filter (user_matches p) (users w)"
  by (auto simp add: user_rows_def build_user_where_def add_cond_def eval_where_def eval_cond_def user_col_def
      sql_arg_def user_matches_def intro!: filter_cong)

lemma concat_pages:
  "0 < n \<Longrightarrow> length xs \<le> m * n \<Longrightarrow> concat (map (\<lambda>k. take n (drop (k * n) xs)) [0..<m]) = xs"
proof (induction m arbitrary: xs)
  case 0
  then show ?case by simp
next
  case (Suc m)
  have "concat (map (\<lambda>k. take n (drop (k * n) xs)) [0..<Suc m]) =
      take n xs @ concat (map (\<lambda>k. take n (drop (k * n) (drop n xs))) [0..<m])"
    by (subst upt_conv_Cons, simp, subst map_Suc_upt [symmetric])
       (simp add: comp_def add.commute del: upt_Suc)
  also have "\<dots> = take n xs @ drop n xs" by (subst Suc.IH) (use Suc.prems in auto)
  finally show ?case by simp
qed

text \<open>What a reader gets of a page: nothing when the call fails.\<close>

definition page_items :: "goerr + ('r list \<times> int) \<Rightarrow> 'r list" where
  "page_items r = (case r of Inl _ \<Rightarrow> [] | Inr (items, _) \<Rightarrow> items)"

lemma list_op_page:
  assumes nf: "no_faults w" and rows: "rows (tick w) = rows w" "rows (tick (tick w)) = rows w"
    and size: "0 < n" "(int k + 1) * int n \<le> max_int"
  shows "fst (list_op ce le rows ord (int k + 1) (int n) w) =
     Inr (take n (drop (k * n) (order_by ord (rows w))), int (length (rows w)))"
proof -
  have "int k * int n \<le> (int k + 1) * int n" by (simp add: algebra_simps)
  with size have b: "int k * int n \<le> max_int" by linarith
  have "int k * 1 \<le> int k * int n" using size(1) by (intro mult_left_mono) auto
  with b have k: "int k \<le> max_int" by simp
  have "min_int \<le> int i" for i by (simp add: min_int_def)
  with k b have "wrap_int (int k) = int k" "wrap_int (int (k * n)) = int (k * n)"
    by (simp_all add: wrap_int_id flip: of_nat_mult)
  then have "page_offset (int k + 1) (int n) = int (k * n)"
    by (simp add: page_offset_def)
  with nf rows show ?thesis
    by (simp add: list_op_def tryE_def caseE_def ext_call_def ext_page_def page_rows_def gets_def ret_def
        no_faults_next del: of_nat_mult)
qed

text \<open>
  Walking through the pages of the user list shows every user that meets the filter exactly
  once, in the order asked for, and each page reports their number; as long as the last page's
  end fits Go's \<open>int\<close> and no call fails.
\<close>

theorem users_List_pages:
  assumes nf: "no_faults w" and n: "0 < n" and m: "length (filter (user_matches p) (users w)) \<le> m * n"
    and fits: "int m * int n \<le> max_int"
  shows "concat (map (\<lambda>k. page_items (fst (users_List L (p\<lparr>ul_page := int k + 1, ul_page_size := int n\<rparr>) w))) [0..<m]) =
       order_by (user_le L p) (filter (user_matches p) (users w)) \<and>
     (\<forall>k < m. \<exists>items. fst (users_List L (p\<lparr>ul_page := int k + 1, ul_page_size := int n\<rparr>) w) =
         Inr (items, int (length (filter (user_matches p) (users w))))) \<and>
     mset (order_by (user_le L p) (filter (user_matches p) (users w))) = mset (filter (user_matches p) (users w))"
proof -
  have page: "fst (users_List L (p\<lparr>ul_page := int k + 1, ul_page_size := int n\<rparr>) w) =
      Inr (take n (drop (k * n) (order_by (user_le L p) (filter (user_matches p) (users w)))),
           int (length (filter (user_matches p) (users w))))" if "k < m" for k
  proof -
    have "(int k + 1) * int n \<le> int m * int n" using that by (intro mult_right_mono) auto
    with fits have le: "(int k + 1) * int n \<le> max_int" by linarith
    let ?p = "p\<lparr>ul_page := int k + 1, ul_page_size := int n\<rparr>"
    have "user_matches ?p = user_matches p" by (simp add: user_matches_def fun_eq_iff)
    then have same: "user_rows ?p v = filter (user_matches p) (users v)" for v
      by (simp only: user_rows_matches)
    have same': "user_le L ?p = user_le L p" by (simp add: user_le_def fun_eq_iff)
    show ?thesis
      unfolding users_List_def using list_op_page [OF nf _ _ n le, of "user_rows ?p" _ _ "user_le L ?p"]
      by (simp add: same same')
  qed
  have "concat (map (\<lambda>k. page_items (fst (users_List L (p\<lparr>ul_page := int k + 1, ul_page_size := int n\<rparr>) w))) [0..<m]) =
      concat (map (\<lambda>k. take n (drop (k * n) (order_by (user_le L p) (filter (user_matches p) (users w))))) [0..<m])"
    by (intro arg_cong [where f = concat] map_cong) (simp_all add: page page_items_def)
  also have "\<dots> = order_by (user_le L p) (filter (user_matches p) (users w))"
    by (rule concat_pages [OF n]) (simp add: m)
  finally have "concat (map (\<lambda>k. page_items (fst (users_List L (p\<lparr>ul_page := int k + 1, ul_page_size := int n\<rparr>) w))) [0..<m]) =
      order_by (user_le L p) (filter (user_matches p) (users w))" .
  then show ?thesis using page by simp
qed

theorem users_List_pages_witness:
  "concat (map (\<lambda>k. page_items (fst (users_List ref_libs (\<lparr>ul_page = 1, ul_page_size = 20, ul_student_id = '''',
       ul_status = ''active'', ul_role = '''', ul_sort_by = '''', ul_sort_order = ''''\<rparr>\<lparr>ul_page := int k + 1, ul_page_size := int 1\<rparr>)
       ref_world))) [0..<3]) = [ref_admin]"
proof -
  let ?p = "\<lparr>ul_page = 1, ul_page_size = 20, ul_student_id = '''', ul_status = ''active'', ul_role = '''',
     ul_sort_by = '''', ul_sort_order = ''''\<rparr>"
  have "filter (user_matches ?p) (users ref_world) = [ref_admin]"
    by (simp add: user_matches_def ref_world_def ref_admin_def)
  with users_List_pages [OF ref_no_faults(1), of 1 ?p 3 ref_libs] show ?thesis
    by (simp add: max_int_def order_by_def)
qed

section \<open>The state of an invite\<close>

text \<open>
  The state that SQL computes for an invite and the state the Go method computes are the same
  at every moment but one: at the instant of expiry itself an invite with uses left is expired
  for SQL and for registration, and still available for \<open>State\<close> and \<open>IsAvailable\<close>.
\<close>

theorem invite_states_agree:
  "(sql_invite_state now i = invite_State i now \<longleftrightarrow>
      \<not> (i_expires_at i = Some now \<and> i_use_count i < i_max_uses i)) \<and>
   (invite_State i now = ''available'' \<longleftrightarrow> IsAvailable i now) \<and>
   sql_invite_state now i \<in> {''available'', ''used_up'', ''expired''}"
  by (auto simp add: sql_invite_state_def invite_State_def expired_at_def IsAvailable_def split: option.splits)

end
