(* ===== verification/PoolProperties.thy ===== *)
theory PoolProperties
  imports Leases Reference
begin

text \<open>The properties of the address allocator, \<open>internal/peer/ipam.go\<close>.\<close>

text \<open>
  C20: on an IPv4 subnet \<open>Allocate\<close> hands out the lowest host address that is not in use and
  marks it, and it reports \<open>ErrNoIPAvailable\<close>, changing nothing, exactly when every host address
  is in use. Host addresses are those of the subnet without the network and broadcast address.
\<close>

theorem Allocate_lowest_free:
  assumes n: "net4 (subnet i)" and a: "net_ip (subnet i) = IP4 a"
  shows "case Allocate i of
      (Inr ip, i') \<Rightarrow> (\<exists>k. 1 \<le> k \<and> k < 2 ^ (32 - mask_ones (subnet i)) - 1 \<and> ip = ip4_string (a + of_nat k) \<and>
          ip \<notin> used i \<and> (\<forall>j. 1 \<le> j \<longrightarrow> j < k \<longrightarrow> ip4_string (a + of_nat j) \<in> used i)) \<and>
          ip \<in> host_ips (subnet i) \<and> i' = i\<lparr>used := insert ip (used i)\<rparr>
    | (Inl e, i') \<Rightarrow> e = ErrNoIPAvailable \<and> host_ips (subnet i) \<subseteq> used i \<and> i' = i"
proof -
  obtain r i' where al: "Allocate i = (r, i')" by force
  show ?thesis
  proof (cases r)
    case (Inl e)
    have "e = ErrNoIPAvailable" by (rule Allocate_result [OF n]) (simp add: al Inl)
    with pool_leases.alloc_Inl [OF n al [unfolded Inl]] al Inl show ?thesis by simp
  next
    case (Inr ip)
    from al Inr Allocate_net4 [OF n a]
    have "alloc_loop a (used i) (2 ^ (32 - mask_ones (subnet i))) 1 = Some ip"
      by (auto split: option.splits)
    from alloc_loop_Some [OF this] Allocate_Inr [OF n al [unfolded Inr]] al Inr
    show ?thesis by simp
  qed
qed

lemma ref_pool_net: "net4 (subnet ref_pool)" "net_ip (subnet ref_pool) = IP4 0x0A080000"
  by (simp_all add: ref_pool_def net4_def) code_simp

theorem Allocate_lowest_free_witness:
  "\<exists>i'. Allocate ref_pool = (Inr ''10.8.0.2'', i') \<and> ''10.8.0.2'' \<in> host_ips (subnet ref_pool)"
proof -
  have "fst (Allocate ref_pool) = Inr ''10.8.0.2''" by code_simp
  then obtain i' where "Allocate ref_pool = (Inr ''10.8.0.2'', i')" by (metis prod.collapse)
  with Allocate_lowest_free [OF ref_pool_net] show ?thesis by auto
qed

text \<open>
  C21: whatever sequence of takings and givings the clients of a fresh pool make, no two live
  leases name the same address, and there are at most \<open>2 ^ (32 - prefix) - 2\<close> of them.
\<close>

theorem leases_distinct_and_bounded:
  assumes new: "NewIPAM t cidr = Inr i" and v4: "mask_bits (subnet i) = 32"
    and run: "lease_run Allocate Release es (i, []) = (i', book)"
  shows "distinct book \<and> set book \<subseteq> used i' \<and> set book \<subseteq> host_ips (subnet i') \<and>
     length book \<le> 2 ^ (32 - mask_ones (subnet i)) - 2"
proof -
  have "(w AND m) AND m = w AND m" for w m :: "32 word" by (simp add: and.assoc)
  with new v4 have n: "net4 (subnet i)"
    by (auto simp add: NewIPAM_def ParseCIDR_def net4_def split: option.splits list.splits sum.splits if_splits)
  from pool_leases.run_distinct [OF n run] pool_leases.run_capacity [OF n finite_host_ips run]
  show ?thesis by (simp add: card_host_ips [OF n])
qed

theorem leases_distinct_and_bounded_witness:
  "\<exists>i i' book. NewIPAM (ip6 ref_libs) ''10.8.0.0/29'' = Inr i \<and>
     lease_run Allocate Release [Take, Take, Give ''10.8.0.1'', Take] (i, []) = (i', book) \<and>
     distinct book \<and> length book \<le> 6"
proof -
  obtain i where i: "NewIPAM (ip6 ref_libs) ''10.8.0.0/29'' = Inr i"
    and v4: "mask_bits (subnet i) = 32" "mask_ones (subnet i) = 29"
  proof -
    have "case NewIPAM (ip6 ref_libs) ''10.8.0.0/29'' of Inl _ \<Rightarrow> False
        | Inr i \<Rightarrow> mask_bits (subnet i) = 32 \<and> mask_ones (subnet i) = 29" by code_simp
    then show thesis using that by (cases "NewIPAM (ip6 ref_libs) ''10.8.0.0/29''") auto
  qed
  obtain i' book where run: "lease_run Allocate Release [Take, Take, Give ''10.8.0.1'', Take] (i, []) = (i', book)"
    by (metis prod.collapse)
  from leases_distinct_and_bounded [OF i v4(1) run] v4(2) i run show ?thesis by auto
qed

text \<open>
  An address that is given back can be taken again: \<open>Release\<close> after \<open>Allocate\<close> restores
  the allocator, and the next \<open>Allocate\<close> returns the same address.
\<close>

theorem Allocate_Release_roundtrip:
  assumes n: "net4 (subnet i)" and al: "Allocate i = (Inr ip, i')"
  shows "Release ip i' = (Inr (), i) \<and> Allocate (snd (Release ip i')) = (Inr ip, i')"
proof -
  have "ip \<notin> used i" "i' = i\<lparr>used := insert ip (used i)\<rparr>" using Allocate_Inr [OF n al] by auto
  then have "Release ip i' = (Inr (), i)" by (simp add: Release_eq)
  with al show ?thesis by simp
qed

theorem Allocate_Release_roundtrip_witness:
  "\<exists>i'. Allocate ref_pool = (Inr ''10.8.0.2'', i') \<and> Release ''10.8.0.2'' i' = (Inr (), ref_pool)"
proof -
  have "fst (Allocate ref_pool) = Inr ''10.8.0.2''" by code_simp
  then obtain i' where i': "Allocate ref_pool = (Inr ''10.8.0.2'', i')" by (metis prod.collapse)
  with Allocate_Release_roundtrip [OF ref_pool_net(1) i'] show ?thesis by auto
qed

end
